theory Spec2Isabelle
  imports Complex_Main "HOL-Library.AList"
begin

section \<open>Errors\<close>

text \<open>
  Every \<^verbatim>\<open>raise\<close>, failed \<^verbatim>\<open>assert\<close>, failed subscript and failed tensor operation
  of the Python source is a value of this type; a function that can fail returns
  \<open>error + 'a\<close> with \<open>Inl\<close> for the failure.
\<close>

datatype error =
    AssertionError string
  | FeatureKeyError string
  | IndexError
  | KeyError string
  | FileNotFound string
  | AttributeError string
  | InvalidArgument string
  | TypeError string

section \<open>Feature configs (feature\_config\_pb2.FeatureConfig)\<close>

text \<open>
  The protobuf message is read-only input. A field the source tests with
  \<^verbatim>\<open>HasField\<close> is an \<open>option\<close>; reading such a field by value gives the proto2
  default when it is unset (the empty string, zero). Repeated fields are lists.
  Floating point fields are idealised as \<open>real\<close>.
\<close>

datatype feature_type =
  IdFeature | RawFeature | TagFeature | ComboFeature | LookupFeature | SequenceFeature | ExprFeature

datatype wide_or_deep = DEEP | WIDE | WIDE_AND_DEEP

record feature_config =
  feature_name :: "string option"
  feature_type :: feature_type
  input_names :: "string list"
  embedding_name :: "string option"
  embedding_dim :: int
  hash_bucket_size :: "int option"
  num_buckets :: int
  boundaries :: "real list"
  separator :: string
  kv_separator :: "string option"
  seq_multi_sep :: "string option"
  vocab_file :: string
  vocab_list :: "string list"
  lookup_max_sel_elem_num :: int
  max_partitions :: int
  combiner :: string
  initializer :: "string option"
  precision :: int
  min_val :: real
  max_val :: real
  raw_input_dim :: int
  sequence_combiner :: "string option"
  sub_feature_type :: feature_type
  sequence_length :: int
  expression :: string

definition hash_bucket_size_val :: "feature_config \<Rightarrow> int" where
  "hash_bucket_size_val config = (case hash_bucket_size config of None \<Rightarrow> 0 | Some n \<Rightarrow> n)"

definition embedding_name_val :: "feature_config \<Rightarrow> string" where
  "embedding_name_val config = (case embedding_name config of None \<Rightarrow> [] | Some n \<Rightarrow> n)"

definition feature_name_val :: "feature_config \<Rightarrow> string" where
  "feature_name_val config = (case feature_name config of None \<Rightarrow> [] | Some n \<Rightarrow> n)"

text \<open>\<^verbatim>\<open>config.input_names[0]\<close>: an IndexError on an empty list.\<close>

definition input_names_0 :: "feature_config \<Rightarrow> error + string" where
  "input_names_0 config = (case input_names config of [] \<Rightarrow> Inl IndexError | x # _ \<Rightarrow> Inr x)"

text \<open>
  \<^verbatim>\<open>config.feature_name if config.HasField('feature_name') else config.input_names[0]\<close>
\<close>

definition primary_name :: "feature_config \<Rightarrow> error + string" where
  "primary_name config =
     (case feature_name config of Some n \<Rightarrow> Inr n | None \<Rightarrow> input_names_0 config)"

section \<open>Feature columns\<close>

text \<open>
  The column constructors of the feature-column library are external to the source
  files modelled here. Each call is recorded symbolically, as a constructor applied to the
  arguments the source passes; the library's own argument validation is outside the
  model. \<open>SharedEmbedding\<close> is the source's handle class (embedding name, index,
  sequence combiner).
\<close>

datatype partitioner = fixed_size_partitioner int | min_max_variable_partitioner int

datatype column =
    categorical_column_with_hash_bucket string int
  | categorical_column_with_vocabulary_list string int "string list"
  | categorical_column_with_vocabulary_file string int string nat
  | categorical_column_with_identity string int int
  | weighted_categorical_column column string
  | numeric_column string int
  | bucketized_column column "real list"
  | crossed_column "string list" int
  | sequence_categorical_column_with_hash_bucket string int
  | sequence_categorical_column_with_vocabulary_list string int "string list"
  | sequence_categorical_column_with_vocabulary_file string int string nat
  | sequence_categorical_column_with_identity string int int
  | sequence_numeric_column string int
  | sequence_numeric_column_with_bucketized_column column "real list"
  | sequence_weighted_categorical_column column string
  | sequence_numeric_column_with_raw_column column int
  | embedding_column column int string "string option" "partitioner option" bool
  | SharedEmbedding string nat "string option"
  | shared_embedding_column column string int string "string option" "partitioner option" bool
  | with_sequence_combiner column "string option"

text \<open>
  Modelled from the spec: \<^verbatim>\<open>feature_column.shared_embedding_columns\<close> lives in the
  repository's compat package, which is not among the source files. The spec's glossary
  calls a shared embedding "an embedding table referenced by more than one feature,
  guaranteeing a single underlying parameter set": every input column comes back wrapped
  with the one table descriptor (collection name, dimension, combiner, initializer,
  partitioner) of the call.
\<close>

definition shared_embedding_columns ::
  "column list \<Rightarrow> int \<Rightarrow> string option \<Rightarrow> string \<Rightarrow> string \<Rightarrow> partitioner option \<Rightarrow> bool
     \<Rightarrow> column list" where
  "shared_embedding_columns cols dimension init collection_name comb part ev =
     map (\<lambda>c. shared_embedding_column c collection_name dimension comb init part ev) cols"

section \<open>FeatureColumnParser\<close>

record embed_info =
  info_embedding_dim :: int
  info_combiner :: string
  info_initializer :: "string option"
  info_max_partitions :: int

record parser =
  wide_output_dim :: int
  wide_deep_dict :: "(string \<times> wide_or_deep) list"
  deep_columns :: "(string \<times> column) list"
  wide_columns :: "(string \<times> column) list"
  sequence_columns :: "(string \<times> column) list"
  share_embed_names :: "(string \<times> nat) list"
  share_embed_infos :: "(string \<times> embed_info) list"
  deep_share_embed_columns :: "(string \<times> column list) list"
  wide_share_embed_columns :: "(string \<times> column list) list"
  use_embedding_variable :: bool
  vocab_size :: "(string \<times> nat) list"

subsection \<open>Shared-embedding bookkeeping (the first loop of the constructor)\<close>

definition embed_info_of :: "feature_config \<Rightarrow> embed_info" where
  "embed_info_of config =
     \<lparr> info_embedding_dim = embedding_dim config,
       info_combiner = combiner config,
       info_initializer = initializer config,
       info_max_partitions = max_partitions config \<rparr>"

text \<open>
  The loop over the configs; the two dictionaries are association lists, updated in
  place or extended at the end as a Python dict is.
\<close>

fun share_embed_scan ::
  "feature_config list \<Rightarrow> (string \<times> nat) list \<Rightarrow> (string \<times> embed_info) list
     \<Rightarrow> error + ((string \<times> nat) list \<times> (string \<times> embed_info) list)" where
  "share_embed_scan [] names infos = Inr (names, infos)"
| "share_embed_scan (config # rest) names infos =
     (case embedding_name config of
        None \<Rightarrow> share_embed_scan rest names infos
      | Some embed_name \<Rightarrow>
          (case map_of names embed_name of
             Some cnt \<Rightarrow>
               (case map_of infos embed_name of
                  None \<Rightarrow> Inl (KeyError embed_name)
                | Some info \<Rightarrow>
                    if embed_info_of config = info
                    then share_embed_scan rest (AList.update embed_name (cnt + 1) names) infos
                    else Inl (AssertionError ''shared embed info is not matched''))
           | None \<Rightarrow>
               share_embed_scan rest (AList.update embed_name 1 names)
                 (AList.update embed_name (embed_info_of config) infos)))"

text \<open>Lines 92-97: names counted once are deleted from both dictionaries.\<close>

definition not_shared_names :: "(string \<times> nat) list \<Rightarrow> string list" where
  "not_shared_names names = map fst (filter (\<lambda>(x, n). n = 1) names)"

definition share_embed_tables ::
  "feature_config list \<Rightarrow> error + ((string \<times> nat) list \<times> (string \<times> embed_info) list)" where
  "share_embed_tables feature_configs =
     (case share_embed_scan feature_configs [] [] of
        Inl e \<Rightarrow> Inl e
      | Inr (names, infos) \<Rightarrow>
          Inr (fold AList.delete (not_shared_names names) names,
               fold AList.delete (not_shared_names names) infos))"

subsection \<open>Wide/deep membership\<close>

definition is_wide :: "parser \<Rightarrow> feature_config \<Rightarrow> error + bool" where
  "is_wide self config =
     (case primary_name config of
        Inl e \<Rightarrow> Inl e
      | Inr fname \<Rightarrow>
          (case map_of (wide_deep_dict self) fname of
             None \<Rightarrow> Inl (FeatureKeyError fname)
           | Some wd \<Rightarrow> Inr (wd = WIDE \<or> wd = WIDE_AND_DEEP)))"

definition is_deep :: "parser \<Rightarrow> feature_config \<Rightarrow> error + bool" where
  "is_deep self config =
     (case primary_name config of
        Inl e \<Rightarrow> Inl e
      | Inr fname \<Rightarrow>
          (case map_of (wide_deep_dict self) fname of
             None \<Rightarrow> Inl (FeatureKeyError fname)
           | Some wd \<Rightarrow> Inr (wd = DEEP \<or> wd = WIDE_AND_DEEP)))"

subsection \<open>Adding embedding columns\<close>

definition build_partitioner :: "parser \<Rightarrow> int \<Rightarrow> partitioner option" where
  "build_partitioner self max_parts =
     (if max_parts > 1
      then (if use_embedding_variable self then Some (fixed_size_partitioner max_parts)
            else Some (min_max_variable_partitioner max_parts))
      else None)"

text \<open>
  \<^verbatim>\<open>_add_shared_embedding_column\<close>: the index is the length of the deep list whichever
  side is extended, as in the source.
\<close>

definition add_shared_embedding_column ::
  "string \<Rightarrow> column \<Rightarrow> bool \<Rightarrow> parser \<Rightarrow> error + (column \<times> parser)" where
  "add_shared_embedding_column ename fc deep self =
     (case map_of (deep_share_embed_columns self) ename of
        None \<Rightarrow> Inl (KeyError ename)
      | Some dcols \<Rightarrow>
          (if deep
           then Inr (SharedEmbedding ename (length dcols) None,
                  self\<lparr>deep_share_embed_columns :=
                    AList.update ename (dcols @ [fc]) (deep_share_embed_columns self)\<rparr>)
           else (case map_of (wide_share_embed_columns self) ename of
                   None \<Rightarrow> Inl (KeyError ename)
                 | Some wcols \<Rightarrow>
                     Inr (SharedEmbedding ename (length dcols) None,
                       self\<lparr>wide_share_embed_columns :=
                         AList.update ename (wcols @ [fc]) (wide_share_embed_columns self)\<rparr>))))"

definition add_wide_embedding_column ::
  "column \<Rightarrow> feature_config \<Rightarrow> parser \<Rightarrow> error + parser" where
  "add_wide_embedding_column fc config self =
     (case primary_name config of
        Inl e \<Rightarrow> Inl e
      | Inr fname \<Rightarrow>
          if \<not> wide_output_dim self > 0 then Inl (AssertionError ''wide_output_dim is not set'')
          else if embedding_name_val config \<in> fst ` set (wide_share_embed_columns self)
          then (case add_shared_embedding_column (embedding_name_val config) fc False self of
                  Inl e \<Rightarrow> Inl e
                | Inr (wide_fc, self1) \<Rightarrow>
                    Inr (self1\<lparr>wide_columns := AList.update fname wide_fc (wide_columns self1)\<rparr>))
          else Inr (self\<lparr>wide_columns :=
                 AList.update fname
                   (embedding_column fc (wide_output_dim self) ''sum'' (initializer config)
                      (build_partitioner self (max_partitions config)) (use_embedding_variable self))
                   (wide_columns self)\<rparr>))"

definition set_sequence_combiner :: "string option \<Rightarrow> column \<Rightarrow> column" where
  "set_sequence_combiner sc fc =
     (case fc of SharedEmbedding n i _ \<Rightarrow> SharedEmbedding n i sc
      | _ \<Rightarrow> with_sequence_combiner fc sc)"

definition add_deep_embedding_column ::
  "column \<Rightarrow> feature_config \<Rightarrow> parser \<Rightarrow> error + parser" where
  "add_deep_embedding_column fc0 config self =
     (case primary_name config of
        Inl e \<Rightarrow> Inl e
      | Inr fname \<Rightarrow>
          if \<not> embedding_dim config > 0 then Inl (AssertionError ''embedding_dim is not set'')
          else
            (case (if embedding_name_val config \<in> fst ` set (deep_share_embed_columns self)
                   then add_shared_embedding_column (embedding_name_val config) fc0 True self
                   else Inr (embedding_column fc0 (embedding_dim config) (combiner config)
                               (initializer config)
                               (build_partitioner self (max_partitions config))
                               (use_embedding_variable self), self)) of
               Inl e \<Rightarrow> Inl e
             | Inr (fc, self1) \<Rightarrow>
                 if feature_type config \<noteq> SequenceFeature
                 then Inr (self1\<lparr>deep_columns := AList.update fname fc (deep_columns self1)\<rparr>)
                 else
                   (let fc' = (case sequence_combiner config of
                                 None \<Rightarrow> fc
                               | Some sc \<Rightarrow> set_sequence_combiner (Some sc) fc)
                    in Inr (self1\<lparr>sequence_columns :=
                              AList.update fname fc' (sequence_columns self1)\<rparr>))))"

subsection \<open>The wide/deep tail shared by the parse methods\<close>

text \<open>
  \<^verbatim>\<open>if self.is_wide(config): self._add_wide_embedding_column(fc, config)\<close> followed by
  \<^verbatim>\<open>if self.is_deep(config): self._add_deep_embedding_column(fc, config)\<close>.
  A parse method returns the exception it raised, if any, with the parser as it stood
  at that moment.
\<close>

definition add_wide_and_deep ::
  "column \<Rightarrow> feature_config \<Rightarrow> parser \<Rightarrow> error option \<times> parser" where
  "add_wide_and_deep fc config self =
     (case is_wide self config of
        Inl e \<Rightarrow> (Some e, self)
      | Inr w \<Rightarrow>
          (case (if w then add_wide_embedding_column fc config self else Inr self) of
             Inl e \<Rightarrow> (Some e, self)
           | Inr self1 \<Rightarrow>
               (case is_deep self1 config of
                  Inl e \<Rightarrow> (Some e, self1)
                | Inr d \<Rightarrow>
                    if d
                    then (case add_deep_embedding_column fc config self1 of
                            Inl e \<Rightarrow> (Some e, self1)
                          | Inr self2 \<Rightarrow> (None, self2))
                    else (None, self1))))"

subsection \<open>Vocabulary files\<close>

text \<open>
  \<open>gfile\<close> stands for the file system: the number of lines of the file at a path,
  \<open>None\<close> when it cannot be read.
\<close>

definition get_vocab_size ::
  "(string \<Rightarrow> nat option) \<Rightarrow> string \<Rightarrow> parser \<Rightarrow> error + (nat \<times> parser)" where
  "get_vocab_size gfile vocab_path self =
     (case map_of (vocab_size self) vocab_path of
        Some n \<Rightarrow> Inr (n, self)
      | None \<Rightarrow>
          (case gfile vocab_path of
             None \<Rightarrow> Inl (FileNotFound vocab_path)
           | Some n \<Rightarrow>
               Inr (n, self\<lparr>vocab_size := AList.update vocab_path n (vocab_size self)\<rparr>)))"

subsection \<open>parse\_id\_feature\<close>

text \<open>Lines 232-249: the categorical column of an Id feature.\<close>

definition id_categorical_column ::
  "(string \<Rightarrow> nat option) \<Rightarrow> feature_config \<Rightarrow> parser \<Rightarrow> error + (column \<times> parser)" where
  "id_categorical_column gfile config self =
     (case input_names_0 config of
        Inl e \<Rightarrow> Inl e
      | Inr input_0 \<Rightarrow>
          if hash_bucket_size_val config > 0
          then Inr (categorical_column_with_hash_bucket input_0 (hash_bucket_size_val config), self)
          else if vocab_list config \<noteq> []
          then Inr (categorical_column_with_vocabulary_list input_0 0 (vocab_list config), self)
          else if vocab_file config \<noteq> []
          then (case get_vocab_size gfile (vocab_file config) self of
                  Inl e \<Rightarrow> Inl e
                | Inr (n, self1) \<Rightarrow>
                    Inr (categorical_column_with_vocabulary_file input_0 0 (vocab_file config) n,
                         self1))
          else Inr (categorical_column_with_identity input_0 (num_buckets config) 0, self))"

definition parse_id_feature ::
  "(string \<Rightarrow> nat option) \<Rightarrow> feature_config \<Rightarrow> parser \<Rightarrow> error option \<times> parser" where
  "parse_id_feature gfile config self =
     (case id_categorical_column gfile config self of
        Inl e \<Rightarrow> (Some e, self)
      | Inr (fc, self1) \<Rightarrow> add_wide_and_deep fc config self1)"

subsection \<open>parse\_tag\_feature\<close>

text \<open>Lines 266-291: the categorical column of a Tag feature, weighted if configured.\<close>

definition tag_categorical_column ::
  "(string \<Rightarrow> nat option) \<Rightarrow> feature_config \<Rightarrow> parser \<Rightarrow> error + (column \<times> parser)" where
  "tag_categorical_column gfile config self =
     (case input_names_0 config of
        Inl e \<Rightarrow> Inl e
      | Inr input_0 \<Rightarrow>
          (case (if hash_bucket_size config \<noteq> None
                 then Inr (categorical_column_with_hash_bucket input_0
                             (hash_bucket_size_val config), self)
                 else if vocab_list config \<noteq> []
                 then Inr (categorical_column_with_vocabulary_list input_0 0 (vocab_list config),
                           self)
                 else if vocab_file config \<noteq> []
                 then (case get_vocab_size gfile (vocab_file config) self of
                         Inl e \<Rightarrow> Inl e
                       | Inr (n, self1) \<Rightarrow>
                           Inr (categorical_column_with_vocabulary_file input_0 0
                                  (vocab_file config) n, self1))
                 else Inr (categorical_column_with_identity input_0 (num_buckets config) 0,
                           self)) of
             Inl e \<Rightarrow> Inl e
           | Inr (tag_fc, self1) \<Rightarrow>
               Inr (if length (input_names config) > 1
                    then weighted_categorical_column tag_fc (input_names config ! 1)
                    else if kv_separator config \<noteq> None
                    then weighted_categorical_column tag_fc (input_0 @ ''_WEIGHT'')
                    else tag_fc, self1)))"

definition parse_tag_feature ::
  "(string \<Rightarrow> nat option) \<Rightarrow> feature_config \<Rightarrow> parser \<Rightarrow> error option \<times> parser" where
  "parse_tag_feature gfile config self =
     (case tag_categorical_column gfile config self of
        Inl e \<Rightarrow> (Some e, self)
      | Inr (tag_fc, self1) \<Rightarrow> add_wide_and_deep tag_fc config self1)"

subsection \<open>parse\_raw\_feature\<close>

text \<open>
  The boundaries of a bucketized raw or sequence feature: the configured ones sorted,
  or \<open>num_buckets\<close> equal-width cut points; the empty list stands for Python's
  \<^verbatim>\<open>None\<close> as well, since the source only tests \<^verbatim>\<open>if bounds:\<close>.
\<close>

definition raw_bounds :: "feature_config \<Rightarrow> real list" where
  "raw_bounds config =
     (if boundaries config \<noteq> [] then sort (boundaries config)
      else if num_buckets config > 1 \<and> max_val config > min_val config
      then map (\<lambda>x. real_of_int x / real_of_int (num_buckets config))
             [0 .. num_buckets config - 1]
      else [])"

definition parse_raw_feature :: "feature_config \<Rightarrow> parser \<Rightarrow> error option \<times> parser" where
  "parse_raw_feature config self =
     (case primary_name config of
        Inl e \<Rightarrow> (Some e, self)
      | Inr fname \<Rightarrow>
     (case input_names_0 config of
        Inl e \<Rightarrow> (Some e, self)
      | Inr input_0 \<Rightarrow>
          (let fc = numeric_column input_0 (raw_input_dim config);
               bounds = raw_bounds config
           in if bounds \<noteq> []
              then add_wide_and_deep (bucketized_column fc bounds) config self
              else
                (let tmp_id_col = categorical_column_with_identity (input_0 @ ''_raw_proj_id'')
                                    (raw_input_dim config) 0;
                     wgt_fc = weighted_categorical_column tmp_id_col (input_0 @ ''_raw_proj_val'')
                 in case is_wide self config of
                      Inl e \<Rightarrow> (Some e, self)
                    | Inr w \<Rightarrow>
                        (case (if w then add_wide_embedding_column wgt_fc config self
                               else Inr self) of
                           Inl e \<Rightarrow> (Some e, self)
                         | Inr self1 \<Rightarrow>
                             (case is_deep self1 config of
                                Inl e \<Rightarrow> (Some e, self1)
                              | Inr d \<Rightarrow>
                                  if d
                                  then (if embedding_dim config > 0
                                        then (case add_deep_embedding_column wgt_fc config self1 of
                                                Inl e \<Rightarrow> (Some e, self1)
                                              | Inr self2 \<Rightarrow> (None, self2))
                                        else (None, self1\<lparr>deep_columns :=
                                                AList.update fname fc (deep_columns self1)\<rparr>))
                                  else (None, self1)))))))"

subsection \<open>parse\_expr\_feature, parse\_combo\_feature, parse\_lookup\_feature\<close>

definition parse_expr_feature :: "feature_config \<Rightarrow> parser \<Rightarrow> error option \<times> parser" where
  "parse_expr_feature config self =
     (case primary_name config of
        Inl e \<Rightarrow> (Some e, self)
      | Inr fname \<Rightarrow>
          (let fc = numeric_column fname 1
           in case is_wide self config of
                Inl e \<Rightarrow> (Some e, self)
              | Inr w \<Rightarrow>
                  (case (if w then add_wide_embedding_column fc config self else Inr self) of
                     Inl e \<Rightarrow> (Some e, self)
                   | Inr self1 \<Rightarrow>
                       (case is_deep self1 config of
                          Inl e \<Rightarrow> (Some e, self1)
                        | Inr d \<Rightarrow>
                            if d
                            then (None, self1\<lparr>deep_columns :=
                                    AList.update fname fc (deep_columns self1)\<rparr>)
                            else (None, self1)))))"

definition parse_combo_feature :: "feature_config \<Rightarrow> parser \<Rightarrow> error option \<times> parser" where
  "parse_combo_feature config self =
     (if \<not> length (input_names config) \<ge> 2 then (Some (AssertionError []), self)
      else add_wide_and_deep
             (crossed_column (input_names config) (hash_bucket_size_val config)) config self)"

definition parse_lookup_feature :: "feature_config \<Rightarrow> parser \<Rightarrow> error option \<times> parser" where
  "parse_lookup_feature config self =
     (case primary_name config of
        Inl e \<Rightarrow> (Some e, self)
      | Inr fname \<Rightarrow>
          if hash_bucket_size config = None then (Some (AssertionError []), self)
          else add_wide_and_deep
                 (categorical_column_with_hash_bucket fname (hash_bucket_size_val config))
                 config self)"

subsection \<open>parse\_sequence\_feature\<close>

text \<open>The method never consults the wide/deep dictionary.\<close>

definition sequence_sub_column ::
  "(string \<Rightarrow> nat option) \<Rightarrow> feature_config \<Rightarrow> string \<Rightarrow> parser \<Rightarrow> error + (column \<times> parser)"
  where
  "sequence_sub_column gfile config input_0 self =
     (if sub_feature_type config = IdFeature
      then (if hash_bucket_size config \<noteq> None
            then Inr (sequence_categorical_column_with_hash_bucket input_0
                        (hash_bucket_size_val config), self)
            else if vocab_list config \<noteq> []
            then Inr (sequence_categorical_column_with_vocabulary_list input_0 0
                        (vocab_list config), self)
            else if vocab_file config \<noteq> []
            then (case get_vocab_size gfile (vocab_file config) self of
                    Inl e \<Rightarrow> Inl e
                  | Inr (n, self1) \<Rightarrow>
                      Inr (sequence_categorical_column_with_vocabulary_file input_0 0
                             (vocab_file config) n, self1))
            else Inr (sequence_categorical_column_with_identity input_0 (num_buckets config) 0,
                      self))
      else
        (let fc = sequence_numeric_column input_0 1
         in if hash_bucket_size_val config > 0
            then Inl (AssertionError
                   ''You should set sub_feature_type to IdFeature to use hash_bucket_size.'')
            else
              (let bounds = raw_bounds config
               in if bounds \<noteq> []
                  then Inr (sequence_numeric_column_with_bucketized_column fc bounds, self)
                  else if embedding_dim config > 0
                  then Inr (sequence_weighted_categorical_column
                              (sequence_categorical_column_with_identity
                                 (input_0 @ ''_raw_proj_id'') (raw_input_dim config) 0)
                              (input_0 @ ''_raw_proj_val''), self)
                  else Inr (sequence_numeric_column_with_raw_column fc (sequence_length config),
                            self))))"

definition parse_sequence_feature ::
  "(string \<Rightarrow> nat option) \<Rightarrow> feature_config \<Rightarrow> parser \<Rightarrow> error option \<times> parser" where
  "parse_sequence_feature gfile config self =
     (case primary_name config of
        Inl e \<Rightarrow> (Some e, self)
      | Inr fname \<Rightarrow>
          if \<not> (sub_feature_type config = IdFeature \<or> sub_feature_type config = RawFeature)
          then (Some (AssertionError
                  ''Current sub_feature_type only support IdFeature and RawFeature.''), self)
          else
            (case input_names_0 config of
               Inl e \<Rightarrow> (Some e, self)
             | Inr input_0 \<Rightarrow>
                 (case sequence_sub_column gfile config input_0 self of
                    Inl e \<Rightarrow> (Some e, self)
                  | Inr (fc, self1) \<Rightarrow>
                      if embedding_dim config > 0
                      then (case add_deep_embedding_column fc config self1 of
                              Inl e \<Rightarrow> (Some e, self1)
                            | Inr self2 \<Rightarrow> (None, self2))
                      else (None, self1\<lparr>sequence_columns :=
                              AList.update fname fc (sequence_columns self1)\<rparr>))))"

subsection \<open>The constructor\<close>

text \<open>The dispatch on the feature type (lines 114-129).\<close>

definition parse_feature ::
  "(string \<Rightarrow> nat option) \<Rightarrow> feature_config \<Rightarrow> parser \<Rightarrow> error option \<times> parser" where
  "parse_feature gfile config self =
     (case feature_type config of
        IdFeature \<Rightarrow> parse_id_feature gfile config self
      | TagFeature \<Rightarrow> parse_tag_feature gfile config self
      | RawFeature \<Rightarrow> parse_raw_feature config self
      | ComboFeature \<Rightarrow> parse_combo_feature config self
      | LookupFeature \<Rightarrow> parse_lookup_feature config self
      | SequenceFeature \<Rightarrow> parse_sequence_feature gfile config self
      | ExprFeature \<Rightarrow> parse_expr_feature config self)"

text \<open>
  The second loop (lines 111-131): a FeatureKeyError is caught and the loop goes on with
  the next config; any other exception leaves the constructor.
\<close>

fun parse_features ::
  "(string \<Rightarrow> nat option) \<Rightarrow> feature_config list \<Rightarrow> parser \<Rightarrow> error option \<times> parser" where
  "parse_features gfile [] self = (None, self)"
| "parse_features gfile (config # rest) self =
     (case parse_feature gfile config self of
        (None, self1) \<Rightarrow> parse_features gfile rest self1
      | (Some e, self1) \<Rightarrow>
          (case e of
             FeatureKeyError n \<Rightarrow> parse_features gfile rest self1
           | _ \<Rightarrow> (Some e, self1)))"

text \<open>Lines 133-161: the shared columns of every shared embedding name.\<close>

fun build_shared_columns :: "string list \<Rightarrow> parser \<Rightarrow> error + parser" where
  "build_shared_columns [] self = Inr self"
| "build_shared_columns (embed_name # rest) self =
     (case map_of (share_embed_infos self) embed_name of
        None \<Rightarrow> Inl (KeyError embed_name)
      | Some info \<Rightarrow>
          (case map_of (deep_share_embed_columns self) embed_name of
             None \<Rightarrow> Inl (KeyError embed_name)
           | Some dcols \<Rightarrow>
               (let init = info_initializer info;
                    part = build_partitioner self (info_max_partitions info);
                    self1 = self\<lparr>deep_share_embed_columns :=
                      AList.update embed_name
                        (shared_embedding_columns dcols (info_embedding_dim info) init embed_name
                           (info_combiner info) part (use_embedding_variable self))
                        (deep_share_embed_columns self)\<rparr>
                in case map_of (wide_share_embed_columns self1) embed_name of
                     None \<Rightarrow> Inl (KeyError embed_name)
                   | Some wcols \<Rightarrow>
                       if length wcols = 0 then build_shared_columns rest self1
                       else build_shared_columns rest
                              (self1\<lparr>wide_share_embed_columns :=
                                 AList.update embed_name
                                   (shared_embedding_columns wcols (wide_output_dim self1) init
                                      (embed_name @ ''_wide'') ''sum'' part
                                      (use_embedding_variable self1))
                                   (wide_share_embed_columns self1)\<rparr>))))"

definition get_shared_embedding_column ::
  "string \<Rightarrow> nat \<Rightarrow> string option \<Rightarrow> bool \<Rightarrow> parser \<Rightarrow> error + column" where
  "get_shared_embedding_column embed_name embed_id sc deep self =
     (case map_of (if deep then deep_share_embed_columns self
                   else wide_share_embed_columns self) embed_name of
        None \<Rightarrow> Inl (KeyError embed_name)
      | Some cols \<Rightarrow>
          if embed_id < length cols then Inr (with_sequence_combiner (cols ! embed_id) sc)
          else Inl IndexError)"

text \<open>Lines 163-177: every handle in a column table is replaced by its shared column.\<close>

fun resolve_columns ::
  "bool \<Rightarrow> parser \<Rightarrow> (string \<times> column) list \<Rightarrow> error + (string \<times> column) list" where
  "resolve_columns deep self [] = Inr []"
| "resolve_columns deep self ((fc_name, fc) # rest) =
     (case (case fc of
              SharedEmbedding n i sc \<Rightarrow> get_shared_embedding_column n i sc deep self
            | _ \<Rightarrow> Inr fc) of
        Inl e \<Rightarrow> Inl e
      | Inr fc' \<Rightarrow>
          (case resolve_columns deep self rest of
             Inl e \<Rightarrow> Inl e
           | Inr rest' \<Rightarrow> Inr ((fc_name, fc') # rest')))"

text \<open>Lines 55-66 and 101-109: the object before the second loop.\<close>

definition new_parser ::
  "(string \<times> nat) list \<Rightarrow> (string \<times> embed_info) list \<Rightarrow> (string \<times> wide_or_deep) list \<Rightarrow> int
     \<Rightarrow> bool \<Rightarrow> parser" where
  "new_parser names infos wd_dict wide_dim use_ev =
     \<lparr> wide_output_dim = wide_dim,
       wide_deep_dict = wd_dict,
       deep_columns = [],
       wide_columns = [],
       sequence_columns = [],
       share_embed_names = names,
       share_embed_infos = infos,
       deep_share_embed_columns = map (\<lambda>(n, c). (n, [])) names,
       wide_share_embed_columns = map (\<lambda>(n, c). (n, [])) names,
       use_embedding_variable = use_ev,
       vocab_size = [] \<rparr>"

text \<open>Lines 133-177: the loops after the second one.\<close>

definition finish_columns :: "parser \<Rightarrow> error + parser" where
  "finish_columns self1 =
     (case build_shared_columns (map fst (share_embed_names self1)) self1 of
        Inl e \<Rightarrow> Inl e
      | Inr self2 \<Rightarrow>
          (case resolve_columns True self2 (deep_columns self2) of
             Inl e \<Rightarrow> Inl e
           | Inr dc \<Rightarrow>
               (case resolve_columns False self2 (wide_columns self2) of
                  Inl e \<Rightarrow> Inl e
                | Inr wc \<Rightarrow>
                    (case resolve_columns True self2 (sequence_columns self2) of
                       Inl e \<Rightarrow> Inl e
                     | Inr sc \<Rightarrow>
                         Inr (self2\<lparr>deep_columns := dc, wide_columns := wc,
                                sequence_columns := sc\<rparr>)))))"

definition FeatureColumnParser_init ::
  "(string \<Rightarrow> nat option) \<Rightarrow> feature_config list \<Rightarrow> (string \<times> wide_or_deep) list \<Rightarrow> int \<Rightarrow> bool
     \<Rightarrow> error + parser" where
  "FeatureColumnParser_init gfile feature_configs wd_dict wide_dim use_ev =
     (case share_embed_tables feature_configs of
        Inl e \<Rightarrow> Inl e
      | Inr (names, infos) \<Rightarrow>
          (case parse_features gfile feature_configs
                  (new_parser names infos wd_dict wide_dim use_ev) of
             (Some e, self1) \<Rightarrow> Inl e
           | (None, self1) \<Rightarrow> finish_columns self1))"

section \<open>Tensors and the tensor operations the preprocessor calls\<close>

text \<open>
  The preprocessor is modelled on the values a batch holds. A dense tensor is its shape
  and its elements in row-major order; a sparse tensor is its index rows, its values and
  its dense shape, as the three components of \<^verbatim>\<open>tf.SparseTensor\<close>, whose constructor
  checks nothing at run time. Numbers of every numeric dtype are reals with the dtype kept
  beside them; what a cast or an arithmetic operation loses by rounding is a parameter of
  the model (see \<open>tf_env\<close>), and overflow and the non-finite values are left out.
\<close>

datatype numtype = INT32 | INT64 | FLOAT | DOUBLE

datatype tdata = StrData "string list" | NumData numtype "real list" | BoolData "bool list"

datatype dense = DenseT (shape: "nat list") (elems: tdata)

datatype tensor =
    Dense dense
  | Sparse (indices: "nat list list") (svals: tdata) (dense_shape: "int list")

text \<open>
  An input tensor, as the graph that \<^verbatim>\<open>_preprocess\<close> builds sees it: the static shape
  that \<^verbatim>\<open>get_shape()\<close> reports, with \<open>None\<close> for a dimension unknown until run time
  (\<^verbatim>\<open>create_multi_placeholders\<close> declares \<^verbatim>\<open>[None]\<close> and \<^verbatim>\<open>[None, None]\<close>), and the
  value fed for the batch. The rank of the static shape is the rank of the value. Only the
  Tag branch reads a dimension of the static shape; the other branches read its length
  alone and are modelled on the values.
\<close>

datatype input_tensor = InputT (get_shape: "nat option list") (fed: dense)

definition fed_dict :: "(string \<times> input_tensor) list \<Rightarrow> (string \<times> dense) list" where
  "fed_dict field_dict = map (\<lambda>(k, t). (k, fed t)) field_dict"

text \<open>
  Operations whose results depend on number syntax are parameters of the model:
  \<open>str2num\<close> is \<^verbatim>\<open>tf.string_to_number\<close> on one string (\<open>None\<close> when the string is
  not a number of the requested type), \<open>num2str\<close> is \<^verbatim>\<open>tf.as_string\<close> on one number
  with the given precision (\<open>None\<close> for the default), and \<open>expr_eval\<close> stands for
  building and evaluating the expression of an Expression feature. \<open>round32\<close> and
  \<open>round64\<close> give the float32 and the double nearest to a real number: the result of a
  cast to that type and of one arithmetic operation in it.
\<close>

record tf_env =
  str2num :: "numtype \<Rightarrow> string \<Rightarrow> real option"
  num2str :: "numtype \<Rightarrow> int option \<Rightarrow> real \<Rightarrow> string"
  expr_eval :: "string \<Rightarrow> string list \<Rightarrow> (string \<times> tensor) list \<Rightarrow> error + tensor"
  round32 :: "real \<Rightarrow> real"
  round64 :: "real \<Rightarrow> real"

definition rbind :: "error + 'a \<Rightarrow> ('a \<Rightarrow> error + 'b) \<Rightarrow> error + 'b" where
  "rbind m f = (case m of Inl e \<Rightarrow> Inl e | Inr x \<Rightarrow> f x)"

definition field_lookup :: "(string \<times> 'a) list \<Rightarrow> string \<Rightarrow> error + 'a" where
  "field_lookup d k = (case map_of d k of None \<Rightarrow> Inl (KeyError k) | Some t \<Rightarrow> Inr t)"

subsection \<open>tf.string\_split and tf.strings.split\<close>

text \<open>
  \<^verbatim>\<open>tf.string_split\<close>: every character of the delimiter is a split point; an empty
  source string has no token; an empty delimiter splits into single characters; empty
  tokens are dropped when \<open>skip_empty\<close> holds.
\<close>

fun split_on_chars :: "char list \<Rightarrow> string \<Rightarrow> string list" where
  "split_on_chars delims [] = [[]]"
| "split_on_chars delims (c # cs) =
     (if c \<in> set delims then [] # split_on_chars delims cs
      else (c # hd (split_on_chars delims cs)) # tl (split_on_chars delims cs))"

definition split_tokens :: "string \<Rightarrow> bool \<Rightarrow> string \<Rightarrow> string list" where
  "split_tokens delimiter skip_empty str =
     (if str = [] then []
      else if delimiter = [] then map (\<lambda>c. [c]) str
      else filter (\<lambda>t. \<not> skip_empty \<or> t \<noteq> []) (split_on_chars delimiter str))"

text \<open>
  \<^verbatim>\<open>tf.strings.split\<close> follows Python's \<^verbatim>\<open>str.split\<close>: a non-empty separator is
  matched as a whole and delimits empty strings too; with an empty separator the string is
  split at runs of whitespace.
\<close>

function split_on_string :: "string \<Rightarrow> string \<Rightarrow> string list" where
  "split_on_string sep [] = [[]]"
| "split_on_string sep (c # cs) =
     (if sep \<noteq> [] \<and> take (length sep) (c # cs) = sep
      then [] # split_on_string sep (drop (length sep) (c # cs))
      else (c # hd (split_on_string sep cs)) # tl (split_on_string sep cs))"
  by pat_completeness auto
termination
  by (relation "measure (\<lambda>(sep, s). length s)") auto

definition whitespace :: "char list" where
  "whitespace = [CHR '' '', CHR 0x09, CHR 0x0A, CHR 0x0B, CHR 0x0C, CHR 0x0D]"

definition split_tokens_v2 :: "string \<Rightarrow> string \<Rightarrow> string list" where
  "split_tokens_v2 sep str =
     (if sep = [] then filter (\<lambda>t. t \<noteq> []) (split_on_chars whitespace str)
      else split_on_string sep str)"

text \<open>
  The sparse layout of a batch of token lists: row \<open>i\<close>, position \<open>j\<close> within the row;
  dense shape (number of rows, longest row).
\<close>

definition row_indices :: "'a list list \<Rightarrow> nat list list" where
  "row_indices rows =
     concat (map (\<lambda>(i, toks). map (\<lambda>j. [i, j]) [0 ..< length toks])
                 (zip [0 ..< length rows] rows))"

definition max_row_length :: "'a list list \<Rightarrow> nat" where
  "max_row_length rows = foldr max (map length rows) 0"

definition sparse_of_rows :: "string list list \<Rightarrow> nat list list \<times> string list \<times> int list" where
  "sparse_of_rows rows =
     (row_indices rows, concat rows, [int (length rows), int (max_row_length rows)])"

definition string_split ::
  "dense \<Rightarrow> string \<Rightarrow> bool \<Rightarrow> error + (nat list list \<times> string list \<times> int list)" where
  "string_split source delimiter skip_empty =
     (case elems source of
        StrData ss \<Rightarrow>
          if length (shape source) = 1
          then Inr (sparse_of_rows (map (split_tokens delimiter skip_empty) ss))
          else Inl (InvalidArgument ''input must be a vector'')
      | _ \<Rightarrow> Inl (TypeError ''string_split expects strings''))"

definition strings_split ::
  "dense \<Rightarrow> string \<Rightarrow> error + (nat list list \<times> string list \<times> int list)" where
  "strings_split source sep =
     (case elems source of
        StrData ss \<Rightarrow>
          if length (shape source) = 1
          then Inr (sparse_of_rows (map (split_tokens_v2 sep) ss))
          else Inl (InvalidArgument ''input must be a vector'')
      | _ \<Rightarrow> Inl (TypeError ''strings.split expects strings''))"

subsection \<open>Numbers from strings and strings from numbers\<close>

fun string_to_number :: "tf_env \<Rightarrow> numtype \<Rightarrow> string list \<Rightarrow> error + real list" where
  "string_to_number env ty [] = Inr []"
| "string_to_number env ty (s # ss) =
     (case str2num env ty s of
        None \<Rightarrow> Inl (InvalidArgument ''StringToNumberOp could not correctly convert string'')
      | Some x \<Rightarrow>
          (case string_to_number env ty ss of
             Inl e \<Rightarrow> Inl e
           | Inr xs \<Rightarrow> Inr (x # xs)))"

definition string_to_number_data :: "tf_env \<Rightarrow> numtype \<Rightarrow> tdata \<Rightarrow> error + tdata" where
  "string_to_number_data env ty d =
     (case d of
        StrData ss \<Rightarrow> rbind (string_to_number env ty ss) (\<lambda>xs. Inr (NumData ty xs))
      | _ \<Rightarrow> Inl (TypeError ''string_to_number expects strings''))"

definition as_string :: "tf_env \<Rightarrow> int option \<Rightarrow> tdata \<Rightarrow> tdata" where
  "as_string env prec d =
     (case d of
        StrData ss \<Rightarrow> StrData ss
      | NumData ty xs \<Rightarrow> StrData (map (num2str env ty prec) xs)
      | BoolData bs \<Rightarrow> StrData (map (\<lambda>b. if b then ''true'' else ''false'') bs))"

text \<open>
  \<^verbatim>\<open>tf.to_float\<close> and \<^verbatim>\<open>tf.cast(., tf.float64)\<close>: a tensor that has the dtype already is
  returned as it is; int32 and float32 numbers are doubles.
\<close>

definition to_float :: "tf_env \<Rightarrow> numtype \<Rightarrow> real list \<Rightarrow> real list" where
  "to_float env ty xs = (if ty = FLOAT then xs else map (round32 env) xs)"

definition to_double :: "tf_env \<Rightarrow> numtype \<Rightarrow> real list \<Rightarrow> real list" where
  "to_double env ty xs = (if ty = INT64 then map (round64 env) xs else xs)"

definition is_string :: "tdata \<Rightarrow> bool" where
  "is_string d = (case d of StrData _ \<Rightarrow> True | _ \<Rightarrow> False)"

definition is_floating :: "tdata \<Rightarrow> bool" where
  "is_floating d = (case d of NumData ty _ \<Rightarrow> ty = FLOAT \<or> ty = DOUBLE | _ \<Rightarrow> False)"

definition is_numeric :: "tdata \<Rightarrow> bool" where
  "is_numeric d = (case d of NumData _ _ \<Rightarrow> True | _ \<Rightarrow> False)"

definition data_length :: "tdata \<Rightarrow> nat" where
  "data_length d =
     (case d of StrData ss \<Rightarrow> length ss | NumData _ xs \<Rightarrow> length xs | BoolData bs \<Rightarrow> length bs)"

subsection \<open>Reshaping, gathering, scattering\<close>

text \<open>\<^verbatim>\<open>tf.reshape(x, [-1, 2])\<close> followed by the column slices \<^verbatim>\<open>[:, 0]\<close> and \<^verbatim>\<open>[:, 1]\<close>.\<close>

fun pairs :: "'a list \<Rightarrow> ('a \<times> 'a) list" where
  "pairs (x # y # rest) = (x, y) # pairs rest"
| "pairs _ = []"

definition reshape_pairs :: "'a list \<Rightarrow> error + ('a \<times> 'a) list" where
  "reshape_pairs xs =
     (if even (length xs) then Inr (pairs xs)
      else Inl (InvalidArgument ''Input to reshape is a tensor with an odd number of values''))"

text \<open>\<^verbatim>\<open>tf.gather\<close> on the first axis; an index out of range fails.\<close>

fun gather :: "'a list \<Rightarrow> nat list \<Rightarrow> error + 'a list" where
  "gather params [] = Inr []"
| "gather params (i # ids) =
     (if i < length params
      then (case gather params ids of Inl e \<Rightarrow> Inl e | Inr ys \<Rightarrow> Inr ((params ! i) # ys))
      else Inl (InvalidArgument ''gather index out of range''))"

text \<open>
  \<^verbatim>\<open>tf.sparse_to_dense\<close> with \<^verbatim>\<open>validate_indices=True\<close> and default value 0: the
  index rows have the rank of the output, lie inside it and are strictly increasing in
  lexicographic order; there is one value per index row.
\<close>

fun flat_index :: "nat list \<Rightarrow> nat list \<Rightarrow> nat" where
  "flat_index [] [] = 0"
| "flat_index (d # ds) (i # is) = i * prod_list ds + flat_index ds is"
| "flat_index _ _ = 0"

definition index_in_bounds :: "nat list \<Rightarrow> nat list \<Rightarrow> bool" where
  "index_in_bounds out_shape idx =
     (length idx = length out_shape \<and> list_all2 (\<lambda>i d. i < d) idx out_shape)"

fun lex_less :: "nat list \<Rightarrow> nat list \<Rightarrow> bool" where
  "lex_less [] [] = False"
| "lex_less (a # as) (b # bs) = (a < b \<or> (a = b \<and> lex_less as bs))"
| "lex_less _ _ = False"

fun strictly_increasing :: "nat list list \<Rightarrow> bool" where
  "strictly_increasing (a # b # rest) = (lex_less a b \<and> strictly_increasing (b # rest))"
| "strictly_increasing _ = True"

definition sparse_to_dense :: "nat list list \<Rightarrow> nat list \<Rightarrow> real list \<Rightarrow> error + real list" where
  "sparse_to_dense idxs out_shape vals =
     (if length idxs \<noteq> length vals
      then Inl (InvalidArgument ''sparse_values has incorrect shape'')
      else if \<not> list_all (index_in_bounds out_shape) idxs
      then Inl (InvalidArgument ''indices out of bounds'')
      else if \<not> strictly_increasing idxs
      then Inl (InvalidArgument ''indices out of order or repeated'')
      else Inr (map (\<lambda>p. case map_of (zip (map (flat_index out_shape) idxs) vals) p of
                           None \<Rightarrow> 0 | Some v \<Rightarrow> v)
                    [0 ..< prod_list out_shape]))"

text \<open>
  The index grid of the raw projection: \<^verbatim>\<open>tf.range\<close>, \<^verbatim>\<open>tf.tile\<close> and
  \<^verbatim>\<open>tf.reshape(., [-1, 1])\<close> give the row number of every cell and the column number of
  every cell, in row-major order; \<^verbatim>\<open>tf.concat(., axis=1)\<close> pairs them.
\<close>

definition tiled_rows :: "nat \<Rightarrow> nat \<Rightarrow> nat list" where
  "tiled_rows n d = concat (map (replicate d) [0 ..< n])"

definition tiled_cols :: "nat \<Rightarrow> nat \<Rightarrow> nat list" where
  "tiled_cols n d = concat (replicate n [0 ..< d])"

definition concat_axis1 :: "nat list list \<Rightarrow> nat list list \<Rightarrow> nat list list" where
  "concat_axis1 xs ys = map (\<lambda>(x, y). x @ y) (zip xs ys)"

text \<open>\<^verbatim>\<open>tf.boolean_mask\<close> on flattened operands.\<close>

definition boolean_mask :: "'a list \<Rightarrow> bool list \<Rightarrow> 'a list" where
  "boolean_mask xs ms = map fst (filter snd (zip xs ms))"

text \<open>\<^verbatim>\<open>tf.reduce_max\<close> of int64 values: the least int64 on an empty tensor.\<close>

definition reduce_max :: "int list \<Rightarrow> int" where
  "reduce_max xs = foldr max xs (- (2 ^ 63))"

section \<open>Input.\_preprocess\<close>

text \<open>
  The fields of the \<^verbatim>\<open>Input\<close> object and of its data config that preprocessing reads.
  \<open>label_dim\<close> is the list after the constructor has padded it with ones to the length
  of \<open>label_fields\<close>; \<open>SAMPLE_WEIGHT\<close> is the key \<^verbatim>\<open>constant.SAMPLE_WEIGHT\<close>,
  defined outside the source files. The batch \<open>field_dict\<close> maps field names to input
  tensors; the sampler is absent (\<^verbatim>\<open>self._sampler is None\<close>).
\<close>

record input_self =
  feature_configs :: "feature_config list"
  label_fields :: "string list"
  label_sep :: "string list"
  label_dim :: "int list"
  sample_weight :: "string option"
  mode_predict :: bool
  SAMPLE_WEIGHT :: string

definition sample_weight_val :: "input_self \<Rightarrow> string" where
  "sample_weight_val self = (case sample_weight self of None \<Rightarrow> [] | Some n \<Rightarrow> n)"

definition kv_separator_val :: "feature_config \<Rightarrow> string" where
  "kv_separator_val fc = (case kv_separator fc of None \<Rightarrow> [] | Some s \<Rightarrow> s)"

text \<open>
  The state of one call: the local \<^verbatim>\<open>parsed_dict\<close> and the object's
  \<^verbatim>\<open>_appended_fields\<close>.
\<close>

record pstate =
  parsed_dict :: "(string \<times> tensor) list"
  appended_fields :: "string list"

definition set_parsed :: "string \<Rightarrow> tensor \<Rightarrow> pstate \<Rightarrow> pstate" where
  "set_parsed k t st = st\<lparr>parsed_dict := AList.update k t (parsed_dict st)\<rparr>"

definition append_field :: "string \<Rightarrow> pstate \<Rightarrow> pstate" where
  "append_field k st = st\<lparr>appended_fields := appended_fields st @ [k]\<rparr>"

subsection \<open>Tag features (lines 294-349)\<close>

text \<open>
  Lines 300-303: \<^verbatim>\<open>tf.expand_dims(field, axis=0)\<close> when the static rank is zero,
  \<^verbatim>\<open>tf.squeeze(field, axis=-1)\<close> when it is two; squeezing fails on a last dimension
  that is not one.
\<close>

definition tag_vector :: "input_tensor \<Rightarrow> error + dense" where
  "tag_vector field =
     (if length (get_shape field) = 0
      then Inr (DenseT (1 # shape (fed field)) (elems (fed field)))
      else if length (get_shape field) = 2
      then (if shape (fed field) \<noteq> [] \<and> last (shape (fed field)) = 1
            then Inr (DenseT (butlast (shape (fed field))) (elems (fed field)))
            else Inl (InvalidArgument ''Can not squeeze dim''))
      else Inr (fed field))"

text \<open>
  Lines 306-313: all tokens are split on the kv separator (empty parts kept), the parts
  of the whole batch are reshaped to rows of two, and the second column is parsed.
\<close>

definition kv_split :: "tf_env \<Rightarrow> string \<Rightarrow> string list \<Rightarrow> error + (string list \<times> real list)" where
  "kv_split env kv_sep toks =
     rbind (reshape_pairs (concat (map (split_tokens kv_sep False) toks))) (\<lambda>kvs.
     rbind (string_to_number env FLOAT (map snd kvs)) (\<lambda>vs.
       Inr (map fst kvs, vs)))"

definition tag_weights ::
  "tf_env \<Rightarrow> feature_config \<Rightarrow> (string \<times> input_tensor) list \<Rightarrow> nat \<Rightarrow> pstate
     \<Rightarrow> error + pstate" where
  "tag_weights env fc field_dict n_tags st =
     (if length (input_names fc) > 1
      then
        (let input_1 = input_names fc ! 1 in
         rbind (field_lookup field_dict input_1) (\<lambda>field1.
         rbind (string_split
                  (if length (get_shape field1) = 0
                   then DenseT (1 # shape (fed field1)) (elems (fed field1)) else fed field1)
                  (separator fc) True) (\<lambda>(idx1, toks1, shp1).
         rbind (string_to_number env FLOAT toks1) (\<lambda>field_vals.
           if length field_vals \<noteq> n_tags
           then Inl (InvalidArgument ''tag_feature_kv_size_not_eq'')
           else Inr (set_parsed input_1 (Sparse idx1 (NumData FLOAT field_vals) shp1) st)))))
      else Inr st)"

text \<open>
  Line 299 tests the static shape: a field of static rank two or more is split only when
  its last static dimension is known to be one.
\<close>

definition preprocess_tag ::
  "tf_env \<Rightarrow> feature_config \<Rightarrow> (string \<times> input_tensor) list \<Rightarrow> pstate \<Rightarrow> error + pstate"
  where
  "preprocess_tag env fc field_dict st =
     rbind (input_names_0 fc) (\<lambda>input_0.
     rbind (field_lookup field_dict input_0) (\<lambda>field.
       if length (get_shape field) < 2 \<or> last (get_shape field) = Some 1
       then
         rbind (tag_vector field) (\<lambda>vec.
         rbind (string_split vec (separator fc) True) (\<lambda>(idx, toks, shp).
         rbind (case kv_separator fc of
                  None \<Rightarrow> Inr (toks, st)
                | Some kv_sep \<Rightarrow>
                    rbind (kv_split env kv_sep toks) (\<lambda>(tmp_ks, tmp_vs).
                      Inr (tmp_ks,
                           append_field (input_0 @ ''_WEIGHT'')
                             (set_parsed (input_0 @ ''_WEIGHT'')
                                (Sparse idx (NumData FLOAT tmp_vs) shp) st)))) (\<lambda>(ks, st1).
         rbind (if hash_bucket_size fc = None
                then string_to_number_data env INT32 (StrData ks)
                else Inr (StrData ks)) (\<lambda>key_data.
           tag_weights env fc field_dict (data_length key_data)
             (set_parsed input_0 (Sparse idx key_data shp) st1)))))
       else
         (let st1 = set_parsed input_0 (Dense (fed field)) st in
          if length (input_names fc) > 1
          then rbind (field_lookup field_dict (input_names fc ! 1)) (\<lambda>field1.
                 Inr (set_parsed (input_names fc ! 1) (Dense (fed field1)) st1))
          else Inr st1)))"

subsection \<open>Lookup features (\_lookup\_preprocess, lines 601-663)\<close>

text \<open>
  The inner \<^verbatim>\<open>_lookup\<close> up to \<^verbatim>\<open>sel_vals\<close>: the map strings are split into tokens,
  the tokens into parts (empty parts dropped), the parts of all tokens are reshaped to
  rows of two, and the second parts of the rows whose first part is the key are gathered.
\<close>

definition lookup_select :: "feature_config \<Rightarrow> string \<Rightarrow> string list \<Rightarrow> error + string list" where
  "lookup_select fc one_key one_map =
     (let kv_map = concat (map (split_tokens (separator fc) True) one_map) in
      rbind (reshape_pairs (concat (map (split_tokens (kv_separator_val fc) True) kv_map)))
        (\<lambda>kvs.
          gather (map snd kvs) (filter (\<lambda>i. fst (kvs ! i) = one_key) [0 ..< length kvs])))"

text \<open>
  The padded variant: \<^verbatim>\<open>tf.pad\<close> refuses a negative padding; the mask marks the first
  \<open>n\<close> of \<open>max_sel_num\<close> positions.
\<close>

definition lookup_padded ::
  "feature_config \<Rightarrow> string \<Rightarrow> string list \<Rightarrow> error + (string list \<times> bool list \<times> nat list)" where
  "lookup_padded fc one_key one_map =
     rbind (lookup_select fc one_key one_map) (\<lambda>sel_vals.
       (let n = length sel_vals; max_sel_num = lookup_max_sel_elem_num fc in
        if max_sel_num - int n < 0
        then Inl (InvalidArgument ''Paddings must be non-negative'')
        else Inr (sel_vals @ replicate (nat max_sel_num - n) [],
                  map (\<lambda>i. i < n) [0 ..< nat max_sel_num],
                  map (\<lambda>i. i * (if i < n then 1 else 0)) [0 ..< nat max_sel_num])))"

text \<open>\<^verbatim>\<open>tf.map_fn\<close> over the pairs of a key and a map string.\<close>

fun lookup_rows ::
  "feature_config \<Rightarrow> string list \<Rightarrow> string list
     \<Rightarrow> error + (string list \<times> bool list \<times> nat list) list" where
  "lookup_rows fc [] [] = Inr []"
| "lookup_rows fc (k # ks) (m # ms) =
     (case lookup_padded fc k [m] of
        Inl e \<Rightarrow> Inl e
      | Inr r \<Rightarrow> (case lookup_rows fc ks ms of Inl e \<Rightarrow> Inl e | Inr rs \<Rightarrow> Inr (r # rs)))"
| "lookup_rows fc _ _ = Inl (InvalidArgument ''map_fn elements differ in their first dimension'')"

definition lookup_batch :: "feature_config \<Rightarrow> string list \<Rightarrow> string list \<Rightarrow> error + tensor" where
  "lookup_batch fc key_strs map_strs =
     rbind (lookup_rows fc key_strs map_strs) (\<lambda>rows.
       (let max_sel_num = nat (lookup_max_sel_elem_num fc);
            vals = concat (map (\<lambda>(v, m, i). boolean_mask v m) rows);
            indices_1 = concat (map (\<lambda>(v, m, i). boolean_mask i m) rows);
            indices_0 = concat (map (\<lambda>(r, (v, m, i)). boolean_mask (replicate max_sel_num r) m)
                                    (zip [0 ..< length rows] rows))
        in Inr (Sparse (map (\<lambda>(a, b). [a, b]) (zip indices_0 indices_1)) (StrData vals)
                  [int (length rows), reduce_max (map int indices_1) + 1])))"

text \<open>
  Keys and maps are string tensors; a scalar key takes the unpadded path, a vector of
  keys the batched one over a vector of maps. Other ranks are outside the model and are
  reported as errors.
\<close>

definition lookup_preprocess ::
  "feature_config \<Rightarrow> (string \<times> dense) list \<Rightarrow> error + tensor" where
  "lookup_preprocess fc field_dict =
     (if length (input_names fc) < 2 then Inl IndexError
      else
        rbind (field_lookup field_dict (input_names fc ! 0)) (\<lambda>key_fields.
        rbind (field_lookup field_dict (input_names fc ! 1)) (\<lambda>map_fields.
          (case (elems key_fields, elems map_fields) of
             (StrData key_strs, StrData map_strs) \<Rightarrow>
               if length (shape key_fields) = 0
               then
                 (if length (shape map_fields) \<le> 1 \<and> key_strs \<noteq> []
                  then rbind (lookup_select fc (hd key_strs) map_strs) (\<lambda>vals.
                         Inr (Sparse (map (\<lambda>j. [0, j]) [0 ..< length vals]) (StrData vals)
                                [1, int (length vals)]))
                  else Inl (InvalidArgument ''input must be a vector''))
               else if length (shape key_fields) = 1 \<and> length (shape map_fields) = 1
               then lookup_batch fc key_strs map_strs
               else Inl (InvalidArgument ''unsupported rank'')
           | _ \<Rightarrow> Inl (TypeError ''lookup expects strings'')))))"

definition preprocess_lookup ::
  "feature_config \<Rightarrow> (string \<times> dense) list \<Rightarrow> pstate \<Rightarrow> error + pstate" where
  "preprocess_lookup fc field_dict st =
     (if feature_name_val fc = [] then Inl (AssertionError [])
      else if length (input_names fc) \<noteq> 2 then Inl (AssertionError [])
      else rbind (lookup_preprocess fc field_dict) (\<lambda>t.
             Inr (set_parsed (feature_name_val fc) t st)))"

subsection \<open>Sequence features (lines 354-472)\<close>

text \<open>
  Lines 363-374: the second-level split. Every token of the first split is split again
  with \<^verbatim>\<open>tf.string_split\<close>; the index row of the parent token is gathered for every
  inner token and extended by the inner position.
\<close>

definition multi_split ::
  "nat list list \<Rightarrow> string list \<Rightarrow> int list \<Rightarrow> string
     \<Rightarrow> error + (nat list list \<times> string list \<times> int list)" where
  "multi_split idx toks shp multi_sep =
     (case sparse_of_rows (map (split_tokens multi_sep True) toks) of
        (indices_1, multi_vals, multi_shape) \<Rightarrow>
          rbind (gather idx (map hd indices_1)) (\<lambda>gathered.
            Inr (concat_axis1 gathered (map tl indices_1), multi_vals, shp @ tl multi_shape)))"

text \<open>
  \<^verbatim>\<open>(values - fc.min_val) / (fc.max_val - fc.min_val)\<close> on a float32 tensor: the
  difference of the two config values is a Python float, both constants become float32,
  and the subtraction and the division are float32 operations.
\<close>

definition normalize_vals :: "tf_env \<Rightarrow> feature_config \<Rightarrow> real list \<Rightarrow> real list" where
  "normalize_vals env fc xs =
     map (\<lambda>x. round32 env
                (round32 env (x - round32 env (min_val fc)) /
                 round32 env (round64 env (max_val fc - min_val fc)))) xs"

text \<open>Lines 361-396: the branch for a field of rank below two.\<close>

definition sequence_split :: "tf_env \<Rightarrow> feature_config \<Rightarrow> dense \<Rightarrow> error + tensor" where
  "sequence_split env fc field =
     rbind (strings_split field (separator fc)) (\<lambda>(idx0, toks0, shp0).
     rbind (case seq_multi_sep fc of
              None \<Rightarrow> Inr (idx0, toks0, shp0)
            | Some multi_sep \<Rightarrow> multi_split idx0 toks0 shp0 multi_sep) (\<lambda>(idx, toks, shp).
     rbind (if num_buckets fc > 1 \<and> max_val fc = min_val fc
            then string_to_number_data env INT64 (StrData toks)
            else if sub_feature_type fc = RawFeature
            then string_to_number_data env FLOAT (StrData toks)
            else Inr (StrData toks)) (\<lambda>vals.
       if num_buckets fc > 1 \<and> max_val fc > min_val fc
       then (case vals of
               NumData ty xs \<Rightarrow> Inr (Sparse idx (NumData ty (normalize_vals env fc xs)) shp)
             | _ \<Rightarrow> Inl (TypeError ''unsupported operand types''))
       else Inr (Sparse idx vals shp))))"

text \<open>
  The index grids of the three-dimensional projection: sample, step and feature-dimension
  number of every cell in row-major order.
\<close>

definition tiled3_0 :: "nat \<Rightarrow> nat \<Rightarrow> nat \<Rightarrow> nat list" where
  "tiled3_0 n l d = concat (map (replicate (l * d)) [0 ..< n])"

definition tiled3_1 :: "nat \<Rightarrow> nat \<Rightarrow> nat \<Rightarrow> nat list" where
  "tiled3_1 n l d = concat (replicate n (concat (map (replicate d) [0 ..< l])))"

definition tiled3_2 :: "nat \<Rightarrow> nat \<Rightarrow> nat \<Rightarrow> nat list" where
  "tiled3_2 n l d = concat (replicate (n * l) [0 ..< d])"

text \<open>
  \<^verbatim>\<open>tf.sparse_to_dense\<close> applied to the tensor stored under the input name, over the
  number of rows of its dense shape and the given trailing dimensions. A dense tensor has
  no \<^verbatim>\<open>indices\<close>.
\<close>

definition parsed_to_dense ::
  "string \<Rightarrow> int list \<Rightarrow> pstate \<Rightarrow> error + (numtype \<times> nat list \<times> real list)" where
  "parsed_to_dense input_0 trailing st =
     rbind (field_lookup (parsed_dict st) input_0) (\<lambda>parsed.
       (case parsed of
          Dense _ \<Rightarrow> Inl (AttributeError ''indices'')
        | Sparse idx vals shp \<Rightarrow>
            (case vals of
               NumData ty xs \<Rightarrow>
                 if shp = [] \<or> \<not> list_all (\<lambda>d. 0 \<le> d) (hd shp # trailing)
                 then Inl (InvalidArgument ''invalid output shape'')
                 else rbind (sparse_to_dense idx (nat (hd shp) # map nat trailing) xs)
                        (\<lambda>flat. Inr (ty, nat (hd shp) # map nat trailing, flat))
             | _ \<Rightarrow> Inl (TypeError ''sparse_to_dense default value''))))"

text \<open>Lines 408-431: the two-dimensional projection of a raw sequence.\<close>

definition sequence_raw_proj_2d :: "feature_config \<Rightarrow> string \<Rightarrow> pstate \<Rightarrow> error + pstate" where
  "sequence_raw_proj_2d fc input_0 st =
     rbind (parsed_to_dense input_0 [sequence_length fc] st) (\<lambda>(ty, out_shape, flat).
       (let sample_num = hd out_shape;
            l = nat (sequence_length fc);
            indices_0 = map (\<lambda>i. [i]) (tiled_rows sample_num l);
            indices_1 = map (\<lambda>i. [i]) (tiled_cols sample_num l);
            grid = concat_axis1 indices_0 indices_1
        in Inr (append_field (input_0 @ ''_raw_proj_val'')
                 (append_field (input_0 @ ''_raw_proj_id'')
                   (set_parsed (input_0 @ ''_raw_proj_val'')
                      (Sparse grid (NumData ty flat) [int sample_num, int l])
                   (set_parsed (input_0 @ ''_raw_proj_id'')
                      (Sparse grid (NumData INT64 (map (\<lambda>r. real (hd r)) indices_1))
                         [int sample_num, int l])
                   (set_parsed input_0 (Dense (DenseT out_shape (NumData ty flat))) st)))))))"

text \<open>Lines 442-472: the three-dimensional projection.\<close>

definition sequence_raw_proj_3d :: "feature_config \<Rightarrow> string \<Rightarrow> pstate \<Rightarrow> error + pstate" where
  "sequence_raw_proj_3d fc input_0 st =
     rbind (parsed_to_dense input_0 [sequence_length fc, raw_input_dim fc] st)
       (\<lambda>(ty, out_shape, flat).
         (let sample_num = hd out_shape;
              l = nat (sequence_length fc);
              d = nat (raw_input_dim fc);
              indices_0 = map (\<lambda>i. [i]) (tiled3_0 sample_num l d);
              indices_1 = map (\<lambda>i. [i]) (tiled3_1 sample_num l d);
              indices_2 = map (\<lambda>i. [i]) (tiled3_2 sample_num l d);
              grid = concat_axis1 (concat_axis1 indices_0 indices_1) indices_2
          in Inr (append_field (input_0 @ ''_raw_proj_val'')
                   (append_field (input_0 @ ''_raw_proj_id'')
                     (set_parsed (input_0 @ ''_raw_proj_val'')
                        (Sparse grid (NumData ty flat) [int sample_num, int l, int d])
                     (set_parsed (input_0 @ ''_raw_proj_id'')
                        (Sparse grid (NumData INT64 (map (\<lambda>r. real (hd r)) indices_1))
                           [int sample_num, int l, int d])
                     (set_parsed input_0 (Dense (DenseT out_shape (NumData ty flat))) st)))))))"

definition preprocess_sequence ::
  "tf_env \<Rightarrow> input_self \<Rightarrow> feature_config \<Rightarrow> (string \<times> dense) list \<Rightarrow> pstate
     \<Rightarrow> error + pstate" where
  "preprocess_sequence env self fc field_dict st =
     rbind (input_names_0 fc) (\<lambda>input_0.
     rbind (field_lookup field_dict input_0) (\<lambda>field.
     rbind (if length (shape field) < 2 then sequence_split env fc field
            else Inr (Dense field)) (\<lambda>parsed.
       (let st1 = set_parsed input_0 parsed st in
        if boundaries fc = [] \<and> num_buckets fc \<le> 1 \<and> hash_bucket_size_val fc \<le> 0 \<and>
           sample_weight_val self \<noteq> input_0 \<and> sub_feature_type fc = RawFeature \<and>
           raw_input_dim fc = 1
        then sequence_raw_proj_2d fc input_0 st1
        else if boundaries fc = [] \<and> num_buckets fc \<le> 1 \<and> hash_bucket_size_val fc \<le> 0 \<and>
           sample_weight_val self \<noteq> input_0 \<and> sub_feature_type fc = RawFeature \<and>
           raw_input_dim fc > 1
        then sequence_raw_proj_3d fc input_0 st1
        else Inr st1))))"

subsection \<open>Raw features (lines 473-525)\<close>

text \<open>Lines 475-499: the dense value stored under the input name.\<close>

definition raw_parse :: "tf_env \<Rightarrow> feature_config \<Rightarrow> dense \<Rightarrow> error + dense" where
  "raw_parse env fc field =
     (case elems field of
        StrData ss \<Rightarrow>
          if raw_input_dim fc > 1
          then
            rbind (string_split field (separator fc) True) (\<lambda>(idx, toks, shp).
            rbind (string_to_number env FLOAT toks) (\<lambda>tmp_vals.
            rbind (sparse_to_dense idx [hd (shape field), nat (raw_input_dim fc)] tmp_vals)
              (\<lambda>flat.
                Inr (DenseT [hd (shape field), nat (raw_input_dim fc)] (NumData FLOAT flat)))))
          else rbind (string_to_number env FLOAT ss) (\<lambda>xs.
                 Inr (DenseT (shape field) (NumData FLOAT xs)))
      | NumData ty xs \<Rightarrow> Inr (DenseT (shape field) (NumData FLOAT (to_float env ty xs)))
      | BoolData bs \<Rightarrow> Inl (AssertionError ''invalid dtype for raw feature''))"

definition raw_dense :: "tf_env \<Rightarrow> feature_config \<Rightarrow> dense \<Rightarrow> error + dense" where
  "raw_dense env fc field =
     rbind (raw_parse env fc field) (\<lambda>parsed.
       if max_val fc > min_val fc
       then (case elems parsed of
               NumData ty xs \<Rightarrow>
                 Inr (DenseT (shape parsed) (NumData ty (normalize_vals env fc xs)))
             | _ \<Rightarrow> Inl (TypeError ''unsupported operand types''))
       else Inr parsed)"

text \<open>Lines 500-525: the projection onto index/value pairs.\<close>

definition raw_proj :: "feature_config \<Rightarrow> string \<Rightarrow> dense \<Rightarrow> pstate \<Rightarrow> error + pstate" where
  "raw_proj fc input_0 parsed st =
     (if shape parsed = [] then Inl (InvalidArgument ''slice index 0 of dimension 0 out of bounds'')
      else if raw_input_dim fc < 0 then Inl (InvalidArgument ''Expected multiples[1] >= 0'')
      else
        (let sample_num = hd (shape parsed);
             d = nat (raw_input_dim fc);
             indices_0 = map (\<lambda>i. [i]) (tiled_rows sample_num d);
             indices_1 = map (\<lambda>i. [i]) (tiled_cols sample_num d);
             grid = concat_axis1 indices_0 indices_1
         in Inr (append_field (input_0 @ ''_raw_proj_val'')
                  (append_field (input_0 @ ''_raw_proj_id'')
                    (set_parsed (input_0 @ ''_raw_proj_val'')
                       (Sparse grid (elems parsed) [int sample_num, int d])
                    (set_parsed (input_0 @ ''_raw_proj_id'')
                       (Sparse grid (NumData INT64 (map (\<lambda>r. real (hd r)) indices_1))
                          [int sample_num, int d])
                       st))))))"

definition preprocess_raw ::
  "tf_env \<Rightarrow> input_self \<Rightarrow> feature_config \<Rightarrow> (string \<times> dense) list \<Rightarrow> pstate
     \<Rightarrow> error + pstate" where
  "preprocess_raw env self fc field_dict st =
     rbind (input_names_0 fc) (\<lambda>input_0.
     rbind (field_lookup field_dict input_0) (\<lambda>field.
     rbind (raw_dense env fc field) (\<lambda>parsed.
       (let st1 = set_parsed input_0 (Dense parsed) st in
        if boundaries fc = [] \<and> num_buckets fc \<le> 1 \<and> sample_weight_val self \<noteq> input_0
        then raw_proj fc input_0 parsed st1
        else Inr st1))))"

subsection \<open>Id features (lines 526-551)\<close>

definition preprocess_id ::
  "tf_env \<Rightarrow> feature_config \<Rightarrow> (string \<times> dense) list \<Rightarrow> pstate \<Rightarrow> error + pstate" where
  "preprocess_id env fc field_dict st =
     rbind (input_names_0 fc) (\<lambda>input_0.
     rbind (field_lookup field_dict input_0) (\<lambda>field.
       if hash_bucket_size fc \<noteq> None
       then
         (if \<not> is_string (elems field)
          then
            (if is_floating (elems field) \<and> \<not> precision fc > 0
             then Inl (AssertionError ''it is dangerous to convert float or double to string'')
             else
               (let prec = (if is_floating (elems field) \<and> precision fc > 0
                            then Some (precision fc) else None)
                in Inr (set_parsed input_0
                          (Dense (DenseT (shape field) (as_string env prec (elems field)))) st)))
          else Inr (set_parsed input_0 (Dense field) st))
       else if num_buckets fc > 0
       then
         (if is_string (elems field)
          then rbind (string_to_number_data env INT32 (elems field)) (\<lambda>d.
                 Inr (set_parsed input_0 (Dense (DenseT (shape field) d)) st))
          else Inr (set_parsed input_0 (Dense field) st))
       else Inr (set_parsed input_0 (Dense field) st)))"

subsection \<open>Expression features and the remaining types (lines 553-573)\<close>

fun expr_inputs ::
  "tf_env \<Rightarrow> string list \<Rightarrow> (string \<times> dense) list \<Rightarrow> pstate \<Rightarrow> error + pstate" where
  "expr_inputs env [] field_dict st = Inr st"
| "expr_inputs env (input_name # rest) field_dict st =
     rbind (field_lookup field_dict input_name) (\<lambda>field.
     rbind (case elems field of
              StrData ss \<Rightarrow> string_to_number_data env DOUBLE (StrData ss)
            | NumData ty xs \<Rightarrow> Inr (NumData DOUBLE (to_double env ty xs))
            | BoolData bs \<Rightarrow> Inl (AssertionError ''invalid input dtype for expr feature''))
       (\<lambda>d. expr_inputs env rest field_dict
               (set_parsed (''expr_'' @ input_name) (Dense (DenseT (shape field) d)) st)))"

definition preprocess_expr ::
  "tf_env \<Rightarrow> feature_config \<Rightarrow> (string \<times> dense) list \<Rightarrow> pstate \<Rightarrow> error + pstate" where
  "preprocess_expr env fc field_dict st =
     rbind (expr_inputs env (input_names fc) field_dict st) (\<lambda>st1.
     rbind (expr_eval env (expression fc) (input_names fc) (parsed_dict st1)) (\<lambda>t.
       Inr (append_field (feature_name_val fc) (set_parsed (feature_name_val fc) t st1))))"

fun forward_inputs :: "string list \<Rightarrow> (string \<times> dense) list \<Rightarrow> pstate \<Rightarrow> error + pstate" where
  "forward_inputs [] field_dict st = Inr st"
| "forward_inputs (input_name # rest) field_dict st =
     rbind (field_lookup field_dict input_name) (\<lambda>field.
       forward_inputs rest field_dict (set_parsed input_name (Dense field) st))"

subsection \<open>The loop over the feature configs (lines 290-573)\<close>

definition preprocess_feature ::
  "tf_env \<Rightarrow> input_self \<Rightarrow> feature_config \<Rightarrow> (string \<times> input_tensor) list \<Rightarrow> pstate
     \<Rightarrow> error + pstate" where
  "preprocess_feature env self fc field_dict st =
     rbind (input_names_0 fc) (\<lambda>input_0.
       (case feature_type fc of
          TagFeature \<Rightarrow> preprocess_tag env fc field_dict st
        | LookupFeature \<Rightarrow> preprocess_lookup fc (fed_dict field_dict) st
        | SequenceFeature \<Rightarrow> preprocess_sequence env self fc (fed_dict field_dict) st
        | RawFeature \<Rightarrow> preprocess_raw env self fc (fed_dict field_dict) st
        | IdFeature \<Rightarrow> preprocess_id env fc (fed_dict field_dict) st
        | ExprFeature \<Rightarrow> preprocess_expr env fc (fed_dict field_dict) st
        | ComboFeature \<Rightarrow> forward_inputs (input_names fc) (fed_dict field_dict) st))"

fun preprocess_features ::
  "tf_env \<Rightarrow> input_self \<Rightarrow> feature_config list \<Rightarrow> (string \<times> input_tensor) list \<Rightarrow> pstate
     \<Rightarrow> error + pstate" where
  "preprocess_features env self [] field_dict st = Inr st"
| "preprocess_features env self (fc # rest) field_dict st =
     rbind (preprocess_feature env self fc field_dict st)
       (preprocess_features env self rest field_dict)"

subsection \<open>Labels (lines 575-593)\<close>

text \<open>\<^verbatim>\<open>tf.reshape(x, [-1, dim])\<close> of a vector.\<close>

definition reshape_rows :: "nat \<Rightarrow> nat \<Rightarrow> error + nat list" where
  "reshape_rows n k =
     (if k dvd n
      then Inr [n div k, k]
      else Inl (InvalidArgument ''Input to reshape has a number of values not divisible''))"

definition preprocess_label ::
  "tf_env \<Rightarrow> input_self \<Rightarrow> nat \<Rightarrow> string \<Rightarrow> dense \<Rightarrow> error + dense" where
  "preprocess_label env self input_id input_name field =
     (case elems field of
        StrData ss \<Rightarrow>
          rbind (if label_dim self ! input_id > 1
                 then
                   (if input_id < length (label_sep self)
                    then rbind (string_split field (label_sep self ! input_id) True)
                           (\<lambda>(idx, toks, shp).
                             rbind (reshape_rows (length toks) (nat (label_dim self ! input_id)))
                               (\<lambda>shp'. Inr (DenseT shp' (StrData toks))))
                    else Inl IndexError)
                 else Inr field) (\<lambda>parsed.
            rbind (string_to_number_data env FLOAT (elems parsed)) (\<lambda>d.
              Inr (DenseT (shape parsed) d)))
      | NumData ty xs \<Rightarrow> Inr field
      | BoolData bs \<Rightarrow> Inl (AssertionError ''invalid label dtype''))"

fun preprocess_labels ::
  "tf_env \<Rightarrow> input_self \<Rightarrow> (nat \<times> string) list \<Rightarrow> (string \<times> dense) list \<Rightarrow> pstate
     \<Rightarrow> error + pstate" where
  "preprocess_labels env self [] field_dict st = Inr st"
| "preprocess_labels env self ((input_id, input_name) # rest) field_dict st =
     (case map_of field_dict input_name of
        None \<Rightarrow> preprocess_labels env self rest field_dict st
      | Some field \<Rightarrow>
          rbind (preprocess_label env self input_id input_name field) (\<lambda>parsed.
            preprocess_labels env self rest field_dict
              (set_parsed input_name (Dense parsed) st)))"

subsection \<open>The whole method\<close>

definition preprocess ::
  "tf_env \<Rightarrow> input_self \<Rightarrow> string list \<Rightarrow> (string \<times> input_tensor) list \<Rightarrow> error + pstate"
  where
  "preprocess env self appended field_dict =
     rbind (preprocess_features env self (feature_configs self) field_dict
              \<lparr>parsed_dict = [], appended_fields = appended\<rparr>) (\<lambda>st1.
     rbind (preprocess_labels env self
              (zip [0 ..< length (label_fields self)] (label_fields self))
              (fed_dict field_dict) st1)
       (\<lambda>st2.
         if sample_weight self \<noteq> None \<and> \<not> mode_predict self
         then rbind (field_lookup field_dict (sample_weight_val self)) (\<lambda>w.
                Inr (set_parsed (SAMPLE_WEIGHT self) (Dense (fed w)) st2))
         else Inr st2))"

section \<open>Concrete inputs used by the closed theorems\<close>

text \<open>
  A config with every optional field unset, a parser with empty tables, and a number
  syntax that knows a few numerals and rounds 16777217, the first integer that is not a
  float32, to 16777216; the closed theorems below evaluate the model on variations of
  these.
\<close>

definition example_config :: feature_config where
  "example_config =
     \<lparr> feature_name = None, feature_type = IdFeature, input_names = [''f''],
       embedding_name = None, embedding_dim = 0, hash_bucket_size = None, num_buckets = 0,
       boundaries = [], separator = '','', kv_separator = None, seq_multi_sep = None,
       vocab_file = [], vocab_list = [], lookup_max_sel_elem_num = 10, max_partitions = 1,
       combiner = ''mean'', initializer = None, precision = -1, min_val = 0, max_val = 0,
       raw_input_dim = 1, sequence_combiner = None, sub_feature_type = IdFeature,
       sequence_length = 1, expression = [] \<rparr>"

definition example_parser :: parser where
  "example_parser =
     \<lparr> wide_output_dim = 1, wide_deep_dict = [(''g'', DEEP)], deep_columns = [],
       wide_columns = [], sequence_columns = [], share_embed_names = [],
       share_embed_infos = [], deep_share_embed_columns = [], wide_share_embed_columns = [],
       use_embedding_variable = False, vocab_size = [] \<rparr>"

definition example_env :: tf_env where
  "example_env =
     \<lparr> str2num = (\<lambda>ty. map_of [(''1'', 1), (''2'', 2), (''3'', 3), (''4'', 4)]),
       num2str = (\<lambda>ty p x. if x = 1 then ''1.00'' else ''2.00''),
       expr_eval = (\<lambda>e ns d. Inl (InvalidArgument [])),
       round32 = (\<lambda>x. if x = 16777217 then 16777216 else x),
       round64 = (\<lambda>x. x) \<rparr>"

definition example_input :: input_self where
  "example_input =
     \<lparr> feature_configs = [], label_fields = [''y''], label_sep = ['',''], label_dim = [1],
       sample_weight = Some ''w'', mode_predict = False, SAMPLE_WEIGHT = ''SAMPLE_WEIGHT'' \<rparr>"

definition empty_state :: pstate where
  "empty_state = \<lparr> parsed_dict = [], appended_fields = [] \<rparr>"

section \<open>Properties of the feature column registry\<close>

subsection \<open>The shared-embedding tables\<close>

lemma map_of_fold_delete:
  "map_of (fold AList.delete ks al) k = (if k \<in> set ks then None else map_of al k)"
  by (induction ks arbitrary: al) (auto simp: delete_conv)

lemma share_embed_scan_mismatch:
  assumes "\<forall>e. (map_of names e = None) = (map_of infos e = None)"
    and "(\<exists>c\<in>set cs. \<exists>e i. embedding_name c = Some e \<and> map_of infos e = Some i \<and>
            embed_info_of c \<noteq> i) \<or>
         (\<exists>c1\<in>set cs. \<exists>c2\<in>set cs. \<exists>e. embedding_name c1 = Some e \<and>
            embedding_name c2 = Some e \<and> embed_info_of c1 \<noteq> embed_info_of c2)"
  shows "share_embed_scan cs names infos =
           Inl (AssertionError ''shared embed info is not matched'')"
  using assms
proof (induction cs arbitrary: names infos)
  case Nil
  then show ?case by simp
next
  case (Cons c rest)
  show ?case
  proof (cases "embedding_name c")
    case None
    with Cons.prems have "(\<exists>c\<in>set rest. \<exists>e i. embedding_name c = Some e \<and> map_of infos e = Some i \<and>
            embed_info_of c \<noteq> i) \<or>
         (\<exists>c1\<in>set rest. \<exists>c2\<in>set rest. \<exists>e. embedding_name c1 = Some e \<and>
            embedding_name c2 = Some e \<and> embed_info_of c1 \<noteq> embed_info_of c2)"
      by auto
    with Cons.IH [OF Cons.prems(1)] None show ?thesis by simp
  next
    case (Some e)
    note nameS = this
    show ?thesis
    proof (cases "map_of names e")
      case None
      then have inone: "map_of infos e = None" using Cons.prems(1) by simp
      let ?infos = "AList.update e (embed_info_of c) infos"
      let ?names = "AList.update e 1 names"
      have dom: "\<forall>e'. (map_of ?names e' = None) = (map_of ?infos e' = None)"
        using Cons.prems(1) by (simp add: update_conv)
      have bad: "(\<exists>c\<in>set rest. \<exists>e i. embedding_name c = Some e \<and> map_of ?infos e = Some i \<and>
            embed_info_of c \<noteq> i) \<or>
         (\<exists>c1\<in>set rest. \<exists>c2\<in>set rest. \<exists>e. embedding_name c1 = Some e \<and>
            embedding_name c2 = Some e \<and> embed_info_of c1 \<noteq> embed_info_of c2)"
      proof -
        from Cons.prems(2) consider
          (A) c' e' i where "c' \<in> set (c # rest)" "embedding_name c' = Some e'"
            "map_of infos e' = Some i" "embed_info_of c' \<noteq> i"
        | (B) c1 c2 e' where "c1 \<in> set (c # rest)" "c2 \<in> set (c # rest)"
            "embedding_name c1 = Some e'" "embedding_name c2 = Some e'"
            "embed_info_of c1 \<noteq> embed_info_of c2"
          by blast
        then show ?thesis
        proof cases
          case A
          have ne: "e' \<noteq> e" using A(3) inone by auto
          then have "c' \<noteq> c" using A(2) nameS by auto
          then have "c' \<in> set rest" using A(1) by simp
          moreover have "map_of ?infos e' = Some i" using ne A(3) by (simp add: update_conv)
          ultimately show ?thesis using A(2,4) by blast
        next
          case B
          have upd: "map_of ?infos e = Some (embed_info_of c)" by (simp add: update_conv)
          show ?thesis
          proof (cases "c1 = c")
            case True
            then have ee: "e' = e" using B(3) nameS by simp
            have "c2 \<noteq> c" using B(5) True by auto
            then have "c2 \<in> set rest" using B(2) by simp
            moreover have "embed_info_of c2 \<noteq> embed_info_of c" using B(5) True by auto
            ultimately show ?thesis using B(4) ee upd by blast
          next
            case False
            then have c1r: "c1 \<in> set rest" using B(1) by simp
            show ?thesis
            proof (cases "c2 = c")
              case True
              then have ee: "e' = e" using B(4) nameS by simp
              have "embed_info_of c1 \<noteq> embed_info_of c" using B(5) True by auto
              then show ?thesis using c1r B(3) ee upd by blast
            next
              case False
              then have "c2 \<in> set rest" using B(2) by simp
              then show ?thesis using c1r B(3,4,5) by blast
            qed
          qed
        qed
      qed
      show ?thesis using Cons.IH [OF dom bad] Some None by simp
    next
      case (Some cnt)
      note cntS = this
      then obtain i where isome: "map_of infos e = Some i"
        using Cons.prems(1) by (metis option.exhaust option.distinct(1))
      show ?thesis
      proof (cases "embed_info_of c = i")
        case False
        then show ?thesis using \<open>embedding_name c = Some e\<close> cntS isome by simp
      next
        case True
        let ?names = "AList.update e (cnt + 1) names"
        have dom: "\<forall>e'. (map_of ?names e' = None) = (map_of infos e' = None)"
          using Cons.prems(1) isome by (simp add: update_conv)
        have bad: "(\<exists>c\<in>set rest. \<exists>e i. embedding_name c = Some e \<and> map_of infos e = Some i \<and>
            embed_info_of c \<noteq> i) \<or>
         (\<exists>c1\<in>set rest. \<exists>c2\<in>set rest. \<exists>e. embedding_name c1 = Some e \<and>
            embedding_name c2 = Some e \<and> embed_info_of c1 \<noteq> embed_info_of c2)"
        proof -
          from Cons.prems(2) consider
            (A) c' e' i' where "c' \<in> set (c # rest)" "embedding_name c' = Some e'"
              "map_of infos e' = Some i'" "embed_info_of c' \<noteq> i'"
          | (B) c1 c2 e' where "c1 \<in> set (c # rest)" "c2 \<in> set (c # rest)"
              "embedding_name c1 = Some e'" "embedding_name c2 = Some e'"
              "embed_info_of c1 \<noteq> embed_info_of c2"
            by blast
          then show ?thesis
          proof cases
            case A
            have "c' \<noteq> c" using A(2,3,4) nameS isome True by auto
            then have "c' \<in> set rest" using A(1) by simp
            then show ?thesis using A(2,3,4) by blast
          next
            case B
            show ?thesis
            proof (cases "c1 = c")
              case c1: True
              then have ee: "e' = e" using B(3) nameS by simp
              have "c2 \<noteq> c" using B(5) c1 by auto
              then have "c2 \<in> set rest" using B(2) by simp
              moreover have "embed_info_of c2 \<noteq> i" using B(5) c1 True by auto
              ultimately show ?thesis using B(4) ee isome by blast
            next
              case c1: False
              then have c1r: "c1 \<in> set rest" using B(1) by simp
              show ?thesis
              proof (cases "c2 = c")
                case c2: True
                then have ee: "e' = e" using B(4) nameS by simp
                have "embed_info_of c1 \<noteq> i" using B(5) c2 True by auto
                then show ?thesis using c1r B(3) ee isome by blast
              next
                case False
                then have "c2 \<in> set rest" using B(2) by simp
                then show ?thesis using c1r B(3,4,5) by blast
              qed
            qed
          qed
        qed
        show ?thesis using Cons.IH [OF dom bad] \<open>embedding_name c = Some e\<close> cntS isome True
          by simp
      qed
    qed
  qed
qed


lemma share_embed_scan_distinct:
  "share_embed_scan cs names infos = Inr (names', infos') \<Longrightarrow> distinct (map fst names) \<Longrightarrow>
     distinct (map fst names')"
  by (induction cs names infos rule: share_embed_scan.induct)
     (auto split: option.splits if_splits simp: distinct_update)

lemma share_embed_scan_infos_keep:
  "share_embed_scan cs names infos = Inr (names', infos') \<Longrightarrow> map_of infos e = Some i \<Longrightarrow>
     \<forall>e. (map_of names e = None) = (map_of infos e = None) \<Longrightarrow>
     map_of infos' e = Some i"
proof (induction cs arbitrary: names infos)
  case Nil
  then show ?case by simp
next
  case (Cons config rest)
  show ?case
  proof (cases "embedding_name config")
    case None
    then show ?thesis using Cons by simp
  next
    case (Some en)
    note nameS = this
    show ?thesis
    proof (cases "map_of names en")
      case None
      then have "map_of infos en = None" using Cons.prems(3) by simp
      then have ne: "en \<noteq> e" using Cons.prems(2) by auto
      have r: "share_embed_scan rest (AList.update en 1 names)
                 (AList.update en (embed_info_of config) infos) = Inr (names', infos')"
        using Cons.prems(1) nameS None by simp
      have k: "map_of (AList.update en (embed_info_of config) infos) e = Some i"
        using ne Cons.prems(2) by (simp add: update_conv)
      have d: "\<forall>e. (map_of (AList.update en 1 names) e = None) =
                         (map_of (AList.update en (embed_info_of config) infos) e = None)"
        using Cons.prems(3) by (simp add: update_conv)
      show ?thesis using Cons.IH [OF r k d] .
    next
      case (Some cnt)
      note cntS = this
      then obtain i0 where i0: "map_of infos en = Some i0"
        using Cons.prems(3) by (metis option.exhaust option.distinct(1))
      have eq: "embed_info_of config = i0"
        using Cons.prems(1) nameS cntS i0 by (simp split: if_splits)
      have r: "share_embed_scan rest (AList.update en (cnt + 1) names) infos = Inr (names', infos')"
        using Cons.prems(1) nameS cntS i0 eq by simp
      have d: "\<forall>e. (map_of (AList.update en (cnt + 1) names) e = None) = (map_of infos e = None)"
        using Cons.prems(3) i0 by (simp add: update_conv)
      show ?thesis using Cons.IH [OF r Cons.prems(2) d] .
    qed
  qed
qed

lemma share_embed_scan_infos_member:
  "share_embed_scan cs names infos = Inr (names', infos') \<Longrightarrow>
     \<forall>e. (map_of names e = None) = (map_of infos e = None) \<Longrightarrow>
     c \<in> set cs \<Longrightarrow> embedding_name c = Some e \<Longrightarrow>
     map_of infos' e = Some (embed_info_of c)"
proof (induction cs arbitrary: names infos)
  case Nil
  then show ?case by simp
next
  case (Cons config rest)
  show ?case
  proof (cases "embedding_name config")
    case None
    then have "c \<in> set rest" using Cons.prems(3,4) by auto
    moreover have "share_embed_scan rest names infos = Inr (names', infos')"
      using Cons.prems(1) None by simp
    ultimately show ?thesis using Cons.IH Cons.prems(2,4) by blast
  next
    case (Some en)
    note nameS = this
    show ?thesis
    proof (cases "map_of names en")
      case None
      have r: "share_embed_scan rest (AList.update en 1 names)
                 (AList.update en (embed_info_of config) infos) = Inr (names', infos')"
        using Cons.prems(1) nameS None by simp
      have d: "\<forall>e. (map_of (AList.update en 1 names) e = None) =
                         (map_of (AList.update en (embed_info_of config) infos) e = None)"
        using Cons.prems(2) by (simp add: update_conv)
      show ?thesis
      proof (cases "c = config")
        case True
        have "map_of (AList.update en (embed_info_of config) infos) en = Some (embed_info_of config)"
          by (simp add: update_conv)
        from share_embed_scan_infos_keep [OF r this d] True nameS Cons.prems(4)
        show ?thesis by simp
      next
        case False
        then have "c \<in> set rest" using Cons.prems(3) by simp
        then show ?thesis using Cons.IH [OF r d] Cons.prems(4) by blast
      qed
    next
      case (Some cnt)
      note cntS = this
      then obtain i0 where i0: "map_of infos en = Some i0"
        using Cons.prems(2) by (metis option.exhaust option.distinct(1))
      have eq: "embed_info_of config = i0"
        using Cons.prems(1) nameS cntS i0 by (simp split: if_splits)
      have r: "share_embed_scan rest (AList.update en (cnt + 1) names) infos = Inr (names', infos')"
        using Cons.prems(1) nameS cntS i0 eq by simp
      have d: "\<forall>e. (map_of (AList.update en (cnt + 1) names) e = None) = (map_of infos e = None)"
        using Cons.prems(2) i0 by (simp add: update_conv)
      show ?thesis
      proof (cases "c = config")
        case True
        from share_embed_scan_infos_keep [OF r i0 d] True nameS Cons.prems(4) eq
        show ?thesis by simp
      next
        case False
        then have "c \<in> set rest" using Cons.prems(3) by simp
        then show ?thesis using Cons.IH [OF r d] Cons.prems(4) by blast
      qed
    qed
  qed
qed

lemma share_embed_scan_names:
  "share_embed_scan cs names infos = Inr (names', infos') \<Longrightarrow>
     map_of names' e =
       (case map_of names e of
          None \<Rightarrow> (if filter (\<lambda>c. embedding_name c = Some e) cs = [] then None
                   else Some (length (filter (\<lambda>c. embedding_name c = Some e) cs)))
        | Some n \<Rightarrow> Some (n + length (filter (\<lambda>c. embedding_name c = Some e) cs)))"
proof (induction cs arbitrary: names infos)
  case Nil
  then show ?case by (simp split: option.splits)
next
  case (Cons config rest)
  show ?case
  proof (cases "embedding_name config")
    case None
    then have r: "share_embed_scan rest names infos = Inr (names', infos')"
      using Cons.prems by simp
    show ?thesis using Cons.IH [OF r] None by (simp split: option.splits)
  next
    case (Some en)
    note nameS = this
    show ?thesis
    proof (cases "map_of names en")
      case None
      have r: "share_embed_scan rest (AList.update en 1 names)
                 (AList.update en (embed_info_of config) infos) = Inr (names', infos')"
        using Cons.prems(1) nameS None by simp
      show ?thesis using Cons.IH [OF r] nameS None
        by (cases "e = en") (simp_all add: update_conv split: option.splits)
    next
      case (Some cnt)
      note cntS = this
      have r: "share_embed_scan rest (AList.update en (cnt + 1) names) infos = Inr (names', infos')"
        using Cons.prems(1) nameS cntS by (simp split: option.splits if_splits)
      show ?thesis using Cons.IH [OF r] nameS cntS
        by (cases "e = en") (simp_all add: update_conv split: option.splits)
    qed
  qed
qed


lemma share_embed_scan_succeeds:
  assumes "\<forall>e. (map_of names e = None) = (map_of infos e = None)"
    and "\<forall>c\<in>set cs. \<forall>e i. embedding_name c = Some e \<longrightarrow> map_of infos e = Some i \<longrightarrow>
            embed_info_of c = i"
    and "\<forall>c1\<in>set cs. \<forall>c2\<in>set cs. \<forall>e. embedding_name c1 = Some e \<longrightarrow>
            embedding_name c2 = Some e \<longrightarrow> embed_info_of c1 = embed_info_of c2"
  shows "\<exists>r. share_embed_scan cs names infos = Inr r"
  using assms
proof (induction cs arbitrary: names infos)
  case Nil
  show ?case by simp
next
  case (Cons c rest)
  have g2: "\<forall>c1\<in>set rest. \<forall>c2\<in>set rest. \<forall>e. embedding_name c1 = Some e \<longrightarrow>
            embedding_name c2 = Some e \<longrightarrow> embed_info_of c1 = embed_info_of c2"
  proof (intro ballI allI impI)
    fix c1 c2 e
    assume a: "c1 \<in> set rest" "c2 \<in> set rest" "embedding_name c1 = Some e"
      "embedding_name c2 = Some e"
    from a(1,2) have "c1 \<in> set (c # rest)" "c2 \<in> set (c # rest)" by simp_all
    from Cons.prems(3) [rule_format, OF this a(3,4)] show "embed_info_of c1 = embed_info_of c2" .
  qed
  have g1: "\<forall>c'\<in>set rest. \<forall>e' i. embedding_name c' = Some e' \<longrightarrow> map_of infos e' = Some i \<longrightarrow>
            embed_info_of c' = i"
  proof (intro ballI allI impI)
    fix c' e' i
    assume a: "c' \<in> set rest" "embedding_name c' = Some e'" "map_of infos e' = Some i"
    from a(1) have "c' \<in> set (c # rest)" by simp
    from Cons.prems(2) [rule_format, OF this a(2,3)] show "embed_info_of c' = i" .
  qed
  show ?case
  proof (cases "embedding_name c")
    case None
    then show ?thesis using Cons.IH [OF Cons.prems(1) g1 g2] by simp
  next
    case (Some e)
    note nameS = this
    show ?thesis
    proof (cases "map_of names e")
      case None
      let ?infos = "AList.update e (embed_info_of c) infos"
      let ?names = "AList.update e 1 names"
      have dom: "\<forall>e'. (map_of ?names e' = None) = (map_of ?infos e' = None)"
        using Cons.prems(1) by (simp add: update_conv)
      have g1': "\<forall>c'\<in>set rest. \<forall>e' i. embedding_name c' = Some e' \<longrightarrow>
            map_of ?infos e' = Some i \<longrightarrow> embed_info_of c' = i"
      proof (intro ballI allI impI)
        fix c' e' i
        assume c': "c' \<in> set rest" "embedding_name c' = Some e'" "map_of ?infos e' = Some i"
        show "embed_info_of c' = i"
        proof (cases "e' = e")
          case True
          then have "i = embed_info_of c" using c'(3) by (simp add: update_conv)
          moreover have "embed_info_of c' = embed_info_of c"
          proof -
            have m: "c' \<in> set (c # rest)" "c \<in> set (c # rest)" using c'(1) by simp_all
            have n1: "embedding_name c' = Some e" using c'(2) True by simp
            from Cons.prems(3) [rule_format, OF m n1 nameS] show ?thesis .
          qed
          ultimately show ?thesis by simp
        next
          case False
          then have "map_of infos e' = Some i" using c'(3) by (simp add: update_conv)
          from g1 [rule_format, OF c'(1,2) this] show ?thesis .
        qed
      qed
      show ?thesis using Cons.IH [OF dom g1' g2] nameS None by simp
    next
      case (Some cnt)
      note cntS = this
      then obtain i where isome: "map_of infos e = Some i"
        using Cons.prems(1) by (metis option.exhaust option.distinct(1))
      have eq: "embed_info_of c = i"
      proof -
        have m: "c \<in> set (c # rest)" by simp
        from Cons.prems(2) [rule_format, OF m nameS isome] show ?thesis .
      qed
      have dom: "\<forall>e'. (map_of (AList.update e (cnt + 1) names) e' = None) =
                       (map_of infos e' = None)"
        using Cons.prems(1) isome by (simp add: update_conv)
      show ?thesis using Cons.IH [OF dom g1 g2] nameS cntS isome eq by simp
    qed
  qed
qed

lemma not_shared_names_iff:
  "distinct (map fst names) \<Longrightarrow> (e \<in> set (not_shared_names names)) = (map_of names e = Some 1)"
  by (auto simp: not_shared_names_def image_iff)

text \<open>
  The first loop of the constructor. Whenever two configs of the catalogue declare the same
  embedding name with differing embedding info (dimension, combiner, initializer or
  max\_partitions), the pass and with it the whole constructor fail with the assertion
  error. Whenever all configs sharing a name agree on the info, the pass succeeds, and
  every config whose name is declared at least twice finds its own info as the one
  descriptor recorded for the name (with the member count); a name declared once is
  private and has no entry.
\<close>

lemma share_embed_tables_consistent:
  "(\<forall>c1 c2 e. c1 \<in> set cs \<and> c2 \<in> set cs \<and> embedding_name c1 = Some e \<and>
       embedding_name c2 = Some e \<and> embed_info_of c1 \<noteq> embed_info_of c2 \<longrightarrow>
       share_embed_tables cs = Inl (AssertionError ''shared embed info is not matched'') \<and>
       FeatureColumnParser_init gfile cs wd_dict wide_dim use_ev =
         Inl (AssertionError ''shared embed info is not matched'')) \<and>
   ((\<forall>c1\<in>set cs. \<forall>c2\<in>set cs. \<forall>e. embedding_name c1 = Some e \<longrightarrow>
       embedding_name c2 = Some e \<longrightarrow> embed_info_of c1 = embed_info_of c2) \<longrightarrow>
     (\<exists>names infos. share_embed_tables cs = Inr (names, infos) \<and>
        (\<forall>c\<in>set cs. \<forall>e. embedding_name c = Some e \<longrightarrow>
           (if 2 \<le> length (filter (\<lambda>c'. embedding_name c' = Some e) cs)
            then map_of names e = Some (length (filter (\<lambda>c'. embedding_name c' = Some e) cs)) \<and>
                 map_of infos e = Some (embed_info_of c)
            else map_of names e = None \<and> map_of infos e = None))))"
proof (intro conjI allI impI)
  fix c1 c2 e
  assume h: "c1 \<in> set cs \<and> c2 \<in> set cs \<and> embedding_name c1 = Some e \<and>
       embedding_name c2 = Some e \<and> embed_info_of c1 \<noteq> embed_info_of c2"
  have "share_embed_scan cs [] [] = Inl (AssertionError ''shared embed info is not matched'')"
  proof (rule share_embed_scan_mismatch)
    show "\<forall>e. (map_of ([] :: (string \<times> nat) list) e = None) =
              (map_of ([] :: (string \<times> embed_info) list) e = None)"
      by simp
    show "(\<exists>c\<in>set cs. \<exists>e i. embedding_name c = Some e \<and> map_of [] e = Some i \<and>
            embed_info_of c \<noteq> i) \<or>
         (\<exists>c1\<in>set cs. \<exists>c2\<in>set cs. \<exists>e. embedding_name c1 = Some e \<and>
            embedding_name c2 = Some e \<and> embed_info_of c1 \<noteq> embed_info_of c2)"
      using h by blast
  qed
  then show "share_embed_tables cs = Inl (AssertionError ''shared embed info is not matched'')"
    by (simp add: share_embed_tables_def)
  then show "FeatureColumnParser_init gfile cs wd_dict wide_dim use_ev =
         Inl (AssertionError ''shared embed info is not matched'')"
    by (simp add: FeatureColumnParser_init_def)
next
  assume good: "\<forall>c1\<in>set cs. \<forall>c2\<in>set cs. \<forall>e. embedding_name c1 = Some e \<longrightarrow>
       embedding_name c2 = Some e \<longrightarrow> embed_info_of c1 = embed_info_of c2"
  have "\<exists>r. share_embed_scan cs [] [] = Inr r"
  proof (rule share_embed_scan_succeeds)
    show "\<forall>e. (map_of ([] :: (string \<times> nat) list) e = None) =
              (map_of ([] :: (string \<times> embed_info) list) e = None)"
      by simp
    show "\<forall>c\<in>set cs. \<forall>e i. embedding_name c = Some e \<longrightarrow> map_of [] e = Some i \<longrightarrow>
            embed_info_of c = i"
      by simp
    show "\<forall>c1\<in>set cs. \<forall>c2\<in>set cs. \<forall>e. embedding_name c1 = Some e \<longrightarrow>
            embedding_name c2 = Some e \<longrightarrow> embed_info_of c1 = embed_info_of c2"
      by (rule good)
  qed
  then obtain names0 infos0 where r: "share_embed_scan cs [] [] = Inr (names0, infos0)"
    by auto
  have d: "distinct (map fst names0)"
    using share_embed_scan_distinct [OF r] by simp
  have n: "\<And>e. map_of names0 e =
             (if filter (\<lambda>c. embedding_name c = Some e) cs = [] then None
              else Some (length (filter (\<lambda>c. embedding_name c = Some e) cs)))"
    using share_embed_scan_names [OF r] by simp
  let ?names = "fold AList.delete (not_shared_names names0) names0"
  let ?infos = "fold AList.delete (not_shared_names names0) infos0"
  have t: "share_embed_tables cs = Inr (?names, ?infos)"
    using r by (simp add: share_embed_tables_def)
  have "\<forall>c\<in>set cs. \<forall>e. embedding_name c = Some e \<longrightarrow>
           (if 2 \<le> length (filter (\<lambda>c'. embedding_name c' = Some e) cs)
            then map_of ?names e = Some (length (filter (\<lambda>c'. embedding_name c' = Some e) cs)) \<and>
                 map_of ?infos e = Some (embed_info_of c)
            else map_of ?names e = None \<and> map_of ?infos e = None)"
  proof (intro ballI allI impI)
    fix c e
    assume c: "c \<in> set cs" "embedding_name c = Some e"
    have i: "map_of infos0 e = Some (embed_info_of c)"
      using share_embed_scan_infos_member [OF r _ c] by simp
    have ne: "filter (\<lambda>c'. embedding_name c' = Some e) cs \<noteq> []"
      using c by (auto simp: filter_empty_conv)
    then have pos: "1 \<le> length (filter (\<lambda>c'. embedding_name c' = Some e) cs)"
      by (cases "filter (\<lambda>c'. embedding_name c' = Some e) cs") simp_all
    show "if 2 \<le> length (filter (\<lambda>c'. embedding_name c' = Some e) cs)
            then map_of ?names e = Some (length (filter (\<lambda>c'. embedding_name c' = Some e) cs)) \<and>
                 map_of ?infos e = Some (embed_info_of c)
            else map_of ?names e = None \<and> map_of ?infos e = None"
    proof (cases "2 \<le> length (filter (\<lambda>c'. embedding_name c' = Some e) cs)")
      case True
      then have "map_of names0 e \<noteq> Some 1" using n [of e] ne by simp
      then have "e \<notin> set (not_shared_names names0)"
        using not_shared_names_iff [OF d, of e] by simp
      then show ?thesis using True i n [of e] ne by (simp add: map_of_fold_delete)
    next
      case False
      then have "length (filter (\<lambda>c'. embedding_name c' = Some e) cs) = 1"
        using pos by linarith
      then have "map_of names0 e = Some 1" using n [of e] ne by simp
      then have "e \<in> set (not_shared_names names0)"
        using not_shared_names_iff [OF d, of e] by simp
      then show ?thesis using False by (simp add: map_of_fold_delete)
    qed
  qed
  with t show "\<exists>names infos. share_embed_tables cs = Inr (names, infos) \<and>
        (\<forall>c\<in>set cs. \<forall>e. embedding_name c = Some e \<longrightarrow>
           (if 2 \<le> length (filter (\<lambda>c'. embedding_name c' = Some e) cs)
            then map_of names e = Some (length (filter (\<lambda>c'. embedding_name c' = Some e) cs)) \<and>
                 map_of infos e = Some (embed_info_of c)
            else map_of names e = None \<and> map_of infos e = None))"
    by blast
qed

text \<open>
  Claim C1. The first half holds, as shown above: differing info under one embedding name
  stops the constructor before any column is built. The second half fails on the code for
  wide columns: \<^verbatim>\<open>_add_shared_embedding_column\<close> numbers every handle by the length of
  the deep list of the name, also when it extends the wide list. With f deep and g wide
  under one name and one info, the handle of g has index 1 into a wide list of one column,
  and the constructor leaves with an IndexError. With f wide and g wide and deep, the wide
  handle of g has index 0 and resolves to the wide column built for f. With both features
  deep, each resolves to its own member of the one shared group, as the claim says.
\<close>

theorem shared_embedding_wide_index:
  "FeatureColumnParser_init (\<lambda>p. None)
     [example_config\<lparr>hash_bucket_size := Some 10, embedding_name := Some ''e'',
                      embedding_dim := 8\<rparr>,
      example_config\<lparr>input_names := [''g''], hash_bucket_size := Some 10,
                      embedding_name := Some ''e'', embedding_dim := 8\<rparr>]
     [(''f'', DEEP), (''g'', WIDE)] 1 False = Inl IndexError \<and>
   FeatureColumnParser_init (\<lambda>p. None)
     [example_config\<lparr>hash_bucket_size := Some 10, embedding_name := Some ''e'',
                      embedding_dim := 8\<rparr>,
      example_config\<lparr>input_names := [''g''], hash_bucket_size := Some 10,
                      embedding_name := Some ''e'', embedding_dim := 8\<rparr>]
     [(''f'', WIDE), (''g'', WIDE_AND_DEEP)] 1 False =
     Inr \<lparr>wide_output_dim = 1,
          wide_deep_dict = [(''f'', WIDE), (''g'', WIDE_AND_DEEP)],
          deep_columns =
            [(''g'', with_sequence_combiner
                       (shared_embedding_column (categorical_column_with_hash_bucket ''g'' 10)
                          ''e'' 8 ''mean'' None None False) None)],
          wide_columns =
            [(''f'', with_sequence_combiner
                       (shared_embedding_column (categorical_column_with_hash_bucket ''f'' 10)
                          ''e_wide'' 1 ''sum'' None None False) None),
             (''g'', with_sequence_combiner
                       (shared_embedding_column (categorical_column_with_hash_bucket ''f'' 10)
                          ''e_wide'' 1 ''sum'' None None False) None)],
          sequence_columns = [],
          share_embed_names = [(''e'', 2)],
          share_embed_infos =
            [(''e'', \<lparr>info_embedding_dim = 8, info_combiner = ''mean'',
                       info_initializer = None, info_max_partitions = 1\<rparr>)],
          deep_share_embed_columns =
            [(''e'', [shared_embedding_column (categorical_column_with_hash_bucket ''g'' 10)
                        ''e'' 8 ''mean'' None None False])],
          wide_share_embed_columns =
            [(''e'', [shared_embedding_column (categorical_column_with_hash_bucket ''f'' 10)
                        ''e_wide'' 1 ''sum'' None None False,
                      shared_embedding_column (categorical_column_with_hash_bucket ''g'' 10)
                        ''e_wide'' 1 ''sum'' None None False])],
          use_embedding_variable = False, vocab_size = []\<rparr> \<and>
   FeatureColumnParser_init (\<lambda>p. None)
     [example_config\<lparr>hash_bucket_size := Some 10, embedding_name := Some ''e'',
                      embedding_dim := 8\<rparr>,
      example_config\<lparr>input_names := [''g''], hash_bucket_size := Some 10,
                      embedding_name := Some ''e'', embedding_dim := 8\<rparr>]
     [(''f'', DEEP), (''g'', DEEP)] 1 False =
     Inr \<lparr>wide_output_dim = 1,
          wide_deep_dict = [(''f'', DEEP), (''g'', DEEP)],
          deep_columns =
            [(''f'', with_sequence_combiner
                       (shared_embedding_column (categorical_column_with_hash_bucket ''f'' 10)
                          ''e'' 8 ''mean'' None None False) None),
             (''g'', with_sequence_combiner
                       (shared_embedding_column (categorical_column_with_hash_bucket ''g'' 10)
                          ''e'' 8 ''mean'' None None False) None)],
          wide_columns = [], sequence_columns = [],
          share_embed_names = [(''e'', 2)],
          share_embed_infos =
            [(''e'', \<lparr>info_embedding_dim = 8, info_combiner = ''mean'',
                       info_initializer = None, info_max_partitions = 1\<rparr>)],
          deep_share_embed_columns =
            [(''e'', [shared_embedding_column (categorical_column_with_hash_bucket ''f'' 10)
                        ''e'' 8 ''mean'' None None False,
                      shared_embedding_column (categorical_column_with_hash_bucket ''g'' 10)
                        ''e'' 8 ''mean'' None None False])],
          wide_share_embed_columns = [(''e'', [])],
          use_embedding_variable = False, vocab_size = []\<rparr>"
  by code_simp

subsection \<open>The categorical column of an Id feature\<close>

text \<open>
  Claim C2. For an Id feature exactly one categorical column is built, chosen by the
  fixed priority hash\_bucket\_size, vocab\_list, vocab\_file, identity: a positive
  hash\_bucket\_size gives a hash-bucket column whatever the vocabulary settings are;
  otherwise a non-empty vocab\_list gives a vocabulary-list column with default id 0;
  otherwise a non-empty vocab\_file gives a vocabulary-file column with default id 0 and
  the size read from the file (or the failure of reading it); otherwise an identity
  column over num\_buckets with default id 0.
\<close>

theorem id_strategy_priority:
  assumes "input_names config = input_0 # others"
  shows
    "(hash_bucket_size_val config > 0 \<longrightarrow>
        id_categorical_column gfile config self =
          Inr (categorical_column_with_hash_bucket input_0 (hash_bucket_size_val config), self)) \<and>
     (\<not> hash_bucket_size_val config > 0 \<and> vocab_list config \<noteq> [] \<longrightarrow>
        id_categorical_column gfile config self =
          Inr (categorical_column_with_vocabulary_list input_0 0 (vocab_list config), self)) \<and>
     (\<not> hash_bucket_size_val config > 0 \<and> vocab_list config = [] \<and> vocab_file config \<noteq> [] \<longrightarrow>
        id_categorical_column gfile config self =
          (case get_vocab_size gfile (vocab_file config) self of
             Inl e \<Rightarrow> Inl e
           | Inr (n, self1) \<Rightarrow>
               Inr (categorical_column_with_vocabulary_file input_0 0 (vocab_file config) n,
                    self1))) \<and>
     (\<not> hash_bucket_size_val config > 0 \<and> vocab_list config = [] \<and> vocab_file config = [] \<longrightarrow>
        id_categorical_column gfile config self =
          Inr (categorical_column_with_identity input_0 (num_buckets config) 0, self))"
  using assms by (simp add: id_categorical_column_def input_names_0_def)

theorem id_strategy_priority_witness:
  "id_categorical_column (\<lambda>p. Some 7)
     (example_config\<lparr>hash_bucket_size := Some 10, vocab_list := [''a''],
                      vocab_file := ''v.txt''\<rparr>)
     example_parser =
     Inr (categorical_column_with_hash_bucket ''f'' 10, example_parser) \<and>
   id_categorical_column (\<lambda>p. Some 7)
     (example_config\<lparr>vocab_list := [''a''], vocab_file := ''v.txt''\<rparr>) example_parser =
     Inr (categorical_column_with_vocabulary_list ''f'' 0 [''a''], example_parser) \<and>
   id_categorical_column (\<lambda>p. Some 7) (example_config\<lparr>vocab_file := ''v.txt''\<rparr>)
     example_parser =
     Inr (categorical_column_with_vocabulary_file ''f'' 0 ''v.txt'' 7,
          example_parser\<lparr>vocab_size := [(''v.txt'', 7)]\<rparr>) \<and>
   id_categorical_column (\<lambda>p. Some 7) (example_config\<lparr>num_buckets := 5\<rparr>) example_parser =
     Inr (categorical_column_with_identity ''f'' 5 0, example_parser)"
  using id_strategy_priority
          [of "example_config\<lparr>hash_bucket_size := Some 10, vocab_list := [''a''],
                               vocab_file := ''v.txt''\<rparr>" "''f''" "[]" "\<lambda>p. Some 7"
              example_parser]
    id_strategy_priority
          [of "example_config\<lparr>vocab_list := [''a''], vocab_file := ''v.txt''\<rparr>" "''f''" "[]"
              "\<lambda>p. Some 7" example_parser]
    id_strategy_priority
          [of "example_config\<lparr>vocab_file := ''v.txt''\<rparr>" "''f''" "[]" "\<lambda>p. Some 7"
              example_parser]
    id_strategy_priority
          [of "example_config\<lparr>num_buckets := 5\<rparr>" "''f''" "[]" "\<lambda>p. Some 7" example_parser]
  by (simp add: example_config_def example_parser_def hash_bucket_size_val_def
        get_vocab_size_def)

subsection \<open>Features missing from the wide/deep dictionary\<close>

lemma parse_features_append:
  "parse_features gfile (xs @ ys) s =
     (case parse_features gfile xs s of
        (None, s1) \<Rightarrow> parse_features gfile ys s1
      | (Some e, s1) \<Rightarrow> (Some e, s1))"
proof (induction xs arbitrary: s)
  case Nil
  show ?case by simp
next
  case (Cons c xs)
  obtain r s1 where p: "parse_feature gfile c s = (r, s1)" by (cases "parse_feature gfile c s")
  show ?case
  proof (cases r)
    case None
    with p Cons.IH [of s1] show ?thesis by simp
  next
    case (Some e)
    with p Cons.IH [of s1] show ?thesis by (cases e) simp_all
  qed
qed

lemma get_vocab_size_keeps:
  "get_vocab_size gfile p s = Inr (n, s') \<Longrightarrow> s' = s\<lparr>vocab_size := vocab_size s'\<rparr>"
  by (auto simp: get_vocab_size_def split: option.splits)

lemma add_shared_frame:
  "add_shared_embedding_column en fc deep s = Inr (h, s') \<Longrightarrow>
     wide_deep_dict s' = wide_deep_dict s \<and> deep_columns s' = deep_columns s \<and>
     wide_columns s' = wide_columns s \<and> sequence_columns s' = sequence_columns s"
  by (auto simp: add_shared_embedding_column_def split: option.splits if_splits)

lemma add_wide_frame:
  assumes "add_wide_embedding_column fc c s = Inr s'"
  shows "wide_deep_dict s' = wide_deep_dict s \<and> deep_columns s' = deep_columns s \<and>
         sequence_columns s' = sequence_columns s \<and>
         (\<forall>n. primary_name c \<noteq> Inr n \<longrightarrow> map_of (wide_columns s') n = map_of (wide_columns s) n)"
proof (cases "primary_name c")
  case (Inl e)
  with assms show ?thesis by (simp add: add_wide_embedding_column_def)
next
  case (Inr fname)
  show ?thesis
  proof (cases "embedding_name_val c \<in> fst ` set (wide_share_embed_columns s)")
    case True
    with assms Inr obtain h s1 where
      a: "add_shared_embedding_column (embedding_name_val c) fc False s = Inr (h, s1)"
      and b: "s' = s1\<lparr>wide_columns := AList.update fname h (wide_columns s1)\<rparr>"
      by (auto simp: add_wide_embedding_column_def split: if_splits sum.splits)
    from add_shared_frame [OF a] b Inr show ?thesis by (auto simp: update_conv)
  next
    case False
    with assms Inr show ?thesis
      by (auto simp: add_wide_embedding_column_def update_conv split: if_splits)
  qed
qed

lemma add_deep_frame:
  assumes "add_deep_embedding_column fc c s = Inr s'"
  shows "wide_deep_dict s' = wide_deep_dict s \<and> wide_columns s' = wide_columns s \<and>
         (\<forall>n. primary_name c \<noteq> Inr n \<longrightarrow>
            map_of (deep_columns s') n = map_of (deep_columns s) n \<and>
            map_of (sequence_columns s') n = map_of (sequence_columns s) n)"
proof (cases "primary_name c")
  case (Inl e)
  with assms show ?thesis by (simp add: add_deep_embedding_column_def)
next
  case (Inr fname)
  show ?thesis
  proof (cases "embedding_name_val c \<in> fst ` set (deep_share_embed_columns s)")
    case True
    with assms Inr obtain h s1 where
      a: "add_shared_embedding_column (embedding_name_val c) fc True s = Inr (h, s1)"
      and b: "s' = (if feature_type c \<noteq> SequenceFeature
                    then s1\<lparr>deep_columns := AList.update fname h (deep_columns s1)\<rparr>
                    else s1\<lparr>sequence_columns :=
                              AList.update fname
                                (case sequence_combiner c of None \<Rightarrow> h
                                 | Some sc \<Rightarrow> set_sequence_combiner (Some sc) h)
                                (sequence_columns s1)\<rparr>)"
      by (auto simp: add_deep_embedding_column_def Let_def split: if_splits sum.splits)
    from add_shared_frame [OF a] b Inr show ?thesis by (auto simp: update_conv)
  next
    case False
    with assms Inr show ?thesis
      by (auto simp: add_deep_embedding_column_def update_conv Let_def split: if_splits)
  qed
qed


lemma add_wide_and_deep_frame:
  assumes "add_wide_and_deep fc c s = (e, s')"
  shows "wide_deep_dict s' = wide_deep_dict s \<and>
         (\<forall>n. primary_name c \<noteq> Inr n \<longrightarrow>
            map_of (deep_columns s') n = map_of (deep_columns s) n \<and>
            map_of (wide_columns s') n = map_of (wide_columns s) n \<and>
            map_of (sequence_columns s') n = map_of (sequence_columns s) n)"
proof (cases "is_wide s c")
  case (Inl err)
  with assms show ?thesis by (simp add: add_wide_and_deep_def)
next
  case (Inr w)
  show ?thesis
  proof (cases "if w then add_wide_embedding_column fc c s else Inr s")
    case (Inl err)
    with assms Inr show ?thesis by (simp add: add_wide_and_deep_def)
  next
    case s1: (Inr s1)
    have f1: "wide_deep_dict s1 = wide_deep_dict s \<and> deep_columns s1 = deep_columns s \<and>
         sequence_columns s1 = sequence_columns s \<and>
         (\<forall>n. primary_name c \<noteq> Inr n \<longrightarrow> map_of (wide_columns s1) n = map_of (wide_columns s) n)"
    proof (cases w)
      case True
      with s1 have "add_wide_embedding_column fc c s = Inr s1" by simp
      then show ?thesis by (rule add_wide_frame)
    next
      case False
      with s1 show ?thesis by simp
    qed
    show ?thesis
    proof (cases "is_deep s1 c")
      case (Inl err)
      with assms Inr s1 f1 show ?thesis by (simp add: add_wide_and_deep_def)
    next
      case d: (Inr d)
      show ?thesis
      proof (cases d)
        case False
        with assms Inr s1 d f1 show ?thesis by (simp add: add_wide_and_deep_def)
      next
        case True
        show ?thesis
        proof (cases "add_deep_embedding_column fc c s1")
          case (Inl err)
          with assms Inr s1 d True f1 show ?thesis by (simp add: add_wide_and_deep_def)
        next
          case s2: (Inr s2)
          from add_deep_frame [OF s2] f1 assms Inr s1 d True s2 show ?thesis
            by (simp add: add_wide_and_deep_def)
        qed
      qed
    qed
  qed
qed

lemma id_categorical_column_keeps:
  "id_categorical_column gfile c s = Inr (fc, s') \<Longrightarrow> s' = s\<lparr>vocab_size := vocab_size s'\<rparr>"
  by (auto simp: id_categorical_column_def split: sum.splits if_splits
       dest: get_vocab_size_keeps)

lemma tag_categorical_column_keeps:
  "tag_categorical_column gfile c s = Inr (fc, s') \<Longrightarrow> s' = s\<lparr>vocab_size := vocab_size s'\<rparr>"
  by (auto simp: tag_categorical_column_def split: sum.splits if_splits
       dest: get_vocab_size_keeps)

lemma sequence_sub_column_keeps:
  "sequence_sub_column gfile c i s = Inr (fc, s') \<Longrightarrow> s' = s\<lparr>vocab_size := vocab_size s'\<rparr>"
  by (auto simp: sequence_sub_column_def Let_def split: sum.splits if_splits
       dest: get_vocab_size_keeps)

lemma vocab_update_frame:
  "s' = s\<lparr>vocab_size := v\<rparr> \<Longrightarrow>
     wide_deep_dict s' = wide_deep_dict s \<and> deep_columns s' = deep_columns s \<and>
     wide_columns s' = wide_columns s \<and> sequence_columns s' = sequence_columns s"
  by simp


lemma parse_id_frame:
  assumes "parse_id_feature gfile c s = (e, s')"
  shows "wide_deep_dict s' = wide_deep_dict s \<and>
         (\<forall>n. primary_name c \<noteq> Inr n \<longrightarrow>
            map_of (deep_columns s') n = map_of (deep_columns s) n \<and>
            map_of (wide_columns s') n = map_of (wide_columns s) n \<and>
            map_of (sequence_columns s') n = map_of (sequence_columns s) n)"
proof (cases "id_categorical_column gfile c s")
  case (Inl err)
  with assms show ?thesis by (simp add: parse_id_feature_def)
next
  case (Inr p)
  obtain fc s1 where p: "p = (fc, s1)" by (cases p)
  from Inr p have k: "s1 = s\<lparr>vocab_size := vocab_size s1\<rparr>"
    using id_categorical_column_keeps by blast
  from assms Inr p have "add_wide_and_deep fc c s1 = (e, s')"
    by (simp add: parse_id_feature_def)
  from add_wide_and_deep_frame [OF this] vocab_update_frame [OF k] show ?thesis by simp
qed

lemma parse_tag_frame:
  assumes "parse_tag_feature gfile c s = (e, s')"
  shows "wide_deep_dict s' = wide_deep_dict s \<and>
         (\<forall>n. primary_name c \<noteq> Inr n \<longrightarrow>
            map_of (deep_columns s') n = map_of (deep_columns s) n \<and>
            map_of (wide_columns s') n = map_of (wide_columns s) n \<and>
            map_of (sequence_columns s') n = map_of (sequence_columns s) n)"
proof (cases "tag_categorical_column gfile c s")
  case (Inl err)
  with assms show ?thesis by (simp add: parse_tag_feature_def)
next
  case (Inr p)
  obtain fc s1 where p: "p = (fc, s1)" by (cases p)
  from Inr p have k: "s1 = s\<lparr>vocab_size := vocab_size s1\<rparr>"
    using tag_categorical_column_keeps by blast
  from assms Inr p have "add_wide_and_deep fc c s1 = (e, s')"
    by (simp add: parse_tag_feature_def)
  from add_wide_and_deep_frame [OF this] vocab_update_frame [OF k] show ?thesis by simp
qed

lemma parse_combo_frame:
  assumes "parse_combo_feature c s = (e, s')"
  shows "wide_deep_dict s' = wide_deep_dict s \<and>
         (\<forall>n. primary_name c \<noteq> Inr n \<longrightarrow>
            map_of (deep_columns s') n = map_of (deep_columns s) n \<and>
            map_of (wide_columns s') n = map_of (wide_columns s) n \<and>
            map_of (sequence_columns s') n = map_of (sequence_columns s) n)"
proof (cases "length (input_names c) \<ge> 2")
  case True
  with assms have "add_wide_and_deep
             (crossed_column (input_names c) (hash_bucket_size_val c)) c s = (e, s')"
    by (simp add: parse_combo_feature_def)
  then show ?thesis by (rule add_wide_and_deep_frame)
next
  case False
  with assms show ?thesis by (simp add: parse_combo_feature_def)
qed

lemma parse_lookup_frame:
  assumes "parse_lookup_feature c s = (e, s')"
  shows "wide_deep_dict s' = wide_deep_dict s \<and>
         (\<forall>n. primary_name c \<noteq> Inr n \<longrightarrow>
            map_of (deep_columns s') n = map_of (deep_columns s) n \<and>
            map_of (wide_columns s') n = map_of (wide_columns s) n \<and>
            map_of (sequence_columns s') n = map_of (sequence_columns s) n)"
proof (cases "primary_name c")
  case (Inl err)
  with assms show ?thesis by (simp add: parse_lookup_feature_def)
next
  case (Inr fname)
  show ?thesis
  proof (cases "hash_bucket_size c = None")
    case True
    with assms Inr show ?thesis by (simp add: parse_lookup_feature_def)
  next
    case False
    with assms Inr have "add_wide_and_deep
             (categorical_column_with_hash_bucket fname (hash_bucket_size_val c)) c s = (e, s')"
      by (simp add: parse_lookup_feature_def)
    then show ?thesis by (rule add_wide_and_deep_frame)
  qed
qed

lemma parse_expr_frame:
  assumes "parse_expr_feature c s = (e, s')"
  shows "wide_deep_dict s' = wide_deep_dict s \<and>
         (\<forall>n. primary_name c \<noteq> Inr n \<longrightarrow>
            map_of (deep_columns s') n = map_of (deep_columns s) n \<and>
            map_of (wide_columns s') n = map_of (wide_columns s) n \<and>
            map_of (sequence_columns s') n = map_of (sequence_columns s) n)"
proof (cases "primary_name c")
  case (Inl err)
  with assms show ?thesis by (simp add: parse_expr_feature_def)
next
  case (Inr fname)
  show ?thesis
  proof (cases "is_wide s c")
    case (Inl err)
    with assms Inr show ?thesis by (simp add: parse_expr_feature_def)
  next
    case w: (Inr w)
    show ?thesis
    proof (cases "if w then add_wide_embedding_column (numeric_column fname 1) c s else Inr s")
      case (Inl err)
      with assms Inr w show ?thesis by (simp add: parse_expr_feature_def)
    next
      case s1: (Inr s1)
      have f1: "wide_deep_dict s1 = wide_deep_dict s \<and> deep_columns s1 = deep_columns s \<and>
         sequence_columns s1 = sequence_columns s \<and>
         (\<forall>n. primary_name c \<noteq> Inr n \<longrightarrow> map_of (wide_columns s1) n = map_of (wide_columns s) n)"
      proof (cases w)
        case True
        with s1 have "add_wide_embedding_column (numeric_column fname 1) c s = Inr s1" by simp
        then show ?thesis by (rule add_wide_frame)
      next
        case False
        with s1 show ?thesis by simp
      qed
      show ?thesis
      proof (cases "is_deep s1 c")
        case (Inl err)
        with assms Inr w s1 f1 show ?thesis by (simp add: parse_expr_feature_def)
      next
        case d: (Inr d)
        with assms Inr w s1 f1 show ?thesis
          by (cases d) (auto simp: parse_expr_feature_def update_conv)
      qed
    qed
  qed
qed


lemma parse_raw_frame:
  assumes "parse_raw_feature c s = (e, s')"
  shows "wide_deep_dict s' = wide_deep_dict s \<and>
         (\<forall>n. primary_name c \<noteq> Inr n \<longrightarrow>
            map_of (deep_columns s') n = map_of (deep_columns s) n \<and>
            map_of (wide_columns s') n = map_of (wide_columns s) n \<and>
            map_of (sequence_columns s') n = map_of (sequence_columns s) n)"
proof (cases "primary_name c")
  case (Inl err)
  with assms show ?thesis by (simp add: parse_raw_feature_def)
next
  case (Inr fname)
  show ?thesis
  proof (cases "input_names_0 c")
    case (Inl err)
    with assms Inr show ?thesis by (simp add: parse_raw_feature_def)
  next
    case i: (Inr input_0)
    show ?thesis
    proof (cases "raw_bounds c \<noteq> []")
      case True
      with assms Inr i have "add_wide_and_deep
               (bucketized_column (numeric_column input_0 (raw_input_dim c)) (raw_bounds c))
               c s = (e, s')"
        by (simp add: parse_raw_feature_def Let_def)
      then show ?thesis by (rule add_wide_and_deep_frame)
    next
      case False
      let ?wgt = "weighted_categorical_column
                    (categorical_column_with_identity (input_0 @ ''_raw_proj_id'')
                       (raw_input_dim c) 0) (input_0 @ ''_raw_proj_val'')"
      show ?thesis
      proof (cases "is_wide s c")
        case (Inl err)
        with assms Inr i False show ?thesis by (simp add: parse_raw_feature_def Let_def)
      next
        case w: (Inr w)
        show ?thesis
        proof (cases "if w then add_wide_embedding_column ?wgt c s else Inr s")
          case (Inl err)
          with assms Inr i False w show ?thesis by (simp add: parse_raw_feature_def Let_def)
        next
          case s1: (Inr s1)
          have f1: "wide_deep_dict s1 = wide_deep_dict s \<and> deep_columns s1 = deep_columns s \<and>
             sequence_columns s1 = sequence_columns s \<and>
             (\<forall>n. primary_name c \<noteq> Inr n \<longrightarrow>
                map_of (wide_columns s1) n = map_of (wide_columns s) n)"
          proof (cases w)
            case True
            with s1 have "add_wide_embedding_column ?wgt c s = Inr s1" by simp
            then show ?thesis by (rule add_wide_frame)
          next
            case False
            with s1 show ?thesis by simp
          qed
          show ?thesis
          proof (cases "is_deep s1 c")
            case (Inl err)
            with assms Inr i False w s1 f1 show ?thesis
              by (simp add: parse_raw_feature_def Let_def)
          next
            case d: (Inr d)
            show ?thesis
            proof (cases "d \<and> embedding_dim c > 0")
              case False
              with assms Inr i \<open>\<not> raw_bounds c \<noteq> []\<close> w s1 d f1 show ?thesis
                by (cases d) (auto simp: parse_raw_feature_def Let_def update_conv)
            next
              case True
              show ?thesis
              proof (cases "add_deep_embedding_column ?wgt c s1")
                case (Inl err)
                with assms Inr i \<open>\<not> raw_bounds c \<noteq> []\<close> w s1 d True f1 show ?thesis
                  by (simp add: parse_raw_feature_def Let_def)
              next
                case s2: (Inr s2)
                from add_deep_frame [OF s2] f1 assms Inr i \<open>\<not> raw_bounds c \<noteq> []\<close> w s1 d True s2
                show ?thesis by (simp add: parse_raw_feature_def Let_def)
              qed
            qed
          qed
        qed
      qed
    qed
  qed
qed

lemma parse_sequence_frame:
  assumes "parse_sequence_feature gfile c s = (e, s')"
  shows "wide_deep_dict s' = wide_deep_dict s \<and>
         (\<forall>n. primary_name c \<noteq> Inr n \<longrightarrow>
            map_of (deep_columns s') n = map_of (deep_columns s) n \<and>
            map_of (wide_columns s') n = map_of (wide_columns s) n \<and>
            map_of (sequence_columns s') n = map_of (sequence_columns s) n)"
proof (cases "primary_name c")
  case (Inl err)
  with assms show ?thesis by (simp add: parse_sequence_feature_def)
next
  case (Inr fname)
  show ?thesis
  proof (cases "sub_feature_type c = IdFeature \<or> sub_feature_type c = RawFeature")
    case False
    with assms Inr show ?thesis by (simp add: parse_sequence_feature_def)
  next
    case True
    show ?thesis
    proof (cases "input_names_0 c")
      case (Inl err)
      with assms Inr True show ?thesis by (simp add: parse_sequence_feature_def)
    next
      case i: (Inr input_0)
      show ?thesis
      proof (cases "sequence_sub_column gfile c input_0 s")
        case (Inl err)
        with assms Inr True i show ?thesis by (simp add: parse_sequence_feature_def)
      next
        case p: (Inr p)
        obtain fc s1 where q: "p = (fc, s1)" by (cases p)
        from p q have k: "s1 = s\<lparr>vocab_size := vocab_size s1\<rparr>"
          using sequence_sub_column_keeps by blast
        note f1 = vocab_update_frame [OF k]
        show ?thesis
        proof (cases "embedding_dim c > 0")
          case False
          with assms Inr True i p q f1 show ?thesis
            by (auto simp: parse_sequence_feature_def update_conv)
        next
          case ed: True
          show ?thesis
          proof (cases "add_deep_embedding_column fc c s1")
            case (Inl err)
            with assms Inr True i p q ed f1 show ?thesis
              by (simp add: parse_sequence_feature_def)
          next
            case s2: (Inr s2)
            from add_deep_frame [OF s2] f1 assms Inr True i p q ed s2 show ?thesis
              by (simp add: parse_sequence_feature_def)
          qed
        qed
      qed
    qed
  qed
qed

lemma parse_feature_frame:
  assumes "parse_feature gfile c s = (e, s')"
  shows "wide_deep_dict s' = wide_deep_dict s \<and>
         (\<forall>n. primary_name c \<noteq> Inr n \<longrightarrow>
            map_of (deep_columns s') n = map_of (deep_columns s) n \<and>
            map_of (wide_columns s') n = map_of (wide_columns s) n \<and>
            map_of (sequence_columns s') n = map_of (sequence_columns s) n)"
proof (cases "feature_type c")
  case IdFeature
  with assms have "parse_id_feature gfile c s = (e, s')" by (simp add: parse_feature_def)
  then show ?thesis by (rule parse_id_frame)
next
  case RawFeature
  with assms have "parse_raw_feature c s = (e, s')" by (simp add: parse_feature_def)
  then show ?thesis by (rule parse_raw_frame)
next
  case TagFeature
  with assms have "parse_tag_feature gfile c s = (e, s')" by (simp add: parse_feature_def)
  then show ?thesis by (rule parse_tag_frame)
next
  case ComboFeature
  with assms have "parse_combo_feature c s = (e, s')" by (simp add: parse_feature_def)
  then show ?thesis by (rule parse_combo_frame)
next
  case LookupFeature
  with assms have "parse_lookup_feature c s = (e, s')" by (simp add: parse_feature_def)
  then show ?thesis by (rule parse_lookup_frame)
next
  case SequenceFeature
  with assms have "parse_sequence_feature gfile c s = (e, s')" by (simp add: parse_feature_def)
  then show ?thesis by (rule parse_sequence_frame)
next
  case ExprFeature
  with assms have "parse_expr_feature c s = (e, s')" by (simp add: parse_feature_def)
  then show ?thesis by (rule parse_expr_frame)
qed


lemma add_wide_and_deep_absent:
  "primary_name config = Inr fname \<Longrightarrow> map_of (wide_deep_dict self) fname = None \<Longrightarrow>
     add_wide_and_deep fc config self = (Some (FeatureKeyError fname), self)"
  by (simp add: add_wide_and_deep_def is_wide_def)

lemma parse_feature_absent:
  assumes "primary_name config = Inr fname"
    and "map_of (wide_deep_dict self) fname = None"
    and "feature_type config \<noteq> SequenceFeature"
  shows "\<exists>e self1. parse_feature gfile config self = (Some e, self1) \<and>
           self1 = self\<lparr>vocab_size := vocab_size self1\<rparr> \<and>
           ((e = FeatureKeyError fname) =
              (case feature_type config of
                 IdFeature \<Rightarrow> (\<exists>fc s. id_categorical_column gfile config self = Inr (fc, s))
               | TagFeature \<Rightarrow> (\<exists>fc s. tag_categorical_column gfile config self = Inr (fc, s))
               | RawFeature \<Rightarrow> input_names config \<noteq> []
               | ComboFeature \<Rightarrow> 2 \<le> length (input_names config)
               | LookupFeature \<Rightarrow> hash_bucket_size config \<noteq> None
               | ExprFeature \<Rightarrow> True
               | SequenceFeature \<Rightarrow> False))"
proof (cases "feature_type config")
  case IdFeature
  show ?thesis
  proof (cases "id_categorical_column gfile config self")
    case (Inl err)
    then have "err \<noteq> FeatureKeyError fname"
      by (auto simp: id_categorical_column_def input_names_0_def get_vocab_size_def
            split: sum.splits if_splits list.splits option.splits)
    then show ?thesis using Inl IdFeature
      by (simp add: parse_feature_def parse_id_feature_def)
  next
    case (Inr p)
    obtain fc s where p: "p = (fc, s)" by (cases p)
    have f: "s = self\<lparr>vocab_size := vocab_size s\<rparr>"
      using id_categorical_column_keeps Inr p by blast
    have "wide_deep_dict s = wide_deep_dict self" using vocab_update_frame [OF f] by simp
    then have wd: "map_of (wide_deep_dict s) fname = None" using assms(2) by simp
    show ?thesis using Inr p IdFeature add_wide_and_deep_absent [OF assms(1) wd] f
      by (simp add: parse_feature_def parse_id_feature_def)
  qed
next
  case RawFeature
  show ?thesis
  proof (cases "input_names config")
    case Nil
    then show ?thesis using RawFeature assms(1)
      by (simp add: parse_feature_def parse_raw_feature_def input_names_0_def)
  next
    case (Cons input_0 others)
    then show ?thesis using RawFeature assms(1,2)
      by (simp add: parse_feature_def parse_raw_feature_def input_names_0_def Let_def
            add_wide_and_deep_absent is_wide_def)
  qed
next
  case TagFeature
  show ?thesis
  proof (cases "tag_categorical_column gfile config self")
    case (Inl err)
    then have "err \<noteq> FeatureKeyError fname"
      by (auto simp: tag_categorical_column_def input_names_0_def get_vocab_size_def
            split: sum.splits if_splits list.splits option.splits)
    then show ?thesis using Inl TagFeature
      by (simp add: parse_feature_def parse_tag_feature_def)
  next
    case (Inr p)
    obtain fc s where p: "p = (fc, s)" by (cases p)
    have f: "s = self\<lparr>vocab_size := vocab_size s\<rparr>"
      using tag_categorical_column_keeps Inr p by blast
    have "wide_deep_dict s = wide_deep_dict self" using vocab_update_frame [OF f] by simp
    then have wd: "map_of (wide_deep_dict s) fname = None" using assms(2) by simp
    show ?thesis using Inr p TagFeature add_wide_and_deep_absent [OF assms(1) wd] f
      by (simp add: parse_feature_def parse_tag_feature_def)
  qed
next
  case ComboFeature
  then show ?thesis using assms
    by (simp add: parse_feature_def parse_combo_feature_def add_wide_and_deep_absent)
next
  case LookupFeature
  then show ?thesis using assms
    by (simp add: parse_feature_def parse_lookup_feature_def add_wide_and_deep_absent)
next
  case SequenceFeature
  then show ?thesis using assms by simp
next
  case ExprFeature
  then show ?thesis using assms
    by (simp add: parse_feature_def parse_expr_feature_def is_wide_def)
qed

lemma get_vocab_size_readable:
  "gfile p \<noteq> None \<Longrightarrow> \<exists>n s1. get_vocab_size gfile p s = Inr (n, s1)"
  by (auto simp: get_vocab_size_def split: option.splits)

lemma id_categorical_column_builds:
  assumes "input_names c \<noteq> []"
    and "\<not> hash_bucket_size_val c > 0 \<and> vocab_list c = [] \<and> vocab_file c \<noteq> [] \<longrightarrow>
           gfile (vocab_file c) \<noteq> None"
  shows "\<exists>fc s1. id_categorical_column gfile c s = Inr (fc, s1)"
proof (cases "\<not> hash_bucket_size_val c > 0 \<and> vocab_list c = [] \<and> vocab_file c \<noteq> []")
  case True
  with assms(2) have "gfile (vocab_file c) \<noteq> None" by simp
  from get_vocab_size_readable [of gfile "vocab_file c" s, OF this] obtain n s1 where
    "get_vocab_size gfile (vocab_file c) s = Inr (n, s1)" by blast
  with True assms(1) show ?thesis
    by (cases "input_names c") (simp_all add: id_categorical_column_def input_names_0_def)
next
  case False
  with assms(1) show ?thesis
    by (cases "input_names c") (auto simp: id_categorical_column_def input_names_0_def)
qed

lemma tag_categorical_column_builds:
  assumes "input_names c \<noteq> []"
    and "hash_bucket_size c = None \<and> vocab_list c = [] \<and> vocab_file c \<noteq> [] \<longrightarrow>
           gfile (vocab_file c) \<noteq> None"
  shows "\<exists>fc s1. tag_categorical_column gfile c s = Inr (fc, s1)"
proof (cases "hash_bucket_size c = None \<and> vocab_list c = [] \<and> vocab_file c \<noteq> []")
  case True
  with assms(2) have "gfile (vocab_file c) \<noteq> None" by simp
  from get_vocab_size_readable [of gfile "vocab_file c" s, OF this] obtain n s1 where
    "get_vocab_size gfile (vocab_file c) s = Inr (n, s1)" by blast
  with True assms(1) show ?thesis
    by (cases "input_names c") (simp_all add: tag_categorical_column_def input_names_0_def)
next
  case False
  with assms(1) show ?thesis
    by (cases "input_names c") (auto simp: tag_categorical_column_def input_names_0_def)
qed

lemma parse_feature_skipped:
  assumes "primary_name config = Inr fname"
    and "map_of (wide_deep_dict self) fname = None"
    and "case feature_type config of
           IdFeature \<Rightarrow> input_names config \<noteq> [] \<and>
             (\<not> hash_bucket_size_val config > 0 \<and> vocab_list config = [] \<and>
              vocab_file config \<noteq> [] \<longrightarrow> gfile (vocab_file config) \<noteq> None)
         | TagFeature \<Rightarrow> input_names config \<noteq> [] \<and>
             (hash_bucket_size config = None \<and> vocab_list config = [] \<and>
              vocab_file config \<noteq> [] \<longrightarrow> gfile (vocab_file config) \<noteq> None)
         | RawFeature \<Rightarrow> input_names config \<noteq> []
         | ComboFeature \<Rightarrow> 2 \<le> length (input_names config)
         | LookupFeature \<Rightarrow> hash_bucket_size config \<noteq> None
         | ExprFeature \<Rightarrow> True
         | SequenceFeature \<Rightarrow> False"
  shows "parse_feature gfile config self =
           (Some (FeatureKeyError fname),
            self\<lparr>vocab_size := vocab_size (snd (parse_feature gfile config self))\<rparr>)"
proof -
  have ns: "feature_type config \<noteq> SequenceFeature" using assms(3) by auto
  from parse_feature_absent [OF assms(1,2) ns, of gfile] obtain e self1 where
    p: "parse_feature gfile config self = (Some e, self1)"
    and f: "self1 = self\<lparr>vocab_size := vocab_size self1\<rparr>"
    and k: "(e = FeatureKeyError fname) =
              (case feature_type config of
                 IdFeature \<Rightarrow> (\<exists>fc s. id_categorical_column gfile config self = Inr (fc, s))
               | TagFeature \<Rightarrow> (\<exists>fc s. tag_categorical_column gfile config self = Inr (fc, s))
               | RawFeature \<Rightarrow> input_names config \<noteq> []
               | ComboFeature \<Rightarrow> 2 \<le> length (input_names config)
               | LookupFeature \<Rightarrow> hash_bucket_size config \<noteq> None
               | ExprFeature \<Rightarrow> True
               | SequenceFeature \<Rightarrow> False)"
    by blast
  have "e = FeatureKeyError fname"
  proof (cases "feature_type config")
    case IdFeature
    with assms(3) have "\<exists>fc s. id_categorical_column gfile config self = Inr (fc, s)"
      using id_categorical_column_builds [of config gfile self] by simp
    with k IdFeature show ?thesis by simp
  next
    case TagFeature
    with assms(3) have "\<exists>fc s. tag_categorical_column gfile config self = Inr (fc, s)"
      using tag_categorical_column_builds [of config gfile self] by simp
    with k TagFeature show ?thesis by simp
  next
    case RawFeature
    with k assms(3) show ?thesis by simp
  next
    case ComboFeature
    with k assms(3) show ?thesis by simp
  next
    case LookupFeature
    with k assms(3) show ?thesis by simp
  next
    case SequenceFeature
    with assms(3) show ?thesis by simp
  next
    case ExprFeature
    with k show ?thesis by simp
  qed
  with p f show ?thesis by simp
qed


lemma parse_features_dict:
  "parse_features gfile cs s = (e, s') \<Longrightarrow> wide_deep_dict s' = wide_deep_dict s"
proof (induction cs arbitrary: s)
  case Nil
  then show ?case by simp
next
  case (Cons c cs)
  obtain r s1 where p: "parse_feature gfile c s = (r, s1)" by (cases "parse_feature gfile c s")
  from parse_feature_frame [OF p] have w: "wide_deep_dict s1 = wide_deep_dict s" by simp
  show ?case
  proof (cases "parse_features gfile (c # cs) s = parse_features gfile cs s1")
    case True
    with Cons.prems have "parse_features gfile cs s1 = (e, s')" by simp
    from Cons.IH [OF this] w show ?thesis by simp
  next
    case False
    with p have "parse_features gfile (c # cs) s = (r, s1)"
      by (cases r) (auto split: error.splits)
    with Cons.prems w show ?thesis by simp
  qed
qed

lemma parse_features_frame:
  assumes "parse_features gfile cs s = (e, s')"
    and "map_of (wide_deep_dict s) fname = None"
    and "\<forall>c\<in>set cs. primary_name c = Inr fname \<longrightarrow> feature_type c \<noteq> SequenceFeature"
  shows "map_of (deep_columns s') fname = map_of (deep_columns s) fname \<and>
         map_of (wide_columns s') fname = map_of (wide_columns s) fname \<and>
         map_of (sequence_columns s') fname = map_of (sequence_columns s) fname"
  using assms
proof (induction cs arbitrary: s)
  case Nil
  then show ?case by simp
next
  case (Cons c cs)
  obtain r s1 where p: "parse_feature gfile c s = (r, s1)" by (cases "parse_feature gfile c s")
  note fr = parse_feature_frame [OF p]
  have w: "map_of (wide_deep_dict s1) fname = None" using fr Cons.prems(2) by simp
  have rest: "\<forall>c\<in>set cs. primary_name c = Inr fname \<longrightarrow> feature_type c \<noteq> SequenceFeature"
    using Cons.prems(3) by simp
  have same: "map_of (deep_columns s1) fname = map_of (deep_columns s) fname \<and>
         map_of (wide_columns s1) fname = map_of (wide_columns s) fname \<and>
         map_of (sequence_columns s1) fname = map_of (sequence_columns s) fname"
  proof (cases "primary_name c = Inr fname")
    case False
    with fr show ?thesis by simp
  next
    case True
    then have ns: "feature_type c \<noteq> SequenceFeature" using Cons.prems(3) by simp
    from parse_feature_absent [OF True Cons.prems(2) ns, of gfile] p
    have "s1 = s\<lparr>vocab_size := vocab_size s1\<rparr>" by auto
    from vocab_update_frame [OF this] show ?thesis by simp
  qed
  show ?case
  proof (cases "parse_features gfile (c # cs) s = parse_features gfile cs s1")
    case True
    with Cons.prems(1) have "parse_features gfile cs s1 = (e, s')" by simp
    from Cons.IH [OF this w rest] same show ?thesis by simp
  next
    case False
    with p have "parse_features gfile (c # cs) s = (r, s1)"
      by (cases r) (auto split: error.splits)
    with Cons.prems(1) same show ?thesis by simp
  qed
qed

lemma build_shared_columns_frame:
  "build_shared_columns names s = Inr s' \<Longrightarrow>
     deep_columns s' = deep_columns s \<and> wide_columns s' = wide_columns s \<and>
     sequence_columns s' = sequence_columns s"
proof (induction names arbitrary: s)
  case Nil
  then show ?case by simp
next
  case (Cons n names)
  from Cons.prems obtain s1 where
    a: "build_shared_columns names s1 = Inr s'"
    and b: "deep_columns s1 = deep_columns s \<and> wide_columns s1 = wide_columns s \<and>
            sequence_columns s1 = sequence_columns s"
    by (auto simp: Let_def split: option.splits if_splits)
  from Cons.IH [OF a] b show ?case by simp
qed

lemma resolve_columns_keys:
  "resolve_columns deep self cols = Inr cols' \<Longrightarrow> map fst cols' = map fst cols"
proof (induction cols arbitrary: cols')
  case Nil
  then show ?case by simp
next
  case (Cons p cols)
  obtain k fc where p: "p = (k, fc)" by (cases p)
  from Cons.prems p obtain fc' rest' where
    a: "resolve_columns deep self cols = Inr rest'" and b: "cols' = (k, fc') # rest'"
    by (auto split: sum.splits)
  from Cons.IH [OF a] b p show ?case by simp
qed

lemma finish_columns_keys:
  assumes "finish_columns s = Inr p"
  shows "map fst (deep_columns p) = map fst (deep_columns s) \<and>
         map fst (wide_columns p) = map fst (wide_columns s) \<and>
         map fst (sequence_columns p) = map fst (sequence_columns s)"
proof -
  from assms obtain s2 dc wc sc where
    b: "build_shared_columns (map fst (share_embed_names s)) s = Inr s2"
    and d: "resolve_columns True s2 (deep_columns s2) = Inr dc"
    and w: "resolve_columns False s2 (wide_columns s2) = Inr wc"
    and q: "resolve_columns True s2 (sequence_columns s2) = Inr sc"
    and p: "p = s2\<lparr>deep_columns := dc, wide_columns := wc, sequence_columns := sc\<rparr>"
    by (auto simp: finish_columns_def split: sum.splits)
  from build_shared_columns_frame [OF b] resolve_columns_keys [OF d] resolve_columns_keys [OF w]
    resolve_columns_keys [OF q] p
  show ?thesis by simp
qed

lemma map_of_None_keys:
  "map fst xs = map fst ys \<Longrightarrow> (map_of xs k = None) = (map_of ys k = None)"
  by (metis map_of_eq_None_iff set_map)


lemma get_vocab_size_dict:
  "get_vocab_size gfile p (s\<lparr>wide_deep_dict := d\<rparr>) =
     (case get_vocab_size gfile p s of
        Inl e \<Rightarrow> Inl e
      | Inr (n, s1) \<Rightarrow> Inr (n, s1\<lparr>wide_deep_dict := d\<rparr>))"
  by (simp add: get_vocab_size_def split: option.splits)

lemma sequence_sub_column_dict:
  "sequence_sub_column gfile c i (s\<lparr>wide_deep_dict := d\<rparr>) =
     (case sequence_sub_column gfile c i s of
        Inl e \<Rightarrow> Inl e
      | Inr (fc, s1) \<Rightarrow> Inr (fc, s1\<lparr>wide_deep_dict := d\<rparr>))"
  by (simp add: sequence_sub_column_def get_vocab_size_dict Let_def split: sum.splits)

lemma add_shared_dict:
  "add_shared_embedding_column en fc deep (s\<lparr>wide_deep_dict := d\<rparr>) =
     (case add_shared_embedding_column en fc deep s of
        Inl e \<Rightarrow> Inl e
      | Inr (h, s1) \<Rightarrow> Inr (h, s1\<lparr>wide_deep_dict := d\<rparr>))"
  by (simp add: add_shared_embedding_column_def split: option.splits)

lemma add_deep_dict:
  "add_deep_embedding_column fc c (s\<lparr>wide_deep_dict := d\<rparr>) =
     (case add_deep_embedding_column fc c s of
        Inl e \<Rightarrow> Inl e
      | Inr s1 \<Rightarrow> Inr (s1\<lparr>wide_deep_dict := d\<rparr>))"
  by (simp add: add_deep_embedding_column_def add_shared_dict build_partitioner_def Let_def
        split: sum.splits)

lemma parse_sequence_dict:
  "parse_sequence_feature gfile c (s\<lparr>wide_deep_dict := d\<rparr>) =
     (fst (parse_sequence_feature gfile c s),
      (snd (parse_sequence_feature gfile c s))\<lparr>wide_deep_dict := d\<rparr>)"
proof (cases "primary_name c")
  case (Inl err)
  then show ?thesis by (simp add: parse_sequence_feature_def)
next
  case (Inr fname)
  show ?thesis
  proof (cases "sub_feature_type c = IdFeature \<or> sub_feature_type c = RawFeature")
    case False
    with Inr show ?thesis by (simp add: parse_sequence_feature_def)
  next
    case True
    show ?thesis
    proof (cases "input_names_0 c")
      case (Inl err)
      with Inr True show ?thesis by (simp add: parse_sequence_feature_def)
    next
      case i: (Inr input_0)
      show ?thesis
      proof (cases "sequence_sub_column gfile c input_0 s")
        case (Inl err)
        with Inr True i show ?thesis
          by (simp add: parse_sequence_feature_def sequence_sub_column_dict)
      next
        case p: (Inr p)
        obtain fc s1 where q: "p = (fc, s1)" by (cases p)
        show ?thesis
        proof (cases "embedding_dim c > 0")
          case False
          with Inr True i p q show ?thesis
            by (simp add: parse_sequence_feature_def sequence_sub_column_dict)
        next
          case ed: True
          show ?thesis
          proof (cases "add_deep_embedding_column fc c s1")
            case (Inl err)
            with Inr True i p q ed show ?thesis
              by (simp add: parse_sequence_feature_def sequence_sub_column_dict add_deep_dict)
          next
            case s2: (Inr s2)
            with Inr True i p q ed show ?thesis
              by (simp add: parse_sequence_feature_def sequence_sub_column_dict add_deep_dict)
          qed
        qed
      qed
    qed
  qed
qed

lemma add_deep_sequence_stored:
  "add_deep_embedding_column fc c s = Inr s' \<Longrightarrow> feature_type c = SequenceFeature \<Longrightarrow>
     primary_name c = Inr fname \<Longrightarrow> map_of (sequence_columns s') fname \<noteq> None"
  by (auto simp: add_deep_embedding_column_def update_conv Let_def
        split: if_splits sum.splits)

lemma parse_sequence_stored:
  assumes "parse_sequence_feature gfile c s = (None, s')"
    and "feature_type c = SequenceFeature" and "primary_name c = Inr fname"
  shows "map_of (sequence_columns s') fname \<noteq> None"
proof -
  from assms(1,3) obtain input_0 fc s1 where
    q: "sequence_sub_column gfile c input_0 s = Inr (fc, s1)"
    and r: "(if embedding_dim c > 0
             then (case add_deep_embedding_column fc c s1 of
                     Inl e \<Rightarrow> (Some e, s1)
                   | Inr s2 \<Rightarrow> (None, s2))
             else (None, s1\<lparr>sequence_columns :=
                     AList.update fname fc (sequence_columns s1)\<rparr>)) = (None, s')"
    by (auto simp: parse_sequence_feature_def split: if_splits sum.splits)
  show ?thesis
  proof (cases "embedding_dim c > 0")
    case True
    with r have "add_deep_embedding_column fc c s1 = Inr s'" by (auto split: sum.splits)
    then show ?thesis using assms(2,3) by (rule add_deep_sequence_stored)
  next
    case False
    with r show ?thesis by (auto simp: update_conv)
  qed
qed

lemma add_shared_no_key_error:
  "add_shared_embedding_column en fc deep s = Inl e \<Longrightarrow> e \<noteq> FeatureKeyError n"
  by (auto simp: add_shared_embedding_column_def split: option.splits if_splits)

lemma add_deep_no_key_error:
  "add_deep_embedding_column fc c s = Inl e \<Longrightarrow> e \<noteq> FeatureKeyError n"
  by (auto simp: add_deep_embedding_column_def primary_name_def input_names_0_def Let_def
        split: if_splits sum.splits option.splits list.splits dest: add_shared_no_key_error)

lemma sequence_sub_column_no_key_error:
  "sequence_sub_column gfile c i s = Inl e \<Longrightarrow> e \<noteq> FeatureKeyError n"
  by (auto simp: sequence_sub_column_def get_vocab_size_def Let_def
        split: if_splits sum.splits option.splits)

lemma parse_sequence_no_key_error:
  "parse_sequence_feature gfile c s = (Some e, s') \<Longrightarrow> e \<noteq> FeatureKeyError n"
  by (auto simp: parse_sequence_feature_def primary_name_def input_names_0_def
        split: if_splits sum.splits option.splits list.splits
        dest: add_deep_no_key_error sequence_sub_column_no_key_error)


lemma init_skips:
  assumes "primary_name config = Inr fname"
    and "map_of wd_dict fname = None"
    and "case feature_type config of
           IdFeature \<Rightarrow> input_names config \<noteq> [] \<and>
             (\<not> hash_bucket_size_val config > 0 \<and> vocab_list config = [] \<and>
              vocab_file config \<noteq> [] \<longrightarrow> gfile (vocab_file config) \<noteq> None)
         | TagFeature \<Rightarrow> input_names config \<noteq> [] \<and>
             (hash_bucket_size config = None \<and> vocab_list config = [] \<and>
              vocab_file config \<noteq> [] \<longrightarrow> gfile (vocab_file config) \<noteq> None)
         | RawFeature \<Rightarrow> input_names config \<noteq> []
         | ComboFeature \<Rightarrow> 2 \<le> length (input_names config)
         | LookupFeature \<Rightarrow> hash_bucket_size config \<noteq> None
         | ExprFeature \<Rightarrow> True
         | SequenceFeature \<Rightarrow> False"
  shows "FeatureColumnParser_init gfile (pre @ config # post) wd_dict wide_dim use_ev =
           (case share_embed_tables (pre @ config # post) of
              Inl e \<Rightarrow> Inl e
            | Inr (names, infos) \<Rightarrow>
                (case parse_features gfile pre
                        (new_parser names infos wd_dict wide_dim use_ev) of
                   (Some e, s) \<Rightarrow> Inl e
                 | (None, s) \<Rightarrow>
                     (case parse_features gfile post
                             (s\<lparr>vocab_size :=
                                  vocab_size (snd (parse_feature gfile config s))\<rparr>) of
                        (Some e, s') \<Rightarrow> Inl e
                      | (None, s') \<Rightarrow> finish_columns s')))"
proof (cases "share_embed_tables (pre @ config # post)")
  case (Inl e)
  then show ?thesis by (simp add: FeatureColumnParser_init_def)
next
  case (Inr t)
  obtain names infos where t: "t = (names, infos)" by (cases t)
  let ?s0 = "new_parser names infos wd_dict wide_dim use_ev"
  obtain r s where p: "parse_features gfile pre ?s0 = (r, s)"
    by (cases "parse_features gfile pre ?s0")
  show ?thesis
  proof (cases r)
    case (Some e)
    with Inr t p show ?thesis
      by (simp add: FeatureColumnParser_init_def parse_features_append)
  next
    case None
    have "wide_deep_dict s = wide_deep_dict ?s0" using p by (rule parse_features_dict)
    then have w: "map_of (wide_deep_dict s) fname = None"
      using assms(2) by (simp add: new_parser_def)
    note k = parse_feature_skipped [of config fname s gfile, OF assms(1) w assms(3)]
    have "parse_features gfile (config # post) s =
            parse_features gfile post
              (s\<lparr>vocab_size := vocab_size (snd (parse_feature gfile config s))\<rparr>)"
      by (subst parse_features.simps(2), subst k) simp
    with Inr t p None show ?thesis
      by (simp add: FeatureColumnParser_init_def parse_features_append)
  qed
qed

lemma init_no_column:
  assumes "map_of wd_dict fname = None"
    and "\<forall>c\<in>set cs. primary_name c = Inr fname \<longrightarrow> feature_type c \<noteq> SequenceFeature"
    and "FeatureColumnParser_init gfile cs wd_dict wide_dim use_ev = Inr p"
  shows "map_of (deep_columns p) fname = None \<and> map_of (wide_columns p) fname = None \<and>
         map_of (sequence_columns p) fname = None"
proof -
  from assms(3) obtain names infos s1 where
    a: "parse_features gfile cs (new_parser names infos wd_dict wide_dim use_ev) = (None, s1)"
    and f: "finish_columns s1 = Inr p"
    by (auto simp: FeatureColumnParser_init_def split: sum.splits prod.splits option.splits)
  have w: "map_of (wide_deep_dict (new_parser names infos wd_dict wide_dim use_ev)) fname = None"
    using assms(1) by (simp add: new_parser_def)
  from parse_features_frame [OF a w assms(2)]
  have "map_of (deep_columns s1) fname = None \<and> map_of (wide_columns s1) fname = None \<and>
        map_of (sequence_columns s1) fname = None"
    by (simp add: new_parser_def)
  with finish_columns_keys [OF f] show ?thesis
    using map_of_None_keys by metis
qed


text \<open>
  Claim C5, as amended. Let the primary name of a feature (the feature name, or the first
  input name when that is unset) be missing from the wide/deep dictionary. If the feature
  is of any type but Sequence and its own column is built without failure (an Id or Tag
  feature has an input name and a readable vocabulary file, a Raw feature has an input
  name, a Combo feature has two input names, a Lookup feature has hash\_bucket\_size set),
  the constructor runs as if the second loop had not met the feature, apart from the
  vocabulary-size cache: the configs before it and after it are parsed in turn and the
  final loops follow. The shared-embedding tables of the first loop are still those of
  the whole catalogue, the skipped feature included. Whenever the constructor returns, no
  deep, wide or sequence column is stored under a name that is missing from the dictionary
  and is not the name of a Sequence feature. A Sequence feature is not subject to the
  dictionary: its parse method gives the same result whatever the dictionary holds, never
  raises the FeatureKeyError, and whenever it completes it has stored a column under the
  feature's name in the sequence table.
\<close>

theorem unconfigured_feature_skipped:
  assumes "primary_name config = Inr fname"
    and "map_of wd_dict fname = None"
  shows
    "((case feature_type config of
         IdFeature \<Rightarrow> input_names config \<noteq> [] \<and>
           (\<not> hash_bucket_size_val config > 0 \<and> vocab_list config = [] \<and>
            vocab_file config \<noteq> [] \<longrightarrow> gfile (vocab_file config) \<noteq> None)
       | TagFeature \<Rightarrow> input_names config \<noteq> [] \<and>
           (hash_bucket_size config = None \<and> vocab_list config = [] \<and>
            vocab_file config \<noteq> [] \<longrightarrow> gfile (vocab_file config) \<noteq> None)
       | RawFeature \<Rightarrow> input_names config \<noteq> []
       | ComboFeature \<Rightarrow> 2 \<le> length (input_names config)
       | LookupFeature \<Rightarrow> hash_bucket_size config \<noteq> None
       | ExprFeature \<Rightarrow> True
       | SequenceFeature \<Rightarrow> False) \<longrightarrow>
        FeatureColumnParser_init gfile (pre @ config # post) wd_dict wide_dim use_ev =
          (case share_embed_tables (pre @ config # post) of
             Inl e \<Rightarrow> Inl e
           | Inr (names, infos) \<Rightarrow>
               (case parse_features gfile pre
                       (new_parser names infos wd_dict wide_dim use_ev) of
                  (Some e, s) \<Rightarrow> Inl e
                | (None, s) \<Rightarrow>
                    (case parse_features gfile post
                            (s\<lparr>vocab_size :=
                                 vocab_size (snd (parse_feature gfile config s))\<rparr>) of
                       (Some e, s') \<Rightarrow> Inl e
                     | (None, s') \<Rightarrow> finish_columns s')))) \<and>
     ((\<forall>c\<in>set cs. primary_name c = Inr fname \<longrightarrow> feature_type c \<noteq> SequenceFeature) \<longrightarrow>
        (\<forall>p. FeatureColumnParser_init gfile cs wd_dict wide_dim use_ev = Inr p \<longrightarrow>
           map_of (deep_columns p) fname = None \<and> map_of (wide_columns p) fname = None \<and>
           map_of (sequence_columns p) fname = None)) \<and>
     (feature_type config = SequenceFeature \<longrightarrow>
        (\<forall>s d. parse_feature gfile config (s\<lparr>wide_deep_dict := d\<rparr>) =
           (fst (parse_feature gfile config s),
            (snd (parse_feature gfile config s))\<lparr>wide_deep_dict := d\<rparr>)) \<and>
        (\<forall>s s'. parse_feature gfile config s = (None, s') \<longrightarrow>
           map_of (sequence_columns s') fname \<noteq> None) \<and>
        (\<forall>s e s' n. parse_feature gfile config s = (Some e, s') \<longrightarrow> e \<noteq> FeatureKeyError n) \<and>
        (\<forall>h input_0 others s.
           sub_feature_type config = IdFeature \<and> hash_bucket_size config = Some h \<and>
           input_names config = input_0 # others \<and> \<not> embedding_dim config > 0 \<longrightarrow>
           parse_feature gfile config s =
             (None, s\<lparr>sequence_columns :=
                      AList.update fname (sequence_categorical_column_with_hash_bucket input_0 h)
                        (sequence_columns s)\<rparr>)))"
proof (intro conjI impI allI)
  assume "case feature_type config of
         IdFeature \<Rightarrow> input_names config \<noteq> [] \<and>
           (\<not> hash_bucket_size_val config > 0 \<and> vocab_list config = [] \<and>
            vocab_file config \<noteq> [] \<longrightarrow> gfile (vocab_file config) \<noteq> None)
       | TagFeature \<Rightarrow> input_names config \<noteq> [] \<and>
           (hash_bucket_size config = None \<and> vocab_list config = [] \<and>
            vocab_file config \<noteq> [] \<longrightarrow> gfile (vocab_file config) \<noteq> None)
       | RawFeature \<Rightarrow> input_names config \<noteq> []
       | ComboFeature \<Rightarrow> 2 \<le> length (input_names config)
       | LookupFeature \<Rightarrow> hash_bucket_size config \<noteq> None
       | ExprFeature \<Rightarrow> True
       | SequenceFeature \<Rightarrow> False"
  with assms show "FeatureColumnParser_init gfile (pre @ config # post) wd_dict wide_dim use_ev =
          (case share_embed_tables (pre @ config # post) of
             Inl e \<Rightarrow> Inl e
           | Inr (names, infos) \<Rightarrow>
               (case parse_features gfile pre
                       (new_parser names infos wd_dict wide_dim use_ev) of
                  (Some e, s) \<Rightarrow> Inl e
                | (None, s) \<Rightarrow>
                    (case parse_features gfile post
                            (s\<lparr>vocab_size :=
                                 vocab_size (snd (parse_feature gfile config s))\<rparr>) of
                       (Some e, s') \<Rightarrow> Inl e
                     | (None, s') \<Rightarrow> finish_columns s')))"
    by (rule init_skips)
next
  fix p
  assume a: "\<forall>c\<in>set cs. primary_name c = Inr fname \<longrightarrow> feature_type c \<noteq> SequenceFeature"
    and b: "FeatureColumnParser_init gfile cs wd_dict wide_dim use_ev = Inr p"
  from init_no_column [OF assms(2) a b]
  show "map_of (deep_columns p) fname = None" "map_of (wide_columns p) fname = None"
    "map_of (sequence_columns p) fname = None"
    by simp_all
next
  fix s d
  assume "feature_type config = SequenceFeature"
  then show "parse_feature gfile config (s\<lparr>wide_deep_dict := d\<rparr>) =
           (fst (parse_feature gfile config s),
            (snd (parse_feature gfile config s))\<lparr>wide_deep_dict := d\<rparr>)"
    by (simp add: parse_feature_def parse_sequence_dict)
next
  fix s s'
  assume t: "feature_type config = SequenceFeature"
    and "parse_feature gfile config s = (None, s')"
  then have "parse_sequence_feature gfile config s = (None, s')"
    by (simp add: parse_feature_def)
  then show "map_of (sequence_columns s') fname \<noteq> None"
    using t assms(1) by (rule parse_sequence_stored)
next
  fix s e s' n
  assume "feature_type config = SequenceFeature"
    and "parse_feature gfile config s = (Some e, s')"
  then have "parse_sequence_feature gfile config s = (Some e, s')"
    by (simp add: parse_feature_def)
  then show "e \<noteq> FeatureKeyError n" by (rule parse_sequence_no_key_error)
next
  fix h input_0 others s
  assume t: "feature_type config = SequenceFeature"
    and "sub_feature_type config = IdFeature \<and> hash_bucket_size config = Some h \<and>
           input_names config = input_0 # others \<and> \<not> embedding_dim config > 0"
  then show "parse_feature gfile config s =
             (None, s\<lparr>sequence_columns :=
                      AList.update fname (sequence_categorical_column_with_hash_bucket input_0 h)
                        (sequence_columns s)\<rparr>)"
    using assms(1)
    by (simp add: parse_feature_def parse_sequence_feature_def sequence_sub_column_def
          input_names_0_def hash_bucket_size_val_def)
qed


theorem unconfigured_feature_skipped_witness:
  "FeatureColumnParser_init (\<lambda>p. None)
     [example_config\<lparr>hash_bucket_size := Some 10\<rparr>,
      example_config\<lparr>input_names := [''g''], hash_bucket_size := Some 10,
                       embedding_dim := 4\<rparr>] [(''g'', DEEP)] 1 False =
     Inr (example_parser\<lparr>deep_columns :=
        [(''g'', embedding_column (categorical_column_with_hash_bucket ''g'' 10) 4 ''mean''
                  None None False)]\<rparr>) \<and>
   map_of (deep_columns (example_parser\<lparr>deep_columns :=
        [(''g'', embedding_column (categorical_column_with_hash_bucket ''g'' 10) 4 ''mean''
                  None None False)]\<rparr>)) ''f'' = None \<and>
   parse_feature (\<lambda>p. None)
     (example_config\<lparr>feature_type := SequenceFeature, hash_bucket_size := Some 10\<rparr>)
     example_parser =
     (None, example_parser\<lparr>sequence_columns :=
        [(''f'', sequence_categorical_column_with_hash_bucket ''f'' 10)]\<rparr>)"
proof -
  let ?f = "example_config\<lparr>hash_bucket_size := Some 10\<rparr>"
  let ?g = "example_config\<lparr>input_names := [''g''], hash_bucket_size := Some 10,
                            embedding_dim := 4\<rparr>"
  let ?q = "example_config\<lparr>feature_type := SequenceFeature, hash_bucket_size := Some 10\<rparr>"
  let ?r = "example_parser\<lparr>deep_columns :=
        [(''g'', embedding_column (categorical_column_with_hash_bucket ''g'' 10) 4 ''mean''
                  None None False)]\<rparr>"
  have n: "primary_name ?f = Inr ''f''"
    by (simp add: example_config_def primary_name_def input_names_0_def)
  have m: "map_of [(''g'', DEEP)] ''f'' = None" by simp
  have o: "case feature_type ?f of
         IdFeature \<Rightarrow> input_names ?f \<noteq> [] \<and>
           (\<not> hash_bucket_size_val ?f > 0 \<and> vocab_list ?f = [] \<and>
            vocab_file ?f \<noteq> [] \<longrightarrow> (\<lambda>p. None :: nat option) (vocab_file ?f) \<noteq> None)
       | TagFeature \<Rightarrow> input_names ?f \<noteq> [] \<and>
           (hash_bucket_size ?f = None \<and> vocab_list ?f = [] \<and>
            vocab_file ?f \<noteq> [] \<longrightarrow> (\<lambda>p. None :: nat option) (vocab_file ?f) \<noteq> None)
       | RawFeature \<Rightarrow> input_names ?f \<noteq> []
       | ComboFeature \<Rightarrow> 2 \<le> length (input_names ?f)
       | LookupFeature \<Rightarrow> hash_bucket_size ?f \<noteq> None
       | ExprFeature \<Rightarrow> True
       | SequenceFeature \<Rightarrow> False"
    by (simp add: example_config_def hash_bucket_size_val_def)
  have t: "share_embed_tables [?f, ?g] = Inr ([], [])"
    by (simp add: share_embed_tables_def example_config_def not_shared_names_def)
  have k: "parse_features (\<lambda>p. None) [?g]
             (new_parser [] [] [(''g'', DEEP)] 1 False\<lparr>vocab_size :=
                vocab_size (snd (parse_feature (\<lambda>p. None) ?f
                                   (new_parser [] [] [(''g'', DEEP)] 1 False)))\<rparr>) =
           (None, ?r)"
    by code_simp
  have fin: "finish_columns ?r = Inr ?r" by code_simp
  have a: "FeatureColumnParser_init (\<lambda>p. None) [?f, ?g] [(''g'', DEEP)] 1 False = Inr ?r"
    using unconfigured_feature_skipped [OF n m, of "\<lambda>p. None" "[]" "[?g]" 1 False,
            THEN conjunct1, THEN mp, OF o]
    by (simp add: t k fin del: parse_features.simps(2))
  have nq: "primary_name ?q = Inr ''f''"
    by (simp add: example_config_def primary_name_def input_names_0_def)
  have e: "map_of ([] :: (string \<times> wide_or_deep) list) ''f'' = None" by simp
  have h: "\<forall>c\<in>set [?f, ?g]. primary_name c = Inr ''f'' \<longrightarrow> feature_type c \<noteq> SequenceFeature"
    by (simp add: example_config_def)
  have b: "map_of (deep_columns ?r) ''f'' = None"
    using unconfigured_feature_skipped [OF n m, of "\<lambda>p. None" "[]" "[]" 1 False "[?f, ?g]",
            THEN conjunct2, THEN conjunct1, THEN mp, OF h, THEN spec, THEN mp, OF a]
    by simp
  have sq: "feature_type ?q = SequenceFeature" by simp
  have c: "parse_feature (\<lambda>p. None) ?q example_parser =
     (None, example_parser\<lparr>sequence_columns :=
        [(''f'', sequence_categorical_column_with_hash_bucket ''f'' 10)]\<rparr>)"
    using unconfigured_feature_skipped [OF nq e, of "\<lambda>p. None" "[]" "[]" 1 False "[]",
            THEN conjunct2, THEN conjunct2, THEN mp, OF sq, THEN conjunct2, THEN conjunct2,
            THEN conjunct2, THEN spec, THEN spec, THEN spec, THEN spec,
            of 10 "''f''" "[]" example_parser]
    by (simp add: example_config_def example_parser_def)
  from a b c show ?thesis by simp
qed

text \<open>
  The claim as stated fails. A Sequence feature over a hash bucket whose name the
  dictionary lacks gets its sequence column. And a feature the second loop skips is not
  skipped entirely: it has been counted in the first loop, so that the feature f, alone
  under its embedding name among the features of the dictionary, gets a shared column
  instead of a column of its own.
\<close>

theorem unconfigured_feature_counterexample:
  "primary_name (example_config\<lparr>feature_type := SequenceFeature,
                    hash_bucket_size := Some 10, embedding_dim := 8\<rparr>) = Inr ''f'' \<and>
   FeatureColumnParser_init (\<lambda>p. None)
     [example_config\<lparr>feature_type := SequenceFeature, hash_bucket_size := Some 10,
                      embedding_dim := 8\<rparr>] [] 1 False =
     Inr \<lparr>wide_output_dim = 1, wide_deep_dict = [], deep_columns = [], wide_columns = [],
          sequence_columns =
            [(''f'', embedding_column (sequence_categorical_column_with_hash_bucket ''f'' 10)
                       8 ''mean'' None None False)],
          share_embed_names = [], share_embed_infos = [],
          deep_share_embed_columns = [], wide_share_embed_columns = [],
          use_embedding_variable = False, vocab_size = []\<rparr> \<and>
   FeatureColumnParser_init (\<lambda>p. None)
     [example_config\<lparr>hash_bucket_size := Some 10, embedding_name := Some ''e'',
                      embedding_dim := 8\<rparr>,
      example_config\<lparr>input_names := [''g''], hash_bucket_size := Some 10,
                      embedding_name := Some ''e'', embedding_dim := 8\<rparr>]
     [(''f'', DEEP)] 1 False =
     Inr \<lparr>wide_output_dim = 1, wide_deep_dict = [(''f'', DEEP)],
          deep_columns =
            [(''f'', with_sequence_combiner
                       (shared_embedding_column (categorical_column_with_hash_bucket ''f'' 10)
                          ''e'' 8 ''mean'' None None False) None)],
          wide_columns = [], sequence_columns = [],
          share_embed_names = [(''e'', 2)],
          share_embed_infos =
            [(''e'', \<lparr>info_embedding_dim = 8, info_combiner = ''mean'',
                       info_initializer = None, info_max_partitions = 1\<rparr>)],
          deep_share_embed_columns =
            [(''e'', [shared_embedding_column (categorical_column_with_hash_bucket ''f'' 10)
                        ''e'' 8 ''mean'' None None False])],
          wide_share_embed_columns = [(''e'', [])],
          use_embedding_variable = False, vocab_size = []\<rparr> \<and>
   FeatureColumnParser_init (\<lambda>p. None)
     [example_config\<lparr>hash_bucket_size := Some 10, embedding_name := Some ''e'',
                      embedding_dim := 8\<rparr>]
     [(''f'', DEEP)] 1 False =
     Inr \<lparr>wide_output_dim = 1, wide_deep_dict = [(''f'', DEEP)],
          deep_columns =
            [(''f'', embedding_column (categorical_column_with_hash_bucket ''f'' 10) 8 ''mean''
                       None None False)],
          wide_columns = [], sequence_columns = [],
          share_embed_names = [], share_embed_infos = [],
          deep_share_embed_columns = [], wide_share_embed_columns = [],
          use_embedding_variable = False, vocab_size = []\<rparr>"
  by code_simp

section \<open>Properties of the preprocessor\<close>

lemma rbind_Inl [simp]: "rbind (Inl e) f = Inl e"
  by (simp add: rbind_def)

lemma rbind_Inr [simp]: "rbind (Inr x) f = f x"
  by (simp add: rbind_def)

lemma rbind_eq_Inr:
  "(rbind m f = Inr y) = (\<exists>x. m = Inr x \<and> f x = Inr y)"
  by (cases m) simp_all

subsection \<open>Id features with hash bucketing\<close>

text \<open>
  Claim C8. For an Id feature with hash\_bucket\_size set whose field is numeric: when the
  dtype is floating, the step fails if and only if the precision is not positive, and
  with a positive precision every number is converted to a string with that precision;
  when the dtype is an integer one, every number is converted to a string with the default
  precision, whatever the precision field holds.
\<close>

theorem id_hash_float_precision:
  assumes "input_names fc = input_0 # others"
    and "map_of field_dict input_0 = Some field"
    and "hash_bucket_size fc \<noteq> None"
    and "elems field = NumData ty xs"
  shows "((ty = FLOAT \<or> ty = DOUBLE) \<longrightarrow>
            ((\<exists>e. preprocess_id env fc field_dict st = Inl e) = (\<not> precision fc > 0))) \<and>
         ((ty = FLOAT \<or> ty = DOUBLE) \<and> precision fc > 0 \<longrightarrow>
            preprocess_id env fc field_dict st =
              Inr (set_parsed input_0
                     (Dense (DenseT (shape field)
                        (StrData (map (num2str env ty (Some (precision fc))) xs)))) st)) \<and>
         ((ty = INT32 \<or> ty = INT64) \<longrightarrow>
            preprocess_id env fc field_dict st =
              Inr (set_parsed input_0
                     (Dense (DenseT (shape field) (StrData (map (num2str env ty None) xs)))) st))"
  using assms
  by (auto simp: preprocess_id_def input_names_0_def field_lookup_def is_string_def
        is_floating_def as_string_def)

theorem id_hash_float_precision_witness:
  "preprocess_id example_env (example_config\<lparr>hash_bucket_size := Some 10\<rparr>)
     [(''f'', DenseT [1] (NumData FLOAT [1]))] empty_state =
     Inl (AssertionError ''it is dangerous to convert float or double to string'') \<and>
   preprocess_id example_env (example_config\<lparr>hash_bucket_size := Some 10, precision := 2\<rparr>)
     [(''f'', DenseT [1] (NumData FLOAT [1]))] empty_state =
     Inr \<lparr>parsed_dict = [(''f'', Dense (DenseT [1] (StrData [''1.00''])))],
          appended_fields = []\<rparr> \<and>
   preprocess_id example_env (example_config\<lparr>hash_bucket_size := Some 10\<rparr>)
     [(''f'', DenseT [1] (NumData INT64 [1]))] empty_state =
     Inr \<lparr>parsed_dict = [(''f'', Dense (DenseT [1] (StrData [''1.00''])))],
          appended_fields = []\<rparr>"
  using id_hash_float_precision
          [of "example_config\<lparr>hash_bucket_size := Some 10\<rparr>" "''f''" "[]"
              "[(''f'', DenseT [1] (NumData FLOAT [1]))]" "DenseT [1] (NumData FLOAT [1])"
              FLOAT "[1]" example_env empty_state]
    id_hash_float_precision
          [of "example_config\<lparr>hash_bucket_size := Some 10, precision := 2\<rparr>" "''f''" "[]"
              "[(''f'', DenseT [1] (NumData FLOAT [1]))]" "DenseT [1] (NumData FLOAT [1])"
              FLOAT "[1]" example_env empty_state]
    id_hash_float_precision
          [of "example_config\<lparr>hash_bucket_size := Some 10\<rparr>" "''f''" "[]"
              "[(''f'', DenseT [1] (NumData INT64 [1]))]" "DenseT [1] (NumData INT64 [1])"
              INT64 "[1]" example_env empty_state]
  by (simp add: example_config_def example_env_def empty_state_def preprocess_id_def
        input_names_0_def field_lookup_def is_string_def is_floating_def as_string_def
        set_parsed_def)

subsection \<open>The sample-weight field as a raw feature\<close>

lemma set_parsed_frame:
  "k \<noteq> input_0 \<Longrightarrow> map_of (parsed_dict (set_parsed input_0 t st)) k = map_of (parsed_dict st) k"
  "appended_fields (set_parsed input_0 t st) = appended_fields st"
  by (simp_all add: set_parsed_def update_conv)

text \<open>
  Claim C10. When the first input field of a Raw feature is the configured sample-weight
  field, the step only stores the parsed dense value under the input name: nothing is
  appended to the appended fields and the two projection keys are left as they were,
  whatever boundaries and num\_buckets are. The same holds for a Sequence feature: both
  projection branches are skipped and only the split result is stored.
\<close>

theorem sample_weight_raw_projection_suppressed:
  assumes "input_names fc = input_0 # others"
    and "sample_weight_val self = input_0"
    and "map_of field_dict input_0 = Some field"
  shows "preprocess_raw env self fc field_dict st =
           rbind (raw_dense env fc field) (\<lambda>parsed. Inr (set_parsed input_0 (Dense parsed) st)) \<and>
         preprocess_sequence env self fc field_dict st =
           rbind (if length (shape field) < 2 then sequence_split env fc field
                  else Inr (Dense field)) (\<lambda>parsed. Inr (set_parsed input_0 parsed st)) \<and>
         (\<forall>t. appended_fields (set_parsed input_0 t st) = appended_fields st \<and>
              map_of (parsed_dict (set_parsed input_0 t st)) (input_0 @ ''_raw_proj_id'') =
                map_of (parsed_dict st) (input_0 @ ''_raw_proj_id'') \<and>
              map_of (parsed_dict (set_parsed input_0 t st)) (input_0 @ ''_raw_proj_val'') =
                map_of (parsed_dict st) (input_0 @ ''_raw_proj_val''))"
  using assms
  by (simp add: preprocess_raw_def preprocess_sequence_def input_names_0_def field_lookup_def
        Let_def set_parsed_frame)

theorem sample_weight_raw_projection_suppressed_witness:
  "preprocess_raw example_env example_input
     (example_config\<lparr>feature_type := RawFeature, input_names := [''w'']\<rparr>)
     [(''w'', DenseT [2] (NumData FLOAT [1, 2]))] empty_state =
     Inr \<lparr>parsed_dict = [(''w'', Dense (DenseT [2] (NumData FLOAT [1, 2])))],
          appended_fields = []\<rparr> \<and>
   preprocess_sequence example_env example_input
     (example_config\<lparr>feature_type := SequenceFeature, sub_feature_type := RawFeature,
                      input_names := [''w'']\<rparr>)
     [(''w'', DenseT [1] (StrData [''1,2'']))] empty_state =
     Inr \<lparr>parsed_dict = [(''w'', Sparse [[0, 0], [0, 1]] (NumData FLOAT [1, 2]) [1, 2])],
          appended_fields = []\<rparr> \<and>
   preprocess_raw example_env example_input
     (example_config\<lparr>feature_type := RawFeature\<rparr>)
     [(''f'', DenseT [2] (NumData FLOAT [1, 2]))] empty_state =
     Inr \<lparr>parsed_dict =
            [(''f'', Dense (DenseT [2] (NumData FLOAT [1, 2]))),
             (''f_raw_proj_id'', Sparse [[0, 0], [1, 0]] (NumData INT64 [0, 0]) [2, 1]),
             (''f_raw_proj_val'', Sparse [[0, 0], [1, 0]] (NumData FLOAT [1, 2]) [2, 1])],
          appended_fields = [''f_raw_proj_id'', ''f_raw_proj_val'']\<rparr>"
  using sample_weight_raw_projection_suppressed
          [of "example_config\<lparr>feature_type := RawFeature, input_names := [''w'']\<rparr>" "''w''"
              "[]" example_input "[(''w'', DenseT [2] (NumData FLOAT [1, 2]))]"
              "DenseT [2] (NumData FLOAT [1, 2])" example_env empty_state]
    sample_weight_raw_projection_suppressed
          [of "example_config\<lparr>feature_type := SequenceFeature, sub_feature_type := RawFeature,
                               input_names := [''w'']\<rparr>" "''w''"
              "[]" example_input "[(''w'', DenseT [1] (StrData [''1,2'']))]"
              "DenseT [1] (StrData [''1,2''])" example_env empty_state]
  by (simp add: example_config_def example_input_def example_env_def empty_state_def
        sample_weight_val_def preprocess_raw_def raw_dense_def raw_parse_def raw_proj_def
        to_float_def input_names_0_def field_lookup_def set_parsed_def append_field_def
        tiled_rows_def tiled_cols_def concat_axis1_def
        sequence_split_def strings_split_def split_tokens_v2_def sparse_of_rows_def
        row_indices_def max_row_length_def string_to_number_data_def upt_rec Let_def
        numeral_2_eq_2)


subsection \<open>Labels\<close>

lemma string_to_number_length:
  "string_to_number env ty ss = Inr xs \<Longrightarrow> length xs = length ss"
  by (induction ss arbitrary: xs) (auto split: option.splits sum.splits)

lemma length_concat_rows:
  "\<forall>r\<in>set rows. length r = d \<Longrightarrow> length (concat rows) = length rows * d"
  by (induction rows) simp_all

lemma label_parsing_result:
  assumes "preprocess_label env self input_id input_name field = Inr out"
  shows "is_numeric (elems out) \<and>
         (case elems field of
            StrData ss \<Rightarrow>
              (\<exists>xs. elems out = NumData FLOAT xs \<and>
                 (if label_dim self ! input_id > 1
                  then string_to_number env FLOAT
                         (concat (map (split_tokens (label_sep self ! input_id) True) ss)) = Inr xs \<and>
                       nat (label_dim self ! input_id) dvd length xs \<and>
                       shape out = [length xs div nat (label_dim self ! input_id),
                                    nat (label_dim self ! input_id)]
                  else string_to_number env FLOAT ss = Inr xs \<and> shape out = shape field))
          | NumData ty xs \<Rightarrow> out = field
          | BoolData bs \<Rightarrow> False)"
proof (cases "elems field")
  case (StrData ss)
  show ?thesis
  proof (cases "label_dim self ! input_id > 1")
    case True
    from assms StrData True obtain toks shp' xs where
      t: "toks = concat (map (split_tokens (label_sep self ! input_id) True) ss)"
      and r: "reshape_rows (length toks) (nat (label_dim self ! input_id)) = Inr shp'"
      and n: "string_to_number env FLOAT toks = Inr xs"
      and o: "out = DenseT shp' (NumData FLOAT xs)"
      by (auto simp: preprocess_label_def rbind_eq_Inr string_split_def sparse_of_rows_def
            string_to_number_data_def split: if_splits)
    have "length xs = length toks" using n by (rule string_to_number_length)
    then show ?thesis using StrData True t r n o
      by (auto simp: reshape_rows_def is_numeric_def split: if_splits)
  next
    case False
    then show ?thesis using assms StrData
      by (auto simp: preprocess_label_def rbind_eq_Inr string_to_number_data_def
            is_numeric_def)
  qed
next
  case (NumData ty xs)
  then show ?thesis using assms
    by (auto simp: preprocess_label_def is_numeric_def)
next
  case (BoolData bs)
  then show ?thesis using assms by (simp add: preprocess_label_def)
qed

lemma label_rows_exact:
  assumes "string_to_number env FLOAT (concat (map (split_tokens sep True) ss)) = Inr xs"
    and "\<forall>s\<in>set ss. length (split_tokens sep True s) = d" and "0 < d"
  shows "length xs div d = length ss"
proof -
  have "length xs = length (concat (map (split_tokens sep True) ss))"
    using assms(1) by (rule string_to_number_length)
  also have "\<dots> = length (map (split_tokens sep True) ss) * d"
    by (rule length_concat_rows) (use assms(2) in simp)
  finally show ?thesis using assms(3) by simp
qed

lemma label_reshape_fails:
  assumes "elems field = StrData ss" and "length (shape field) = 1"
    and "label_dim self ! input_id > 1" and "input_id < length (label_sep self)"
    and "\<not> nat (label_dim self ! input_id) dvd
           length (concat (map (split_tokens (label_sep self ! input_id) True) ss))"
  shows "preprocess_label env self input_id input_name field =
           Inl (InvalidArgument ''Input to reshape has a number of values not divisible'')"
  using assms
  by (simp add: preprocess_label_def string_split_def sparse_of_rows_def reshape_rows_def)

text \<open>
  Claim C9, as amended. A string label is parsed to float32. With a label dimension d above
  one, the strings of the batch are first split on the label's separator and the tokens of
  the whole batch, in order, are laid out in rows of d: the result has as many rows as the
  token total divided by d, which is the number of examples when every example holds
  exactly d tokens, and the step fails when the total is not a multiple of d. With a label
  dimension of one the strings are parsed in the shape of the field. A label of a numeric
  dtype (float32, double, int32, int64) passes through unchanged and keeps its dtype; a
  bool label fails the assertion. Every label the step returns is numeric.
\<close>

theorem label_parsing:
  "(\<forall>ty xs. elems field = NumData ty xs \<longrightarrow>
      preprocess_label env self input_id input_name field = Inr field) \<and>
   (\<forall>bs. elems field = BoolData bs \<longrightarrow>
      preprocess_label env self input_id input_name field =
        Inl (AssertionError ''invalid label dtype'')) \<and>
   (\<forall>ss. elems field = StrData ss \<and> length (shape field) = 1 \<and>
      label_dim self ! input_id > 1 \<and> input_id < length (label_sep self) \<and>
      \<not> nat (label_dim self ! input_id) dvd
          length (concat (map (split_tokens (label_sep self ! input_id) True) ss)) \<longrightarrow>
      preprocess_label env self input_id input_name field =
        Inl (InvalidArgument ''Input to reshape has a number of values not divisible'')) \<and>
   (\<forall>out. preprocess_label env self input_id input_name field = Inr out \<longrightarrow>
      is_numeric (elems out) \<and>
      (case elems field of
         StrData ss \<Rightarrow>
           (\<exists>xs. elems out = NumData FLOAT xs \<and>
              (if label_dim self ! input_id > 1
               then string_to_number env FLOAT
                      (concat (map (split_tokens (label_sep self ! input_id) True) ss)) = Inr xs \<and>
                    nat (label_dim self ! input_id) dvd length xs \<and>
                    shape out = [length xs div nat (label_dim self ! input_id),
                                 nat (label_dim self ! input_id)] \<and>
                    ((\<forall>s\<in>set ss. length (split_tokens (label_sep self ! input_id) True s) =
                         nat (label_dim self ! input_id)) \<longrightarrow>
                       shape out = [length ss, nat (label_dim self ! input_id)])
               else string_to_number env FLOAT ss = Inr xs \<and> shape out = shape field))
       | NumData ty xs \<Rightarrow> out = field
       | BoolData bs \<Rightarrow> False))"
proof (intro conjI allI impI)
  fix ty xs
  assume "elems field = NumData ty xs"
  then show "preprocess_label env self input_id input_name field = Inr field"
    by (simp add: preprocess_label_def)
next
  fix bs
  assume "elems field = BoolData bs"
  then show "preprocess_label env self input_id input_name field =
        Inl (AssertionError ''invalid label dtype'')"
    by (simp add: preprocess_label_def)
next
  fix ss
  assume "elems field = StrData ss \<and> length (shape field) = 1 \<and>
      label_dim self ! input_id > 1 \<and> input_id < length (label_sep self) \<and>
      \<not> nat (label_dim self ! input_id) dvd
          length (concat (map (split_tokens (label_sep self ! input_id) True) ss))"
  then show "preprocess_label env self input_id input_name field =
        Inl (InvalidArgument ''Input to reshape has a number of values not divisible'')"
    using label_reshape_fails [of field ss self input_id env input_name] by blast
next
  fix out
  assume o: "preprocess_label env self input_id input_name field = Inr out"
  note r = label_parsing_result [OF o]
  from r show "is_numeric (elems out)" by blast
  show "case elems field of
         StrData ss \<Rightarrow>
           (\<exists>xs. elems out = NumData FLOAT xs \<and>
              (if label_dim self ! input_id > 1
               then string_to_number env FLOAT
                      (concat (map (split_tokens (label_sep self ! input_id) True) ss)) = Inr xs \<and>
                    nat (label_dim self ! input_id) dvd length xs \<and>
                    shape out = [length xs div nat (label_dim self ! input_id),
                                 nat (label_dim self ! input_id)] \<and>
                    ((\<forall>s\<in>set ss. length (split_tokens (label_sep self ! input_id) True s) =
                         nat (label_dim self ! input_id)) \<longrightarrow>
                       shape out = [length ss, nat (label_dim self ! input_id)])
               else string_to_number env FLOAT ss = Inr xs \<and> shape out = shape field))
       | NumData ty xs \<Rightarrow> out = field
       | BoolData bs \<Rightarrow> False"
  proof (cases "elems field")
    case (StrData ss)
    show ?thesis
    proof (cases "label_dim self ! input_id > 1")
      case True
      from r StrData True obtain xs where
        x: "elems out = NumData FLOAT xs"
        and n: "string_to_number env FLOAT
                  (concat (map (split_tokens (label_sep self ! input_id) True) ss)) = Inr xs"
        and d: "nat (label_dim self ! input_id) dvd length xs"
        and s: "shape out = [length xs div nat (label_dim self ! input_id),
                             nat (label_dim self ! input_id)]"
        by auto
      have pos: "0 < nat (label_dim self ! input_id)" using True by simp
      have e: "(\<forall>s\<in>set ss. length (split_tokens (label_sep self ! input_id) True s) =
                         nat (label_dim self ! input_id)) \<longrightarrow>
                 shape out = [length ss, nat (label_dim self ! input_id)]"
      proof
        assume a: "\<forall>s\<in>set ss. length (split_tokens (label_sep self ! input_id) True s) =
                         nat (label_dim self ! input_id)"
        from label_rows_exact [OF n a pos] s
        show "shape out = [length ss, nat (label_dim self ! input_id)]" by simp
      qed
      show ?thesis using StrData True x n d s e by auto
    next
      case False
      then show ?thesis using r StrData by auto
    qed
  next
    case (NumData ty xs)
    then show ?thesis using r by simp
  next
    case (BoolData bs)
    then show ?thesis using r by simp
  qed
qed

theorem label_parsing_witness:
  "preprocess_label example_env (example_input\<lparr>label_dim := [2]\<rparr>) 0 ''y''
     (DenseT [2] (StrData [''1,2'', ''3,4''])) =
     Inr (DenseT [2, 2] (NumData FLOAT [1, 2, 3, 4])) \<and>
   preprocess_label example_env (example_input\<lparr>label_dim := [2]\<rparr>) 0 ''y''
     (DenseT [2] (StrData [''1,2'', ''3''])) =
     Inl (InvalidArgument ''Input to reshape has a number of values not divisible'') \<and>
   preprocess_label example_env example_input 0 ''y'' (DenseT [2] (StrData [''1'', ''2''])) =
     Inr (DenseT [2] (NumData FLOAT [1, 2])) \<and>
   is_numeric (NumData FLOAT [1, 2, 3, 4])"
proof -
  have a: "preprocess_label example_env (example_input\<lparr>label_dim := [2]\<rparr>) 0 ''y''
     (DenseT [2] (StrData [''1,2'', ''3,4''])) =
     Inr (DenseT [2, 2] (NumData FLOAT [1, 2, 3, 4]))"
    by (simp add: preprocess_label_def example_input_def example_env_def string_split_def
          sparse_of_rows_def split_tokens_def reshape_rows_def string_to_number_data_def)
  have b: "preprocess_label example_env example_input 0 ''y'' (DenseT [2] (StrData [''1'', ''2''])) =
     Inr (DenseT [2] (NumData FLOAT [1, 2]))"
    by (simp add: preprocess_label_def example_input_def example_env_def
          string_to_number_data_def)
  have h: "elems (DenseT [2] (StrData [''1,2'', ''3''])) = StrData [''1,2'', ''3''] \<and>
      length (shape (DenseT [2] (StrData [''1,2'', ''3'']))) = 1 \<and>
      label_dim (example_input\<lparr>label_dim := [2]\<rparr>) ! 0 > 1 \<and>
      0 < length (label_sep (example_input\<lparr>label_dim := [2]\<rparr>)) \<and>
      \<not> nat (label_dim (example_input\<lparr>label_dim := [2]\<rparr>) ! 0) dvd
          length (concat (map (split_tokens (label_sep (example_input\<lparr>label_dim := [2]\<rparr>) ! 0)
                                 True) [''1,2'', ''3'']))"
    by (simp add: example_input_def split_tokens_def)
  from label_parsing [of "DenseT [2] (StrData [''1,2'', ''3''])" example_env
         "example_input\<lparr>label_dim := [2]\<rparr>" 0 "''y''", THEN conjunct2, THEN conjunct2,
         THEN conjunct1, rule_format, OF h]
  have c: "preprocess_label example_env (example_input\<lparr>label_dim := [2]\<rparr>) 0 ''y''
     (DenseT [2] (StrData [''1,2'', ''3''])) =
     Inl (InvalidArgument ''Input to reshape has a number of values not divisible'')" .
  from label_parsing [of "DenseT [2] (StrData [''1,2'', ''3,4''])" example_env
         "example_input\<lparr>label_dim := [2]\<rparr>" 0 "''y''"] a
  have "is_numeric (NumData FLOAT [1, 2, 3, 4])" by simp
  with a b c show ?thesis by simp
qed

text \<open>
  The claim as stated fails twice. An int64 label is returned with dtype int64. One
  example holding four tokens under label dimension two comes back as two rows: the rows
  are cut from the token list of the batch, not from the examples.
\<close>

theorem label_parsing_counterexample:
  "preprocess example_env (example_input\<lparr>sample_weight := None\<rparr>) []
     [(''y'', InputT [None] (DenseT [2] (NumData INT64 [0, 1])))] =
     Inr \<lparr>parsed_dict = [(''y'', Dense (DenseT [2] (NumData INT64 [0, 1])))],
          appended_fields = []\<rparr> \<and>
   \<not> is_floating (NumData INT64 [0, 1]) \<and>
   preprocess example_env (example_input\<lparr>sample_weight := None, label_dim := [2]\<rparr>) []
     [(''y'', InputT [None] (DenseT [1] (StrData [''1,2,3,4''])))] =
     Inr \<lparr>parsed_dict = [(''y'', Dense (DenseT [2, 2] (NumData FLOAT [1, 2, 3, 4])))],
          appended_fields = []\<rparr>"
  by (simp add: preprocess_def example_input_def example_env_def preprocess_label_def
        set_parsed_def is_floating_def fed_dict_def string_split_def sparse_of_rows_def
        split_tokens_def reshape_rows_def string_to_number_data_def upt_rec)

subsection \<open>The second-level split of sequence features\<close>

lemma gather_in_range:
  "\<forall>i\<in>set ids. i < length params \<Longrightarrow> gather params ids = Inr (map ((!) params) ids)"
  by (induction ids) simp_all

lemma zip_map_same: "zip (map f xs) (map g xs) = map (\<lambda>x. (f x, g x)) xs"
  by (induction xs) simp_all

lemma row_indices_hd_bound:
  "r \<in> set (row_indices rows) \<Longrightarrow> hd r < length rows"
  by (auto simp: row_indices_def in_set_zip)

lemma length_row_indices: "length (row_indices rows) = length (concat rows)"
proof -
  have "\<And>k. length (concat (map (\<lambda>(i, toks). map (\<lambda>j. [i, j]) [0 ..< length toks])
                 (zip [k ..< k + length rows] rows))) = length (concat rows)"
  proof (induction rows)
    case Nil
    then show ?case by simp
  next
    case (Cons r rows)
    have "[k ..< k + length (r # rows)] = k # [Suc k ..< Suc k + length rows]"
      by (simp add: upt_rec)
    then show ?case using Cons [of "Suc k"] by simp
  qed
  from this [of 0] show ?thesis by (simp add: row_indices_def)
qed

lemma zip_upt_nth:
  "length ps = length rows \<Longrightarrow>
     map (\<lambda>(i, r). F (ps ! i) r) (zip [0 ..< length rows] rows) = map (\<lambda>(p, r). F p r) (zip ps rows)"
  by (rule nth_equalityI) simp_all

lemma multi_split_indices:
  assumes "length idx = length toks"
  shows "multi_split idx toks shp msep =
           Inr (concat (map (\<lambda>(p, t). map (\<lambda>j. p @ [j]) [0 ..< length (split_tokens msep True t)])
                          (zip idx toks)),
                concat (map (split_tokens msep True) toks),
                shp @ [int (max_row_length (map (split_tokens msep True) toks))])"
proof -
  let ?rows = "map (split_tokens msep True) toks"
  let ?I = "row_indices ?rows"
  have b: "\<forall>i\<in>set (map hd ?I). i < length idx"
    using row_indices_hd_bound [of _ ?rows] assms by auto
  have g: "gather idx (map hd ?I) = Inr (map ((!) idx) (map hd ?I))"
    using gather_in_range [OF b] .
  have "concat_axis1 (map ((!) idx) (map hd ?I)) (map tl ?I) = map (\<lambda>r. idx ! hd r @ tl r) ?I"
    by (simp add: concat_axis1_def zip_map_same comp_def)
  also have "\<dots> = concat (map (\<lambda>(i, r). map (\<lambda>j. idx ! i @ [j]) [0 ..< length r])
                             (zip [0 ..< length ?rows] ?rows))"
    by (simp add: row_indices_def map_concat comp_def split_def)
  also have "\<dots> = concat (map (\<lambda>(p, r). map (\<lambda>j. p @ [j]) [0 ..< length r]) (zip idx ?rows))"
    using zip_upt_nth [of idx ?rows "\<lambda>p r. map (\<lambda>j. p @ [j]) [0 ..< length r]"] assms
    by simp
  also have "\<dots> = concat (map (\<lambda>(p, t). map (\<lambda>j. p @ [j]) [0 ..< length (split_tokens msep True t)])
                          (zip idx toks))"
    by (simp add: zip_map2 comp_def split_def)
  finally show ?thesis using g
    by (simp add: multi_split_def sparse_of_rows_def)
qed


lemma strings_split_lengths:
  "strings_split field sep = Inr (idx, toks, shp) \<Longrightarrow> length idx = length toks"
  by (auto simp: strings_split_def sparse_of_rows_def length_row_indices
        split: tdata.splits if_splits)

text \<open>
  Claim C6. For a sequence feature with a secondary separator, the index row of every
  inner token is the index row (row, position) of its parent token in the first split,
  extended by the position of the inner token within the split of that parent: rows are
  never renumbered. The tensor stored for the feature has exactly these index rows, and
  the dense shape of the first split extended by the longest inner split.
\<close>

theorem multi_split_inherits_parent:
  assumes "strings_split field (separator fc) = Inr (idx, toks, shp)"
    and "seq_multi_sep fc = Some msep"
  shows "length idx = length toks \<and>
         multi_split idx toks shp msep =
           Inr (concat (map (\<lambda>(p, t). map (\<lambda>j. p @ [j]) [0 ..< length (split_tokens msep True t)])
                          (zip idx toks)),
                concat (map (split_tokens msep True) toks),
                shp @ [int (max_row_length (map (split_tokens msep True) toks))]) \<and>
         (\<forall>t. sequence_split env fc field = Inr t \<longrightarrow>
            (\<exists>vals. t =
               Sparse (concat (map (\<lambda>(p, t). map (\<lambda>j. p @ [j])
                                      [0 ..< length (split_tokens msep True t)])
                          (zip idx toks)))
                 vals
                 (shp @ [int (max_row_length (map (split_tokens msep True) toks))])))"
proof -
  have l: "length idx = length toks" using assms(1) by (rule strings_split_lengths)
  note m = multi_split_indices [OF l, of shp msep]
  have "\<forall>t. sequence_split env fc field = Inr t \<longrightarrow>
            (\<exists>vals. t =
               Sparse (concat (map (\<lambda>(p, t). map (\<lambda>j. p @ [j])
                                      [0 ..< length (split_tokens msep True t)])
                          (zip idx toks)))
                 vals
                 (shp @ [int (max_row_length (map (split_tokens msep True) toks))]))"
  proof (intro allI impI)
    fix t
    assume "sequence_split env fc field = Inr t"
    then obtain vals where
      "(if num_buckets fc > 1 \<and> max_val fc > min_val fc
        then (case vals of
                NumData ty xs \<Rightarrow>
                  Inr (Sparse (concat (map (\<lambda>(p, t). map (\<lambda>j. p @ [j])
                                      [0 ..< length (split_tokens msep True t)])
                          (zip idx toks)))
                        (NumData ty (normalize_vals env fc xs))
                        (shp @ [int (max_row_length (map (split_tokens msep True) toks))]))
              | _ \<Rightarrow> Inl (TypeError ''unsupported operand types''))
        else Inr (Sparse (concat (map (\<lambda>(p, t). map (\<lambda>j. p @ [j])
                                      [0 ..< length (split_tokens msep True t)])
                          (zip idx toks)))
                    vals
                    (shp @ [int (max_row_length (map (split_tokens msep True) toks))]))) = Inr t"
      using assms m by (auto simp: sequence_split_def rbind_eq_Inr)
    then show "\<exists>vals. t =
               Sparse (concat (map (\<lambda>(p, t). map (\<lambda>j. p @ [j])
                                      [0 ..< length (split_tokens msep True t)])
                          (zip idx toks)))
                 vals
                 (shp @ [int (max_row_length (map (split_tokens msep True) toks))])"
      by (cases vals) (auto split: if_splits)
  qed
  with l m show ?thesis by blast
qed

theorem multi_split_inherits_parent_witness:
  "strings_split (DenseT [2] (StrData [''a,b;c'', ''d;;e,f'']))
     (separator (example_config\<lparr>separator := '';'', seq_multi_sep := Some '',''\<rparr>)) =
     Inr ([[0, 0], [0, 1], [1, 0], [1, 1], [1, 2]], [''a,b'', ''c'', ''d'', [], ''e,f''],
          [2, 3]) \<and>
   sequence_split example_env (example_config\<lparr>separator := '';'', seq_multi_sep := Some '',''\<rparr>)
     (DenseT [2] (StrData [''a,b;c'', ''d;;e,f''])) =
     Inr (Sparse [[0, 0, 0], [0, 0, 1], [0, 1, 0], [1, 0, 0], [1, 2, 0], [1, 2, 1]]
            (StrData [''a'', ''b'', ''c'', ''d'', ''e'', ''f'']) [2, 3, 2])"
proof -
  let ?fc = "example_config\<lparr>separator := '';'', seq_multi_sep := Some '',''\<rparr>"
  let ?field = "DenseT [2] (StrData [''a,b;c'', ''d;;e,f''])"
  have a0: "strings_split ?field '';'' =
     Inr ([[0, 0], [0, 1], [1, 0], [1, 1], [1, 2]], [''a,b'', ''c'', ''d'', [], ''e,f''],
          [2, 3])"
    by (simp add: strings_split_def sparse_of_rows_def split_tokens_v2_def row_indices_def
          max_row_length_def upt_rec)
  then have a: "strings_split ?field (separator ?fc) =
     Inr ([[0, 0], [0, 1], [1, 0], [1, 1], [1, 2]], [''a,b'', ''c'', ''d'', [], ''e,f''],
          [2, 3])"
    by simp
  have b: "seq_multi_sep ?fc = Some '',''" by simp
  have c: "sequence_split example_env ?fc ?field =
     Inr (Sparse [[0, 0, 0], [0, 0, 1], [0, 1, 0], [1, 0, 0], [1, 2, 0], [1, 2, 1]]
            (StrData [''a'', ''b'', ''c'', ''d'', ''e'', ''f'']) [2, 3, 2])"
    using multi_split_inherits_parent [OF a b, of example_env]
    by (simp add: sequence_split_def a0 example_config_def split_tokens_def max_row_length_def
          upt_rec)
  from a c show ?thesis by simp
qed


subsection \<open>Tag features with key-value tokens\<close>

lemma pairs_concat:
  "\<forall>r\<in>set rows. length r = 2 \<Longrightarrow>
     pairs (concat rows) = map (\<lambda>r. (r ! 0, r ! 1)) rows \<and> even (length (concat rows))"
proof (induction rows)
  case Nil
  then show ?case by simp
next
  case (Cons r rows)
  then have "length r = 2" by simp
  then obtain a b where r: "r = [a, b]"
    by (cases r; cases "tl r"; cases "tl (tl r)") auto
  have "\<forall>r\<in>set rows. length r = 2" using Cons.prems by simp
  with Cons.IH r show ?case by simp
qed

lemma string_split_lengths:
  "string_split field sep skip = Inr (idx, toks, shp) \<Longrightarrow> length idx = length toks"
  by (auto simp: string_split_def sparse_of_rows_def length_row_indices
        split: tdata.splits if_splits)

lemma kv_split_odd:
  "odd (length (concat (map (split_tokens kv_sep False) toks))) \<Longrightarrow>
     kv_split env kv_sep toks =
       Inl (InvalidArgument ''Input to reshape is a tensor with an odd number of values'')"
  by (simp add: kv_split_def reshape_pairs_def)

lemma kv_split_well_formed:
  assumes "\<forall>t\<in>set toks. length (split_tokens kv_sep False t) = 2"
  shows "kv_split env kv_sep toks =
           rbind (string_to_number env FLOAT (map (\<lambda>t. split_tokens kv_sep False t ! 1) toks))
             (\<lambda>ws. Inr (map (\<lambda>t. split_tokens kv_sep False t ! 0) toks, ws))"
proof -
  have "\<forall>r\<in>set (map (split_tokens kv_sep False) toks). length r = 2"
    using assms by simp
  from pairs_concat [OF this] show ?thesis
    by (simp add: kv_split_def reshape_pairs_def comp_def)
qed

lemma string_to_number_fails:
  "\<exists>s\<in>set ss. str2num env ty s = None \<Longrightarrow>
     string_to_number env ty ss =
       Inl (InvalidArgument ''StringToNumberOp could not correctly convert string'')"
proof (induction ss)
  case Nil
  then show ?case by simp
next
  case (Cons s ss)
  show ?case
  proof (cases "str2num env ty s")
    case None
    then show ?thesis by simp
  next
    case (Some x)
    with Cons.prems have "\<exists>s\<in>set ss. str2num env ty s = None" by auto
    with Cons.IH Some show ?thesis by simp
  qed
qed

lemma kv_split_not_a_number:
  assumes "even (length (concat (map (split_tokens kv_sep False) toks)))"
    and "\<exists>p\<in>set (pairs (concat (map (split_tokens kv_sep False) toks))).
           str2num env FLOAT (snd p) = None"
  shows "kv_split env kv_sep toks =
           Inl (InvalidArgument ''StringToNumberOp could not correctly convert string'')"
proof -
  have "\<exists>s\<in>set (map snd (pairs (concat (map (split_tokens kv_sep False) toks)))).
          str2num env FLOAT s = None"
    using assms(2) by auto
  from string_to_number_fails [OF this] assms(1) show ?thesis
    by (simp add: kv_split_def reshape_pairs_def)
qed

lemma preprocess_tag_split:
  assumes "input_names fc = input_0 # others"
    and "map_of field_dict input_0 = Some field"
    and "length (get_shape field) < 2 \<or> last (get_shape field) = Some 1"
    and "tag_vector field = Inr vec"
    and "string_split vec (separator fc) True = Inr (idx, toks, shp)"
    and "kv_separator fc = Some kv_sep"
  shows "preprocess_tag env fc field_dict st =
           rbind (kv_split env kv_sep toks) (\<lambda>(tmp_ks, tmp_vs).
           rbind (if hash_bucket_size fc = None
                  then string_to_number_data env INT32 (StrData tmp_ks)
                  else Inr (StrData tmp_ks)) (\<lambda>key_data.
             tag_weights env fc field_dict (data_length key_data)
               (set_parsed input_0 (Sparse idx key_data shp)
                  (append_field (input_0 @ ''_WEIGHT'')
                     (set_parsed (input_0 @ ''_WEIGHT'')
                        (Sparse idx (NumData FLOAT tmp_vs) shp) st)))))"
proof (cases "kv_split env kv_sep toks")
  case (Inl e)
  then show ?thesis using assms
    by (simp add: preprocess_tag_def input_names_0_def field_lookup_def)
next
  case (Inr p)
  obtain ks vs where p: "p = (ks, vs)" by (cases p)
  show ?thesis using assms Inr p
    by (simp add: preprocess_tag_def input_names_0_def field_lookup_def)
qed

text \<open>
  Claim C7, as amended. A Tag feature with a kv separator is split when the static shape
  of its field has rank below two or a last dimension known to be one; any other field (a
  placeholder of static shape [None, None], for one) is stored as it is, with no weight
  tensor. When the field is split, the parts of all tokens of the batch are laid out in
  rows of two. The step fails and returns nothing when the total number of parts is odd,
  and when a part in a second position is not a number. When every token splits into
  exactly two parts and the second parts are numbers, the weight tensor stored under the
  field name followed by \_WEIGHT has the index rows and the dense shape of the key tensor
  and holds the parsed second parts, one per index row, in token order; the key tensor
  holds the first parts (parsed to int32 when no hash bucket size is set).
\<close>

theorem tag_kv_weights_aligned:
  assumes "input_names fc = input_0 # others"
    and "map_of field_dict input_0 = Some field"
    and "kv_separator fc = Some kv_sep"
  shows "(\<not> (length (get_shape field) < 2 \<or> last (get_shape field) = Some 1) \<longrightarrow>
            preprocess_tag env fc field_dict st =
              (case others of
                 [] \<Rightarrow> Inr (set_parsed input_0 (Dense (fed field)) st)
               | input_1 # _ \<Rightarrow>
                   rbind (field_lookup field_dict input_1) (\<lambda>field1.
                     Inr (set_parsed input_1 (Dense (fed field1))
                            (set_parsed input_0 (Dense (fed field)) st))))) \<and>
         (\<forall>vec idx toks shp.
            (length (get_shape field) < 2 \<or> last (get_shape field) = Some 1) \<and>
            tag_vector field = Inr vec \<and>
            string_split vec (separator fc) True = Inr (idx, toks, shp) \<longrightarrow>
            (odd (length (concat (map (split_tokens kv_sep False) toks))) \<longrightarrow>
               preprocess_tag env fc field_dict st =
                 Inl (InvalidArgument
                        ''Input to reshape is a tensor with an odd number of values'')) \<and>
            (even (length (concat (map (split_tokens kv_sep False) toks))) \<and>
             (\<exists>p\<in>set (pairs (concat (map (split_tokens kv_sep False) toks))).
                str2num env FLOAT (snd p) = None) \<longrightarrow>
               preprocess_tag env fc field_dict st =
                 Inl (InvalidArgument ''StringToNumberOp could not correctly convert string'')) \<and>
            ((\<forall>t\<in>set toks. length (split_tokens kv_sep False t) = 2) \<longrightarrow>
               ((\<exists>t\<in>set toks. str2num env FLOAT (split_tokens kv_sep False t ! 1) = None) \<longrightarrow>
                  preprocess_tag env fc field_dict st =
                    Inl (InvalidArgument
                           ''StringToNumberOp could not correctly convert string'')) \<and>
               (\<forall>ws. string_to_number env FLOAT
                       (map (\<lambda>t. split_tokens kv_sep False t ! 1) toks) = Inr ws \<longrightarrow>
                  length ws = length idx \<and>
                  (hash_bucket_size fc \<noteq> None \<longrightarrow>
                     preprocess_tag env fc field_dict st =
                       tag_weights env fc field_dict (length idx)
                         (set_parsed input_0
                            (Sparse idx
                               (StrData (map (\<lambda>t. split_tokens kv_sep False t ! 0) toks)) shp)
                            (append_field (input_0 @ ''_WEIGHT'')
                               (set_parsed (input_0 @ ''_WEIGHT'')
                                  (Sparse idx (NumData FLOAT ws) shp) st)))) \<and>
                  (\<forall>ks. hash_bucket_size fc = None \<and>
                        string_to_number env INT32
                          (map (\<lambda>t. split_tokens kv_sep False t ! 0) toks) = Inr ks \<longrightarrow>
                     preprocess_tag env fc field_dict st =
                       tag_weights env fc field_dict (length idx)
                         (set_parsed input_0 (Sparse idx (NumData INT32 ks) shp)
                            (append_field (input_0 @ ''_WEIGHT'')
                               (set_parsed (input_0 @ ''_WEIGHT'')
                                  (Sparse idx (NumData FLOAT ws) shp) st))))))) \<and>
         (others = [] \<longrightarrow> (\<forall>n st1. tag_weights env fc field_dict n st1 = Inr st1))"
proof (intro conjI impI allI)
  assume "\<not> (length (get_shape field) < 2 \<or> last (get_shape field) = Some 1)"
  then show "preprocess_tag env fc field_dict st =
              (case others of
                 [] \<Rightarrow> Inr (set_parsed input_0 (Dense (fed field)) st)
               | input_1 # _ \<Rightarrow>
                   rbind (field_lookup field_dict input_1) (\<lambda>field1.
                     Inr (set_parsed input_1 (Dense (fed field1))
                            (set_parsed input_0 (Dense (fed field)) st))))"
    using assms(1,2)
    by (cases others)
       (simp_all add: preprocess_tag_def input_names_0_def field_lookup_def Let_def)
next
  fix vec idx toks shp
  assume h: "(length (get_shape field) < 2 \<or> last (get_shape field) = Some 1) \<and>
            tag_vector field = Inr vec \<and>
            string_split vec (separator fc) True = Inr (idx, toks, shp)"
  then have s: "length (get_shape field) < 2 \<or> last (get_shape field) = Some 1"
    and v: "tag_vector field = Inr vec"
    and sp: "string_split vec (separator fc) True = Inr (idx, toks, shp)"
    by simp_all
  note eq = preprocess_tag_split [OF assms(1,2) s v sp assms(3), of env st]
  have l: "length idx = length toks" using sp by (rule string_split_lengths)
  {
    assume "odd (length (concat (map (split_tokens kv_sep False) toks)))"
    then show "preprocess_tag env fc field_dict st =
                 Inl (InvalidArgument
                        ''Input to reshape is a tensor with an odd number of values'')"
      unfolding eq by (simp add: kv_split_odd)
  }
  {
    assume "even (length (concat (map (split_tokens kv_sep False) toks))) \<and>
             (\<exists>p\<in>set (pairs (concat (map (split_tokens kv_sep False) toks))).
                str2num env FLOAT (snd p) = None)"
    then have "kv_split env kv_sep toks =
                 Inl (InvalidArgument ''StringToNumberOp could not correctly convert string'')"
      using kv_split_not_a_number [of kv_sep toks env] by blast
    then show "preprocess_tag env fc field_dict st =
                 Inl (InvalidArgument ''StringToNumberOp could not correctly convert string'')"
      unfolding eq by simp
  }
  {
    assume wf: "\<forall>t\<in>set toks. length (split_tokens kv_sep False t) = 2"
    note kw = kv_split_well_formed [OF wf, of env]
    {
      assume "\<exists>t\<in>set toks. str2num env FLOAT (split_tokens kv_sep False t ! 1) = None"
      then have "\<exists>s\<in>set (map (\<lambda>t. split_tokens kv_sep False t ! 1) toks).
                   str2num env FLOAT s = None"
        by auto
      from string_to_number_fails [OF this]
      show "preprocess_tag env fc field_dict st =
                    Inl (InvalidArgument
                           ''StringToNumberOp could not correctly convert string'')"
        unfolding eq kw by simp
    }
    fix ws
    assume ws: "string_to_number env FLOAT
                  (map (\<lambda>t. split_tokens kv_sep False t ! 1) toks) = Inr ws"
    show "length ws = length idx" using string_to_number_length [OF ws] l by simp
    have kv: "kv_split env kv_sep toks =
                Inr (map (\<lambda>t. split_tokens kv_sep False t ! 0) toks, ws)"
      unfolding kw using ws by simp
    {
      assume "hash_bucket_size fc \<noteq> None"
      then show "preprocess_tag env fc field_dict st =
                       tag_weights env fc field_dict (length idx)
                         (set_parsed input_0
                            (Sparse idx
                               (StrData (map (\<lambda>t. split_tokens kv_sep False t ! 0) toks)) shp)
                            (append_field (input_0 @ ''_WEIGHT'')
                               (set_parsed (input_0 @ ''_WEIGHT'')
                                  (Sparse idx (NumData FLOAT ws) shp) st)))"
        unfolding eq kv using l by (auto simp: data_length_def)
    }
    {
      fix ks
      assume k: "hash_bucket_size fc = None \<and>
                        string_to_number env INT32
                          (map (\<lambda>t. split_tokens kv_sep False t ! 0) toks) = Inr ks"
      then have "length ks = length toks" using string_to_number_length by fastforce
      then show "preprocess_tag env fc field_dict st =
                       tag_weights env fc field_dict (length idx)
                         (set_parsed input_0 (Sparse idx (NumData INT32 ks) shp)
                            (append_field (input_0 @ ''_WEIGHT'')
                               (set_parsed (input_0 @ ''_WEIGHT'')
                                  (Sparse idx (NumData FLOAT ws) shp) st)))"
        unfolding eq kv using l k
        by (auto simp: data_length_def string_to_number_data_def)
    }
  }
next
  fix n st1
  assume "others = []"
  then show "tag_weights env fc field_dict n st1 = Inr st1"
    using assms(1) by (simp add: tag_weights_def)
qed


theorem tag_kv_weights_aligned_witness:
  "preprocess_tag example_env
     (example_config\<lparr>feature_type := TagFeature, hash_bucket_size := Some 10,
                      kv_separator := Some '':''\<rparr>)
     [(''f'', InputT [None] (DenseT [1] (StrData [''a:1,b:2''])))] empty_state =
     Inr \<lparr>parsed_dict =
            [(''f_WEIGHT'', Sparse [[0, 0], [0, 1]] (NumData FLOAT [1, 2]) [1, 2]),
             (''f'', Sparse [[0, 0], [0, 1]] (StrData [''a'', ''b'']) [1, 2])],
          appended_fields = [''f_WEIGHT'']\<rparr> \<and>
   preprocess_tag example_env
     (example_config\<lparr>feature_type := TagFeature, hash_bucket_size := Some 10,
                      kv_separator := Some '':''\<rparr>)
     [(''f'', InputT [None] (DenseT [1] (StrData [''a:1,b''])))] empty_state =
     Inl (InvalidArgument ''Input to reshape is a tensor with an odd number of values'') \<and>
   preprocess_tag example_env
     (example_config\<lparr>feature_type := TagFeature, hash_bucket_size := Some 10,
                      kv_separator := Some '':''\<rparr>)
     [(''f'', InputT [None] (DenseT [1] (StrData [''a:x,b:2''])))] empty_state =
     Inl (InvalidArgument ''StringToNumberOp could not correctly convert string'') \<and>
   preprocess_tag example_env
     (example_config\<lparr>feature_type := TagFeature, hash_bucket_size := Some 10,
                      kv_separator := Some '':''\<rparr>)
     [(''f'', InputT [None, None] (DenseT [1, 1] (StrData [''a:1,b:2''])))] empty_state =
     Inr \<lparr>parsed_dict = [(''f'', Dense (DenseT [1, 1] (StrData [''a:1,b:2''])))],
          appended_fields = []\<rparr>"
proof -
  let ?fc = "example_config\<lparr>feature_type := TagFeature, hash_bucket_size := Some 10,
                             kv_separator := Some '':''\<rparr>"
  let ?t1 = "InputT [None] (DenseT [1] (StrData [''a:1,b:2'']))"
  let ?t2 = "InputT [None] (DenseT [1] (StrData [''a:1,b'']))"
  let ?t3 = "InputT [None] (DenseT [1] (StrData [''a:x,b:2'']))"
  let ?t4 = "InputT [None, None] (DenseT [1, 1] (StrData [''a:1,b:2'']))"
  have n: "input_names ?fc = ''f'' # []" by (simp add: example_config_def)
  have k: "kv_separator ?fc = Some '':''" by simp
  have sep: "separator ?fc = '',''" by (simp add: example_config_def)
  have f1: "map_of [(''f'', ?t1)] ''f'' = Some ?t1" by simp
  have f2: "map_of [(''f'', ?t2)] ''f'' = Some ?t2" by simp
  have f3: "map_of [(''f'', ?t3)] ''f'' = Some ?t3" by simp
  have f4: "map_of [(''f'', ?t4)] ''f'' = Some ?t4" by simp
  have h1: "(length (get_shape ?t1) < 2 \<or> last (get_shape ?t1) = Some 1) \<and>
            tag_vector ?t1 = Inr (DenseT [1] (StrData [''a:1,b:2''])) \<and>
            string_split (DenseT [1] (StrData [''a:1,b:2''])) (separator ?fc) True =
              Inr ([[0, 0], [0, 1]], [''a:1'', ''b:2''], [1, 2])"
    by (simp add: sep string_split_def tag_vector_def sparse_of_rows_def split_tokens_def
          row_indices_def max_row_length_def upt_rec)
  have h2: "(length (get_shape ?t2) < 2 \<or> last (get_shape ?t2) = Some 1) \<and>
            tag_vector ?t2 = Inr (DenseT [1] (StrData [''a:1,b''])) \<and>
            string_split (DenseT [1] (StrData [''a:1,b''])) (separator ?fc) True =
              Inr ([[0, 0], [0, 1]], [''a:1'', ''b''], [1, 2])"
    by (simp add: sep string_split_def tag_vector_def sparse_of_rows_def split_tokens_def
          row_indices_def max_row_length_def upt_rec)
  have h3: "(length (get_shape ?t3) < 2 \<or> last (get_shape ?t3) = Some 1) \<and>
            tag_vector ?t3 = Inr (DenseT [1] (StrData [''a:x,b:2''])) \<and>
            string_split (DenseT [1] (StrData [''a:x,b:2''])) (separator ?fc) True =
              Inr ([[0, 0], [0, 1]], [''a:x'', ''b:2''], [1, 2])"
    by (simp add: sep string_split_def tag_vector_def sparse_of_rows_def split_tokens_def
          row_indices_def max_row_length_def upt_rec)
  have a: "preprocess_tag example_env ?fc [(''f'', ?t1)] empty_state =
     Inr \<lparr>parsed_dict =
            [(''f_WEIGHT'', Sparse [[0, 0], [0, 1]] (NumData FLOAT [1, 2]) [1, 2]),
             (''f'', Sparse [[0, 0], [0, 1]] (StrData [''a'', ''b'']) [1, 2])],
          appended_fields = [''f_WEIGHT'']\<rparr>"
    using tag_kv_weights_aligned [OF n f1 k, of example_env empty_state, THEN conjunct2,
            THEN conjunct1, THEN spec, THEN spec, THEN spec, THEN spec, THEN mp, OF h1]
      tag_kv_weights_aligned [OF n f1 k, of example_env empty_state, THEN conjunct2,
            THEN conjunct2]
    by (simp add: split_tokens_def example_env_def example_config_def empty_state_def
          set_parsed_def append_field_def)
  have b: "preprocess_tag example_env ?fc [(''f'', ?t2)] empty_state =
     Inl (InvalidArgument ''Input to reshape is a tensor with an odd number of values'')"
    using tag_kv_weights_aligned [OF n f2 k, of example_env empty_state, THEN conjunct2,
            THEN conjunct1, THEN spec, THEN spec, THEN spec, THEN spec, THEN mp, OF h2]
    by (simp add: split_tokens_def)
  have c: "preprocess_tag example_env ?fc [(''f'', ?t3)] empty_state =
     Inl (InvalidArgument ''StringToNumberOp could not correctly convert string'')"
    using tag_kv_weights_aligned [OF n f3 k, of example_env empty_state, THEN conjunct2,
            THEN conjunct1, THEN spec, THEN spec, THEN spec, THEN spec, THEN mp, OF h3]
    by (simp add: split_tokens_def example_env_def)
  have d: "preprocess_tag example_env ?fc [(''f'', ?t4)] empty_state =
     Inr \<lparr>parsed_dict = [(''f'', Dense (DenseT [1, 1] (StrData [''a:1,b:2''])))],
          appended_fields = []\<rparr>"
    using tag_kv_weights_aligned [OF n f4 k, of example_env empty_state, THEN conjunct1]
    by (simp add: empty_state_def set_parsed_def)
  from a b c d show ?thesis by simp
qed

text \<open>
  The claim as stated fails: a batch whose tokens have three parts and one part is
  accepted, because only the total is checked; the parts are paired across tokens.
\<close>

theorem tag_kv_counterexample:
  "split_tokens '':'' False ''a:1:b'' = [''a'', ''1'', ''b''] \<and>
   split_tokens '':'' False ''2'' = [''2''] \<and>
   preprocess_tag example_env
     (example_config\<lparr>feature_type := TagFeature, hash_bucket_size := Some 10,
                      kv_separator := Some '':''\<rparr>)
     [(''f'', InputT [None] (DenseT [1] (StrData [''a:1:b,2''])))] empty_state =
     Inr \<lparr>parsed_dict =
            [(''f_WEIGHT'', Sparse [[0, 0], [0, 1]] (NumData FLOAT [1, 2]) [1, 2]),
             (''f'', Sparse [[0, 0], [0, 1]] (StrData [''a'', ''b'']) [1, 2])],
          appended_fields = [''f_WEIGHT'']\<rparr>"
  by (simp add: preprocess_tag_def example_config_def example_env_def empty_state_def
        input_names_0_def field_lookup_def tag_vector_def string_split_def sparse_of_rows_def
        split_tokens_def row_indices_def max_row_length_def kv_split_def reshape_pairs_def
        set_parsed_def append_field_def tag_weights_def data_length_def upt_rec)

subsection \<open>Lookup features\<close>

lemma boolean_mask_append:
  "length xs = length ms \<Longrightarrow>
     boolean_mask (xs @ ys) (ms @ ns) = boolean_mask xs ms @ boolean_mask ys ns"
  by (simp add: boolean_mask_def)

lemma boolean_mask_all_true: "length xs = n \<Longrightarrow> boolean_mask xs (replicate n True) = xs"
  by (induction xs arbitrary: n) (auto simp: boolean_mask_def)

lemma boolean_mask_all_false: "boolean_mask xs (replicate n False) = []"
proof -
  have "\<forall>p\<in>set (zip xs (replicate n False)). \<not> snd p"
    by (auto simp: in_set_zip)
  then have "filter snd (zip xs (replicate n False)) = []"
    by (simp add: filter_empty_conv)
  then show ?thesis by (simp add: boolean_mask_def)
qed

lemma prefix_mask: "n \<le> m \<Longrightarrow> map (\<lambda>i. i < n) [0 ..< m] = replicate n True @ replicate (m - n) False"
  by (rule nth_equalityI) (auto simp: nth_append)

lemma boolean_mask_prefix:
  assumes "n \<le> m" and "length xs = n"
  shows "boolean_mask (xs @ ys) (map (\<lambda>i. i < n) [0 ..< m]) = xs"
  using assms
  by (simp add: prefix_mask boolean_mask_append boolean_mask_all_true boolean_mask_all_false)

lemma masked_positions:
  assumes "n \<le> m"
  shows "boolean_mask (map (\<lambda>i. i * (if i < n then 1 else 0)) [0 ..< m])
           (map (\<lambda>i. i < n) [0 ..< m]) = [0 ..< n]"
proof -
  have s: "[0 ..< m] = [0 ..< n] @ [n ..< m]" using assms
    by (metis le_add_diff_inverse upt_add_eq_append zero_le)
  have "map (\<lambda>i. i * (if i < n then 1 else 0)) [0 ..< m] =
          [0 ..< n] @ map (\<lambda>i. i * (if i < n then 1 else 0)) [n ..< m]"
  proof -
    have "map (\<lambda>i. i * (if i < n then 1 else 0)) [0 ..< n] = map (\<lambda>i. i) [0 ..< n]"
      by (rule map_cong) simp_all
    then show ?thesis by (subst s) simp
  qed
  then show ?thesis using assms boolean_mask_prefix [of n m "[0 ..< n]"] by simp
qed

lemma masked_rows:
  assumes "n \<le> m"
  shows "boolean_mask (replicate m r) (map (\<lambda>i. i < n) [0 ..< m]) = replicate n r"
proof -
  have "replicate m r = replicate n r @ replicate (m - n) r"
    using assms by (simp add: replicate_add [symmetric])
  then show ?thesis using assms boolean_mask_prefix [of n m "replicate n r"] by simp
qed

lemma lookup_padded_ok:
  assumes "lookup_select fc k m = Inr sel"
    and "int (length sel) \<le> lookup_max_sel_elem_num fc"
  shows "lookup_padded fc k m =
           Inr (sel @ replicate (nat (lookup_max_sel_elem_num fc) - length sel) [],
                map (\<lambda>i. i < length sel) [0 ..< nat (lookup_max_sel_elem_num fc)],
                map (\<lambda>i. i * (if i < length sel then 1 else 0))
                  [0 ..< nat (lookup_max_sel_elem_num fc)])"
  using assms by (simp add: lookup_padded_def Let_def)

lemma lookup_padded_too_many:
  assumes "lookup_select fc k m = Inr sel"
    and "int (length sel) > lookup_max_sel_elem_num fc"
  shows "lookup_padded fc k m = Inl (InvalidArgument ''Paddings must be non-negative'')"
  using assms by (simp add: lookup_padded_def Let_def)

lemma lookup_rows_ok:
  assumes "length keys = length maps" and "length sels = length keys"
    and "\<forall>i<length keys. lookup_select fc (keys ! i) [maps ! i] = Inr (sels ! i) \<and>
           int (length (sels ! i)) \<le> lookup_max_sel_elem_num fc"
  shows "lookup_rows fc keys maps =
           Inr (map (\<lambda>sel. (sel @ replicate (nat (lookup_max_sel_elem_num fc) - length sel) [],
                            map (\<lambda>i. i < length sel) [0 ..< nat (lookup_max_sel_elem_num fc)],
                            map (\<lambda>i. i * (if i < length sel then 1 else 0))
                              [0 ..< nat (lookup_max_sel_elem_num fc)])) sels)"
  using assms
proof (induction keys arbitrary: maps sels)
  case Nil
  then show ?case by simp
next
  case (Cons k keys)
  from Cons.prems(1) obtain m maps' where m: "maps = m # maps'" by (cases maps) auto
  from Cons.prems(2) obtain sel sels' where s: "sels = sel # sels'" by (cases sels) auto
  have h0: "lookup_select fc k [m] = Inr sel \<and> int (length sel) \<le> lookup_max_sel_elem_num fc"
    using Cons.prems(3) [rule_format, of 0] m s by simp
  have hr: "\<forall>i<length keys. lookup_select fc (keys ! i) [maps' ! i] = Inr (sels' ! i) \<and>
           int (length (sels' ! i)) \<le> lookup_max_sel_elem_num fc"
  proof (intro allI impI)
    fix i assume "i < length keys"
    then have "Suc i < length (k # keys)" by simp
    from Cons.prems(3) [rule_format, OF this] show
      "lookup_select fc (keys ! i) [maps' ! i] = Inr (sels' ! i) \<and>
           int (length (sels' ! i)) \<le> lookup_max_sel_elem_num fc"
      using m s by simp
  qed
  have l1: "length keys = length maps'" using Cons.prems(1) m by simp
  have l2: "length sels' = length keys" using Cons.prems(2) s by simp
  show ?case using Cons.IH [OF l1 l2 hr] m s lookup_padded_ok [of fc k "[m]" sel] h0
    by simp
qed

lemma zip_concat:
  "length xss = length yss \<Longrightarrow> \<forall>i<length xss. length (xss ! i) = length (yss ! i) \<Longrightarrow>
     zip (concat xss) (concat yss) = concat (map (\<lambda>(xs, ys). zip xs ys) (zip xss yss))"
proof (induction xss arbitrary: yss)
  case Nil
  then show ?case by simp
next
  case (Cons xs xss)
  from Cons.prems(1) obtain ys yss' where y: "yss = ys # yss'" by (cases yss) auto
  have l0: "length xs = length ys" using Cons.prems(2) [rule_format, of 0] y by simp
  have lr: "\<forall>i<length xss. length (xss ! i) = length (yss' ! i)"
  proof (intro allI impI)
    fix i assume "i < length xss"
    then have "Suc i < length (xs # xss)" by simp
    from Cons.prems(2) [rule_format, OF this] show "length (xss ! i) = length (yss' ! i)"
      using y by simp
  qed
  have "length xss = length yss'" using Cons.prems(1) y by simp
  from Cons.IH [OF this lr] l0 y show ?case by simp
qed


lemma zip_replicate_upt:
  "map (\<lambda>p. [fst p, snd p]) (zip (replicate n r) [0 ..< n]) = map (\<lambda>j. [r, j]) [0 ..< n]"
  by (rule nth_equalityI) simp_all

lemma enumerate_rows_indices:
  "map (\<lambda>(a, b). [a, b])
     (zip (concat (map (\<lambda>(r, sel). replicate (length sel) r) (zip [0 ..< length sels] sels)))
          (concat (map (\<lambda>sel. [0 ..< length sel]) sels))) = row_indices sels"
proof -
  let ?Z = "zip [0 ..< length sels] sels"
  let ?F = "\<lambda>(r :: nat, sel :: 'a list). replicate (length sel) r"
  let ?G = "\<lambda>(r :: nat, sel :: 'a list). [0 ..< length sel]"
  have sn: "map snd ?Z = sels" by (simp add: map_snd_zip)
  have g: "map (\<lambda>sel. [0 ..< length sel]) sels = map ?G ?Z"
    by (rule nth_equalityI) simp_all
  have z: "zip (concat (map ?F ?Z)) (concat (map ?G ?Z)) =
             concat (map (\<lambda>(xs, ys). zip xs ys) (zip (map ?F ?Z) (map ?G ?Z)))"
    by (rule zip_concat) (auto simp: split_def)
  have "zip (map ?F ?Z) (map ?G ?Z) = map (\<lambda>z. (?F z, ?G z)) ?Z"
    by (rule zip_map_same)
  then have "map (\<lambda>(a, b). [a, b]) (zip (concat (map ?F ?Z)) (concat (map ?G ?Z))) =
          concat (map (\<lambda>z. map (\<lambda>(a, b). [a, b]) (zip (?F z) (?G z))) ?Z)"
    using z by (simp add: map_concat comp_def split_def)
  also have "\<dots> = concat (map (\<lambda>(r, sel). map (\<lambda>j. [r, j]) [0 ..< length sel]) ?Z)"
    by (simp add: split_def zip_replicate_upt)
  finally show ?thesis using g by (simp add: row_indices_def)
qed

lemma lookup_batch_ok:
  assumes "length keys = length maps" and "length sels = length keys"
    and "\<forall>i<length keys. lookup_select fc (keys ! i) [maps ! i] = Inr (sels ! i) \<and>
           int (length (sels ! i)) \<le> lookup_max_sel_elem_num fc"
  shows "lookup_batch fc keys maps =
           Inr (Sparse (row_indices sels) (StrData (concat sels))
                  [int (length keys),
                   reduce_max (map int (concat (map (\<lambda>sel. [0 ..< length sel]) sels))) + 1])"
proof -
  let ?M = "nat (lookup_max_sel_elem_num fc)"
  let ?pad = "\<lambda>sel. (sel @ replicate (?M - length sel) ([] :: string),
                            map (\<lambda>i. i < length sel) [0 ..< ?M],
                            map (\<lambda>i. i * (if i < length sel then 1 else 0)) [0 ..< ?M])"
  have rows: "lookup_rows fc keys maps = Inr (map ?pad sels)"
    using lookup_rows_ok [OF assms] .
  have le: "\<forall>sel\<in>set sels. length sel \<le> ?M"
  proof
    fix sel assume "sel \<in> set sels"
    then obtain i where "i < length sels" "sels ! i = sel" by (auto simp: in_set_conv_nth)
    then show "length sel \<le> ?M" using assms(2,3) by auto
  qed
  have v: "concat (map (\<lambda>(v, m, i). boolean_mask v m) (map ?pad sels)) = concat sels"
  proof -
    have "map (\<lambda>(v, m, i). boolean_mask v m) (map ?pad sels) = map (\<lambda>sel. sel) sels"
      unfolding map_map by (rule map_cong) (use le in \<open>simp_all add: boolean_mask_prefix\<close>)
    then have "concat (map (\<lambda>(v, m, i). boolean_mask v m) (map ?pad sels)) =
                 concat (map (\<lambda>sel. sel) sels)"
      by (rule arg_cong)
    then show ?thesis by simp
  qed
  have i1: "concat (map (\<lambda>(v, m, i). boolean_mask i m) (map ?pad sels)) =
              concat (map (\<lambda>sel. [0 ..< length sel]) sels)"
  proof -
    have "map (\<lambda>(v, m, i). boolean_mask i m) (map ?pad sels) =
            map (\<lambda>sel. [0 ..< length sel]) sels"
      unfolding map_map by (rule map_cong) (use le in \<open>simp_all add: masked_positions\<close>)
    then show ?thesis by (rule arg_cong)
  qed
  have i0: "concat (map (\<lambda>(r, (v, m, i)). boolean_mask (replicate ?M r) m)
                     (zip [0 ..< length (map ?pad sels)] (map ?pad sels))) =
            concat (map (\<lambda>(r, sel). replicate (length sel) r) (zip [0 ..< length sels] sels))"
  proof -
    have a: "zip [0 ..< length (map ?pad sels)] (map ?pad sels) =
            map (\<lambda>(r, sel). (r, ?pad sel)) (zip [0 ..< length sels] sels)"
      by (simp add: zip_map2 split_def)
    have b: "map (\<lambda>(r, (v, m, i)). boolean_mask (replicate ?M r) m)
                     (map (\<lambda>(r, sel). (r, ?pad sel)) (zip [0 ..< length sels] sels)) =
                   map (\<lambda>(r, sel). replicate (length sel) r) (zip [0 ..< length sels] sels)"
      unfolding map_map
    proof (rule map_cong)
      fix z assume "z \<in> set (zip [0 ..< length sels] sels)"
      then have "snd z \<in> set sels" by (metis in_set_zipE prod.collapse)
      then have "length (snd z) \<le> ?M" using le by simp
      then show "((\<lambda>(r, (v, m, i)). boolean_mask (replicate ?M r) m) \<circ>
                    (\<lambda>(r, sel). (r, ?pad sel))) z =
                 (case z of (r, sel) \<Rightarrow> replicate (length sel) r)"
        by (simp add: split_def masked_rows)
    qed simp
    show ?thesis by (simp only: a b)
  qed
  have len: "length (map ?pad sels) = length keys" using assms(2) by simp
  show ?thesis
    unfolding lookup_batch_def rows
    using v i1 i0 len enumerate_rows_indices [of sels]
    by (simp add: Let_def)
qed


lemma filter_nth_upt:
  "map (nth kvs) (filter (\<lambda>i. P (kvs ! i)) [0 ..< length kvs]) = filter P kvs"
proof -
  have "filter P (map (nth kvs) [0 ..< length kvs]) =
          map (nth kvs) (filter (P \<circ> nth kvs) [0 ..< length kvs])"
    by (rule filter_map)
  then show ?thesis by (simp add: map_nth comp_def)
qed

lemma lookup_select_filter:
  "lookup_select fc key ms =
     rbind (reshape_pairs
              (concat (map (split_tokens (kv_separator_val fc) True)
                 (concat (map (split_tokens (separator fc) True) ms)))))
       (\<lambda>kvs. Inr (map snd (filter (\<lambda>kv. fst kv = key) kvs)))"
proof -
  have "\<And>kvs :: (string \<times> string) list.
          gather (map snd kvs) (filter (\<lambda>i. fst (kvs ! i) = key) [0 ..< length kvs]) =
            Inr (map snd (filter (\<lambda>kv. fst kv = key) kvs))"
  proof -
    fix kvs :: "(string \<times> string) list"
    have "gather (map snd kvs) (filter (\<lambda>i. fst (kvs ! i) = key) [0 ..< length kvs]) =
            Inr (map ((!) (map snd kvs)) (filter (\<lambda>i. fst (kvs ! i) = key) [0 ..< length kvs]))"
      by (rule gather_in_range) simp
    also have "map ((!) (map snd kvs)) (filter (\<lambda>i. fst (kvs ! i) = key) [0 ..< length kvs]) =
                 map snd (map ((!) kvs) (filter (\<lambda>i. fst (kvs ! i) = key) [0 ..< length kvs]))"
      unfolding map_map by (rule map_cong) simp_all
    also have "\<dots> = map snd (filter (\<lambda>kv. fst kv = key) kvs)"
      using filter_nth_upt [of kvs "\<lambda>kv. fst kv = key"] by simp
    finally show "gather (map snd kvs) (filter (\<lambda>i. fst (kvs ! i) = key) [0 ..< length kvs]) =
            Inr (map snd (filter (\<lambda>kv. fst kv = key) kvs))" .
  qed
  then show ?thesis by (simp add: lookup_select_def Let_def)
qed

lemma lookup_select_well_formed:
  assumes "\<forall>t\<in>set (concat (map (split_tokens (separator fc) True) ms)).
             length (split_tokens (kv_separator_val fc) True t) = 2"
  shows "lookup_select fc key ms =
           Inr (map (\<lambda>t. split_tokens (kv_separator_val fc) True t ! 1)
                  (filter (\<lambda>t. split_tokens (kv_separator_val fc) True t ! 0 = key)
                     (concat (map (split_tokens (separator fc) True) ms))))"
proof -
  let ?toks = "concat (map (split_tokens (separator fc) True) ms)"
  have "\<forall>r\<in>set (map (split_tokens (kv_separator_val fc) True) ?toks). length r = 2"
    using assms by simp
  from pairs_concat [OF this] show ?thesis
    by (simp add: lookup_select_filter reshape_pairs_def filter_map comp_def)
qed

lemma lookup_rows_fails:
  "length keys = length maps \<Longrightarrow> i < length keys \<Longrightarrow>
     lookup_padded fc (keys ! i) [maps ! i] = Inl e \<Longrightarrow>
     \<exists>e'. lookup_rows fc keys maps = Inl e'"
proof (induction keys arbitrary: maps i)
  case Nil
  then show ?case by simp
next
  case (Cons k keys)
  from Cons.prems(1) obtain m maps' where m: "maps = m # maps'" by (cases maps) auto
  show ?case
  proof (cases i)
    case 0
    then show ?thesis using Cons.prems(3) m by simp
  next
    case (Suc j)
    then have "\<exists>e'. lookup_rows fc keys maps' = Inl e'"
      using Cons.IH [of maps' j] Cons.prems m by simp
    then show ?thesis using m by (auto split: sum.splits)
  qed
qed


text \<open>
  Claim C4, as amended. For a batch of keys and map strings of equal length in which every
  example's selection succeeds with at most lookup\_max\_sel\_elem\_num values, the result
  has one row per example: the index rows are row and position of every selected value,
  the values are the selections in order, and an example with no match contributes no
  entry. When every token of a map splits into exactly two non-empty parts, the selection
  of an example is the second part of every token whose first part is the key, in map
  order. An example with more matches than lookup\_max\_sel\_elem\_num makes the batched
  path fail; a scalar key takes the unpadded path, which returns every match.
\<close>

theorem lookup_selects_matches:
  "(length keys = length maps \<and> length sels = length keys \<and>
    (\<forall>i<length keys. lookup_select fc (keys ! i) [maps ! i] = Inr (sels ! i) \<and>
        int (length (sels ! i)) \<le> lookup_max_sel_elem_num fc) \<longrightarrow>
      lookup_batch fc keys maps =
        Inr (Sparse (row_indices sels) (StrData (concat sels))
               [int (length keys),
                reduce_max (map int (concat (map (\<lambda>sel. [0 ..< length sel]) sels))) + 1])) \<and>
   ((\<forall>t\<in>set (split_tokens (separator fc) True m).
        length (split_tokens (kv_separator_val fc) True t) = 2) \<longrightarrow>
      lookup_select fc key [m] =
        Inr (map (\<lambda>t. split_tokens (kv_separator_val fc) True t ! 1)
               (filter (\<lambda>t. split_tokens (kv_separator_val fc) True t ! 0 = key)
                  (split_tokens (separator fc) True m)))) \<and>
   (length keys = length maps \<and> j < length keys \<and>
    lookup_select fc (keys ! j) [maps ! j] = Inr sel \<and>
    int (length sel) > lookup_max_sel_elem_num fc \<longrightarrow>
      (\<exists>e. lookup_batch fc keys maps = Inl e)) \<and>
   (input_names fc = [kf, mf] \<and> map_of field_dict kf = Some (DenseT [n] (StrData keys)) \<and>
    map_of field_dict mf = Some (DenseT [n] (StrData maps)) \<longrightarrow>
      lookup_preprocess fc field_dict = lookup_batch fc keys maps) \<and>
   (input_names fc = [kf, mf] \<and> map_of field_dict kf = Some (DenseT [] (StrData [key])) \<and>
    map_of field_dict mf = Some (DenseT [] (StrData [m])) \<longrightarrow>
      lookup_preprocess fc field_dict =
        rbind (lookup_select fc key [m]) (\<lambda>vals.
          Inr (Sparse (map (\<lambda>j. [0, j]) [0 ..< length vals]) (StrData vals)
                 [1, int (length vals)])))"
proof (intro conjI impI)
  assume "length keys = length maps \<and> length sels = length keys \<and>
    (\<forall>i<length keys. lookup_select fc (keys ! i) [maps ! i] = Inr (sels ! i) \<and>
        int (length (sels ! i)) \<le> lookup_max_sel_elem_num fc)"
  then show "lookup_batch fc keys maps =
        Inr (Sparse (row_indices sels) (StrData (concat sels))
               [int (length keys),
                reduce_max (map int (concat (map (\<lambda>sel. [0 ..< length sel]) sels))) + 1])"
    using lookup_batch_ok [of keys maps sels fc] by blast
next
  assume "\<forall>t\<in>set (split_tokens (separator fc) True m).
        length (split_tokens (kv_separator_val fc) True t) = 2"
  then show "lookup_select fc key [m] =
        Inr (map (\<lambda>t. split_tokens (kv_separator_val fc) True t ! 1)
               (filter (\<lambda>t. split_tokens (kv_separator_val fc) True t ! 0 = key)
                  (split_tokens (separator fc) True m)))"
    using lookup_select_well_formed [of fc "[m]" key] by simp
next
  assume h: "length keys = length maps \<and> j < length keys \<and>
    lookup_select fc (keys ! j) [maps ! j] = Inr sel \<and>
    int (length sel) > lookup_max_sel_elem_num fc"
  then have "lookup_padded fc (keys ! j) [maps ! j] =
               Inl (InvalidArgument ''Paddings must be non-negative'')"
    using lookup_padded_too_many by blast
  with h have "\<exists>e'. lookup_rows fc keys maps = Inl e'"
    using lookup_rows_fails by blast
  then show "\<exists>e. lookup_batch fc keys maps = Inl e"
    by (auto simp: lookup_batch_def)
next
  assume "input_names fc = [kf, mf] \<and> map_of field_dict kf = Some (DenseT [n] (StrData keys)) \<and>
    map_of field_dict mf = Some (DenseT [n] (StrData maps))"
  then show "lookup_preprocess fc field_dict = lookup_batch fc keys maps"
    by (simp add: lookup_preprocess_def field_lookup_def)
next
  assume "input_names fc = [kf, mf] \<and> map_of field_dict kf = Some (DenseT [] (StrData [key])) \<and>
    map_of field_dict mf = Some (DenseT [] (StrData [m]))"
  then show "lookup_preprocess fc field_dict =
        rbind (lookup_select fc key [m]) (\<lambda>vals.
          Inr (Sparse (map (\<lambda>j. [0, j]) [0 ..< length vals]) (StrData vals)
                 [1, int (length vals)]))"
    by (simp add: lookup_preprocess_def field_lookup_def)
qed

theorem lookup_selects_matches_witness:
  "lookup_select (example_config\<lparr>kv_separator := Some '':''\<rparr>) ''x'' [''x:1,y:2,x:3''] =
     Inr [''1'', ''3''] \<and>
   lookup_preprocess
     (example_config\<lparr>kv_separator := Some '':'', input_names := [''k'', ''m'']\<rparr>)
     [(''k'', DenseT [2] (StrData [''x'', ''z''])),
      (''m'', DenseT [2] (StrData [''x:1,y:2,x:3'', ''x:1'']))] =
     Inr (Sparse [[0, 0], [0, 1]] (StrData [''1'', ''3'']) [2, 2])"
proof -
  let ?fc = "example_config\<lparr>kv_separator := Some '':'', input_names := [''k'', ''m'']\<rparr>"
  let ?fd = "[(''k'', DenseT [2] (StrData [''x'', ''z''])),
              (''m'', DenseT [2] (StrData [''x:1,y:2,x:3'', ''x:1'']))]"
  have sel0: "lookup_select (example_config\<lparr>kv_separator := Some '':''\<rparr>) ''x''
                [''x:1,y:2,x:3''] = Inr [''1'', ''3'']"
    using lookup_selects_matches
            [of "[]" "[]" "[]" "example_config\<lparr>kv_separator := Some '':''\<rparr>" "''x:1,y:2,x:3''"
                "''x''", THEN conjunct2, THEN conjunct1]
    by (simp add: example_config_def kv_separator_val_def split_tokens_def)
  have s1: "lookup_select ?fc ''x'' [''x:1,y:2,x:3''] = Inr [''1'', ''3'']"
    by (simp add: lookup_select_filter example_config_def kv_separator_val_def
          split_tokens_def reshape_pairs_def)
  have s2: "lookup_select ?fc ''z'' [''x:1''] = Inr []"
    by (simp add: lookup_select_filter example_config_def kv_separator_val_def
          split_tokens_def reshape_pairs_def)
  have h: "length [''x'', ''z''] = length [''x:1,y:2,x:3'', ''x:1''] \<and>
           length [[''1'', ''3''], []] = length [''x'', ''z''] \<and>
           (\<forall>i<length [''x'', ''z''].
              lookup_select ?fc ([''x'', ''z''] ! i) [[''x:1,y:2,x:3'', ''x:1''] ! i] =
                Inr ([[''1'', ''3''], []] ! i) \<and>
              int (length ([[''1'', ''3''], []] ! i)) \<le> lookup_max_sel_elem_num ?fc)"
    using s1 s2 by (simp add: less_Suc_eq numeral_2_eq_2 example_config_def)
  have b: "lookup_batch ?fc [''x'', ''z''] [''x:1,y:2,x:3'', ''x:1''] =
             Inr (Sparse [[0, 0], [0, 1]] (StrData [''1'', ''3'']) [2, 2])"
    using lookup_selects_matches
            [of "[''x'', ''z'']" "[''x:1,y:2,x:3'', ''x:1'']" "[[''1'', ''3''], []]" ?fc,
             THEN conjunct1, THEN mp, OF h]
    by (simp add: row_indices_def reduce_max_def numeral_2_eq_2)
  have p: "lookup_preprocess ?fc ?fd = lookup_batch ?fc [''x'', ''z''] [''x:1,y:2,x:3'', ''x:1'']"
    by (simp add: lookup_preprocess_def field_lookup_def example_config_def)
  from sel0 b p show ?thesis by simp
qed

text \<open>
  The claim as stated fails when an example has more matches than the limit: the batched
  path produces no container, and the scalar path returns more values than the limit.
\<close>

theorem lookup_selects_matches_counterexample:
  "lookup_preprocess
     (example_config\<lparr>kv_separator := Some '':'', input_names := [''k'', ''m''],
                      lookup_max_sel_elem_num := 1\<rparr>)
     [(''k'', DenseT [1] (StrData [''x''])),
      (''m'', DenseT [1] (StrData [''x:1,y:2,x:3'']))] =
     Inl (InvalidArgument ''Paddings must be non-negative'') \<and>
   lookup_preprocess
     (example_config\<lparr>kv_separator := Some '':'', input_names := [''k'', ''m''],
                      lookup_max_sel_elem_num := 1\<rparr>)
     [(''k'', DenseT [] (StrData [''x''])),
      (''m'', DenseT [] (StrData [''x:1,y:2,x:3'']))] =
     Inr (Sparse [[0, 0], [0, 1]] (StrData [''1'', ''3'']) [1, 2])"
proof -
  let ?fc = "example_config\<lparr>kv_separator := Some '':'', input_names := [''k'', ''m''],
                             lookup_max_sel_elem_num := 1\<rparr>"
  have s: "lookup_select ?fc ''x'' [''x:1,y:2,x:3''] = Inr [''1'', ''3'']"
    by (simp add: lookup_select_filter example_config_def kv_separator_val_def
          split_tokens_def reshape_pairs_def)
  have a: "lookup_preprocess ?fc
     [(''k'', DenseT [1] (StrData [''x''])),
      (''m'', DenseT [1] (StrData [''x:1,y:2,x:3'']))] =
     Inl (InvalidArgument ''Paddings must be non-negative'')"
    by (simp add: lookup_preprocess_def lookup_batch_def lookup_padded_def s field_lookup_def
          Let_def)
  have b: "lookup_preprocess ?fc
     [(''k'', DenseT [] (StrData [''x''])),
      (''m'', DenseT [] (StrData [''x:1,y:2,x:3'']))] =
     Inr (Sparse [[0, 0], [0, 1]] (StrData [''1'', ''3'']) [1, 2])"
    by (simp add: lookup_preprocess_def s field_lookup_def numeral_2_eq_2)
  from a b show ?thesis by simp
qed

subsection \<open>Raw features and their projection\<close>

lemma grid_as_range:
  "concat (map (\<lambda>i. map (\<lambda>j. [i, j]) [0 ..< d]) [0 ..< n]) =
     map (\<lambda>k. [k div d, k mod d]) [0 ..< n * d]"
proof (induction n)
  case 0
  then show ?case by simp
next
  case (Suc n)
  have "[0 ..< Suc n * d] = [0 ..< n * d] @ [n * d ..< n * d + d]"
    by (metis add.commute le_add1 mult_Suc upt_add_eq_append zero_le add_0)
  moreover have "[n * d ..< n * d + d] = map (\<lambda>j. n * d + j) [0 ..< d]"
    by (simp add: map_add_upt add.commute)
  moreover have "map (\<lambda>k. [k div d, k mod d]) (map (\<lambda>j. n * d + j) [0 ..< d]) =
                   map (\<lambda>j. [n, j]) [0 ..< d]"
    unfolding map_map by (rule map_cong) simp_all
  ultimately show ?case using Suc by simp
qed

lemma raw_grid:
  "concat_axis1 (map (\<lambda>i. [i]) (tiled_rows n d)) (map (\<lambda>i. [i]) (tiled_cols n d)) =
     concat (map (\<lambda>i. map (\<lambda>j. [i, j]) [0 ..< d]) [0 ..< n])"
proof -
  let ?F = "\<lambda>i :: nat. replicate d i"
  let ?G = "\<lambda>i :: nat. [0 ..< d]"
  have c: "tiled_cols n d = concat (map ?G [0 ..< n])"
    by (simp add: tiled_cols_def map_replicate_const)
  have z: "zip (concat (map ?F [0 ..< n])) (concat (map ?G [0 ..< n])) =
             concat (map (\<lambda>(xs, ys). zip xs ys) (zip (map ?F [0 ..< n]) (map ?G [0 ..< n])))"
    by (rule zip_concat) simp_all
  have zz: "zip (map ?F [0 ..< n]) (map ?G [0 ..< n]) = map (\<lambda>i. (?F i, ?G i)) [0 ..< n]"
    by (rule zip_map_same)
  have "concat_axis1 (map (\<lambda>i. [i]) (tiled_rows n d)) (map (\<lambda>i. [i]) (tiled_cols n d)) =
          map (\<lambda>p. [fst p, snd p]) (zip (tiled_rows n d) (tiled_cols n d))"
    by (simp add: concat_axis1_def zip_map_map split_def)
  also have "\<dots> = concat (map (\<lambda>i. map (\<lambda>p. [fst p, snd p]) (zip (?F i) (?G i))) [0 ..< n])"
    unfolding tiled_rows_def c z zz by (simp add: map_concat comp_def)
  also have "\<dots> = concat (map (\<lambda>i. map (\<lambda>j. [i, j]) [0 ..< d]) [0 ..< n])"
    by (simp add: zip_replicate_upt)
  finally show ?thesis .
qed

lemma raw_ids:
  "map (\<lambda>r. real (hd r)) (map (\<lambda>i. [i]) (tiled_cols n d)) =
     concat (replicate n (map real [0 ..< d]))"
  by (simp add: tiled_cols_def comp_def map_concat map_replicate)

lemma strictly_increasing_nth:
  "(\<forall>i. Suc i < length xs \<longrightarrow> lex_less (xs ! i) (xs ! Suc i)) \<Longrightarrow> strictly_increasing xs"
proof (induction xs rule: strictly_increasing.induct)
  case (1 a b rest)
  have "lex_less a b" using 1(2) [rule_format, of 0] by simp
  moreover have "\<forall>i. Suc i < length (b # rest) \<longrightarrow> lex_less ((b # rest) ! i) ((b # rest) ! Suc i)"
  proof (intro allI impI)
    fix i assume "Suc i < length (b # rest)"
    then have "Suc (Suc i) < length (a # b # rest)" by simp
    from 1(2) [rule_format, OF this] show "lex_less ((b # rest) ! i) ((b # rest) ! Suc i)"
      by simp
  qed
  ultimately show ?case using 1(1) by simp
qed simp_all

lemma map_of_zip_upt:
  "p < length xs \<Longrightarrow> map_of (zip [0 ..< length xs] xs) p = Some (xs ! p)"
proof (induction xs rule: rev_induct)
  case Nil
  then show ?case by simp
next
  case (snoc x xs)
  show ?case
  proof (cases "p < length xs")
    case True
    then have "map_of (zip [0 ..< length xs] xs) p = Some (xs ! p)" by (rule snoc.IH)
    then show ?thesis using True by (simp add: nth_append)
  next
    case False
    then have p: "p = length xs" using snoc.prems by simp
    have "length xs \<notin> fst ` set (zip [0 ..< length xs] xs)"
    proof
      assume "length xs \<in> fst ` set (zip [0 ..< length xs] xs)"
      then obtain y where "(length xs, y) \<in> set (zip [0 ..< length xs] xs)" by force
      then have "length xs \<in> set [0 ..< length xs]" by (rule set_zip_leftD)
      then show False by simp
    qed
    then have none: "map_of (zip [0 ..< length xs] xs) (length xs) = None"
      by (simp add: map_of_eq_None_iff)
    have "map_of (zip [0 ..< length (xs @ [x])] (xs @ [x])) (length xs) =
            ([length xs \<mapsto> x] ++ map_of (zip [0 ..< length xs] xs)) (length xs)"
      by simp
    also have "\<dots> = Some x" unfolding map_add_def none by simp
    finally show ?thesis using p by simp
  qed
qed

lemma scatter_grid:
  assumes "length xs = n * d"
  shows "sparse_to_dense (concat (map (\<lambda>i. map (\<lambda>j. [i, j]) [0 ..< d]) [0 ..< n])) [n, d] xs =
           Inr xs"
proof -
  let ?G = "map (\<lambda>k. [k div d, k mod d]) [0 ..< n * d]"
  have lenG: "length ?G = length xs" using assms by simp
  have dpos: "\<And>k. k < n * d \<Longrightarrow> 0 < d" by (cases d) simp_all
  have bounds: "list_all (index_in_bounds [n, d]) ?G"
  proof -
    have "\<And>k. k < n * d \<Longrightarrow> index_in_bounds [n, d] [k div d, k mod d]"
    proof -
      fix k assume k: "k < n * d"
      have "k div d < n" using k by (simp add: less_mult_imp_div_less)
      moreover have "k mod d < d" using dpos [OF k] by simp
      ultimately show "index_in_bounds [n, d] [k div d, k mod d]"
        by (simp add: index_in_bounds_def)
    qed
    then show ?thesis by (simp add: list_all_iff)
  qed
  have incr: "strictly_increasing ?G"
  proof (rule strictly_increasing_nth, intro allI impI)
    fix i assume "Suc i < length ?G"
    then have i: "Suc i < n * d" by simp
    then have d: "0 < d" using dpos by blast
    have "lex_less [i div d, i mod d] [Suc i div d, Suc i mod d]"
    proof (cases "Suc (i mod d) = d")
      case True
      then have "Suc i div d = Suc (i div d)" by (simp add: div_Suc mod_Suc)
      then show ?thesis by simp
    next
      case False
      then have "Suc i div d = i div d" "Suc i mod d = Suc (i mod d)"
        by (simp_all add: div_Suc mod_Suc)
      then show ?thesis by simp
    qed
    then show "lex_less (?G ! i) (?G ! Suc i)" using i by simp
  qed
  have flat: "map (flat_index [n, d]) ?G = [0 ..< length xs]"
  proof -
    have "map (flat_index [n, d]) ?G = map (\<lambda>k. k) [0 ..< n * d]"
      unfolding map_map by (rule map_cong) simp_all
    then show ?thesis using assms by simp
  qed
  have "map (\<lambda>p. case map_of (zip [0 ..< length xs] xs) p of None \<Rightarrow> 0 | Some v \<Rightarrow> v)
          [0 ..< length xs] = map ((!) xs) [0 ..< length xs]"
    by (rule map_cong) (simp_all add: map_of_zip_upt)
  also have "\<dots> = xs" by (rule map_nth)
  finally have "map (\<lambda>p. case map_of (zip [0 ..< length xs] xs) p of None \<Rightarrow> 0 | Some v \<Rightarrow> v)
          [0 ..< n * d] = xs"
    using assms by simp
  then show ?thesis
    unfolding grid_as_range sparse_to_dense_def
    using lenG bounds incr flat assms by simp
qed


lemma row_indices_full:
  assumes "\<forall>r\<in>set rows. length r = d"
  shows "row_indices rows = concat (map (\<lambda>i. map (\<lambda>j. [i, j]) [0 ..< d]) [0 ..< length rows])"
proof -
  have "map (\<lambda>(i, toks). map (\<lambda>j. [i, j]) [0 ..< length toks]) (zip [0 ..< length rows] rows) =
          map (\<lambda>i. map (\<lambda>j. [i, j]) [0 ..< d]) [0 ..< length rows]"
    by (rule nth_equalityI) (use assms in simp_all)
  then show ?thesis by (simp add: row_indices_def)
qed

lemma raw_parse_split:
  assumes "elems field = StrData ss" and "shape field = [length ss]"
    and "raw_input_dim fc > 1"
    and "\<forall>s\<in>set ss. length (split_tokens (separator fc) True s) = nat (raw_input_dim fc)"
    and "string_to_number env FLOAT (concat (map (split_tokens (separator fc) True) ss)) = Inr xs"
  shows "raw_parse env fc field = Inr (DenseT [length ss, nat (raw_input_dim fc)] (NumData FLOAT xs))"
proof -
  let ?rows = "map (split_tokens (separator fc) True) ss"
  let ?d = "nat (raw_input_dim fc)"
  have f: "\<forall>r\<in>set ?rows. length r = ?d" using assms(4) by simp
  have ri: "row_indices ?rows = concat (map (\<lambda>i. map (\<lambda>j. [i, j]) [0 ..< ?d]) [0 ..< length ss])"
    using row_indices_full [OF f] by simp
  have "length xs = length (concat ?rows)" using assms(5) by (rule string_to_number_length)
  then have lx: "length xs = length ss * ?d" using length_concat_rows [OF f] by simp
  have sd: "sparse_to_dense (row_indices ?rows) [length ss, ?d] xs = Inr xs"
    unfolding ri using lx by (rule scatter_grid)
  show ?thesis using assms(1,2,3,5) sd
    by (simp add: raw_parse_def string_split_def sparse_of_rows_def)
qed

lemma raw_parse_float:
  assumes "raw_parse env fc field = Inr p"
  shows "\<exists>xs. elems p = NumData FLOAT xs"
proof (cases "elems field")
  case (StrData ss)
  show ?thesis
  proof (cases "raw_input_dim fc > 1")
    case True
    with assms StrData show ?thesis
      by (auto simp: raw_parse_def rbind_eq_Inr)
  next
    case False
    with assms StrData show ?thesis
      by (auto simp: raw_parse_def rbind_eq_Inr)
  qed
next
  case (NumData ty xs)
  with assms show ?thesis by (auto simp: raw_parse_def)
next
  case (BoolData bs)
  with assms show ?thesis by (simp add: raw_parse_def)
qed

lemma raw_dense_float:
  assumes "raw_dense env fc field = Inr parsed"
  shows "\<exists>xs. elems parsed = NumData FLOAT xs"
proof -
  from assms obtain p where p: "raw_parse env fc field = Inr p"
    and r: "(if max_val fc > min_val fc
             then (case elems p of
                     NumData ty xs \<Rightarrow>
                       Inr (DenseT (shape p) (NumData ty (normalize_vals env fc xs)))
                   | _ \<Rightarrow> Inl (TypeError ''unsupported operand types''))
             else Inr p) = Inr parsed"
    by (auto simp: raw_dense_def rbind_eq_Inr)
  from raw_parse_float [OF p] obtain xs where "elems p = NumData FLOAT xs" by blast
  with r show ?thesis by (auto split: if_splits)
qed

lemma raw_dense_numeric:
  "elems field = NumData ty xs \<Longrightarrow>
     raw_dense env fc field =
       Inr (DenseT (shape field)
              (NumData FLOAT (if max_val fc > min_val fc
                              then normalize_vals env fc (to_float env ty xs)
                              else to_float env ty xs)))"
  by (simp add: raw_dense_def raw_parse_def)

lemma raw_dense_string:
  assumes "elems field = StrData ss" and "raw_input_dim fc \<le> 1"
    and "raw_dense env fc field = Inr parsed"
  shows "\<exists>xs. string_to_number env FLOAT ss = Inr xs \<and>
           parsed = DenseT (shape field)
                      (NumData FLOAT (if max_val fc > min_val fc then normalize_vals env fc xs
                                      else xs))"
  using assms
  by (auto simp: raw_dense_def raw_parse_def rbind_eq_Inr split: if_splits)

lemma raw_dense_string_split:
  assumes "elems field = StrData ss" and "shape field = [length ss]"
    and "raw_input_dim fc > 1"
    and "\<forall>s\<in>set ss. length (split_tokens (separator fc) True s) = nat (raw_input_dim fc)"
    and "raw_dense env fc field = Inr parsed"
  shows "\<exists>xs. string_to_number env FLOAT
                (concat (map (split_tokens (separator fc) True) ss)) = Inr xs \<and>
           parsed = DenseT [length ss, nat (raw_input_dim fc)]
                      (NumData FLOAT (if max_val fc > min_val fc then normalize_vals env fc xs
                                      else xs))"
proof -
  from assms(1,2,3,5) obtain xs where
    x: "string_to_number env FLOAT (concat (map (split_tokens (separator fc) True) ss)) = Inr xs"
    by (auto simp: raw_dense_def raw_parse_def rbind_eq_Inr string_split_def sparse_of_rows_def
          split: if_splits)
  have "raw_parse env fc field =
          Inr (DenseT [length ss, nat (raw_input_dim fc)] (NumData FLOAT xs))"
    using assms(1,2,3,4) x by (rule raw_parse_split)
  then have "parsed = DenseT [length ss, nat (raw_input_dim fc)]
                      (NumData FLOAT (if max_val fc > min_val fc then normalize_vals env fc xs
                                      else xs))"
    using assms(5) by (simp add: raw_dense_def split: if_splits)
  with x show ?thesis by blast
qed

lemma length_grid:
  "length (concat (map (\<lambda>i. map (\<lambda>j. [i, j]) [0 ..< d]) [0 ..< n])) = n * d"
  by (simp add: grid_as_range)

text \<open>
  Claim C3, as amended. For a Raw feature with no boundaries and num\_buckets at most one
  whose first input is not the sample-weight field, whose field parses to a dense value of
  n rows, and whose raw\_input\_dim d is not negative, the step appends the keys
  \_raw\_proj\_id and \_raw\_proj\_val in this order; both containers carry the row-major
  index grid of an n by d matrix, the id values are 0..d-1 repeated for every row (the
  column number of their index row), and the val values are the flattened parsed value,
  which is float32. When the parsed value has n * d entries, scattering the val values by
  the index rows gives the parsed value back; otherwise the container has not one value
  per index row and cannot be scattered. The parsed value is: for a numeric field, the
  field cast to float32 (rounded unless it is float32 already); for a string field with d
  at most one, the parsed strings in the shape of the field; for a string vector with d
  above one whose every row splits into exactly d tokens, the parsed tokens in order as
  an n by d matrix; each of them rescaled by (x - min\_val) / (max\_val - min\_val) in
  float32 arithmetic when max\_val exceeds min\_val.
\<close>

theorem raw_projection:
  assumes "input_names fc = input_0 # others"
    and "map_of field_dict input_0 = Some field"
    and "boundaries fc = []" and "num_buckets fc \<le> 1"
    and "sample_weight_val self \<noteq> input_0"
    and "raw_dense env fc field = Inr parsed"
    and "shape parsed = n # rest"
    and "0 \<le> raw_input_dim fc"
  shows "preprocess_raw env self fc field_dict st =
           Inr (append_field (input_0 @ ''_raw_proj_val'')
                 (append_field (input_0 @ ''_raw_proj_id'')
                   (set_parsed (input_0 @ ''_raw_proj_val'')
                      (Sparse (concat (map (\<lambda>i. map (\<lambda>j. [i, j]) [0 ..< nat (raw_input_dim fc)])
                                 [0 ..< n]))
                         (elems parsed) [int n, int (nat (raw_input_dim fc))])
                   (set_parsed (input_0 @ ''_raw_proj_id'')
                      (Sparse (concat (map (\<lambda>i. map (\<lambda>j. [i, j]) [0 ..< nat (raw_input_dim fc)])
                                 [0 ..< n]))
                         (NumData INT64
                            (concat (replicate n (map real [0 ..< nat (raw_input_dim fc)]))))
                         [int n, int (nat (raw_input_dim fc))])
                      (set_parsed input_0 (Dense parsed) st))))) \<and>
         concat (replicate n (map real [0 ..< nat (raw_input_dim fc)])) =
           map (\<lambda>r. real (r ! 1))
             (concat (map (\<lambda>i. map (\<lambda>j. [i, j]) [0 ..< nat (raw_input_dim fc)]) [0 ..< n])) \<and>
         (\<exists>xs. elems parsed = NumData FLOAT xs \<and>
            sparse_to_dense
              (concat (map (\<lambda>i. map (\<lambda>j. [i, j]) [0 ..< nat (raw_input_dim fc)]) [0 ..< n]))
              [n, nat (raw_input_dim fc)] xs =
              (if length xs = n * nat (raw_input_dim fc) then Inr xs
               else Inl (InvalidArgument ''sparse_values has incorrect shape''))) \<and>
         (\<forall>ty xs. elems field = NumData ty xs \<longrightarrow>
            parsed = DenseT (shape field)
                       (NumData FLOAT (if max_val fc > min_val fc
                                       then normalize_vals env fc (to_float env ty xs)
                                       else to_float env ty xs))) \<and>
         (\<forall>ss. elems field = StrData ss \<and> raw_input_dim fc \<le> 1 \<longrightarrow>
            (\<exists>xs. string_to_number env FLOAT ss = Inr xs \<and>
               parsed = DenseT (shape field)
                          (NumData FLOAT (if max_val fc > min_val fc
                                          then normalize_vals env fc xs else xs)))) \<and>
         (\<forall>ss. elems field = StrData ss \<and> shape field = [length ss] \<and> raw_input_dim fc > 1 \<and>
            (\<forall>s\<in>set ss. length (split_tokens (separator fc) True s) = nat (raw_input_dim fc))
            \<longrightarrow>
            (\<exists>xs. string_to_number env FLOAT
                    (concat (map (split_tokens (separator fc) True) ss)) = Inr xs \<and>
               parsed = DenseT [length ss, nat (raw_input_dim fc)]
                          (NumData FLOAT (if max_val fc > min_val fc
                                          then normalize_vals env fc xs else xs))))"
proof (intro conjI allI impI)
  show "preprocess_raw env self fc field_dict st =
           Inr (append_field (input_0 @ ''_raw_proj_val'')
                 (append_field (input_0 @ ''_raw_proj_id'')
                   (set_parsed (input_0 @ ''_raw_proj_val'')
                      (Sparse (concat (map (\<lambda>i. map (\<lambda>j. [i, j]) [0 ..< nat (raw_input_dim fc)])
                                 [0 ..< n]))
                         (elems parsed) [int n, int (nat (raw_input_dim fc))])
                   (set_parsed (input_0 @ ''_raw_proj_id'')
                      (Sparse (concat (map (\<lambda>i. map (\<lambda>j. [i, j]) [0 ..< nat (raw_input_dim fc)])
                                 [0 ..< n]))
                         (NumData INT64
                            (concat (replicate n (map real [0 ..< nat (raw_input_dim fc)]))))
                         [int n, int (nat (raw_input_dim fc))])
                      (set_parsed input_0 (Dense parsed) st)))))"
    using assms
    by (simp add: preprocess_raw_def input_names_0_def field_lookup_def raw_proj_def Let_def
          raw_grid raw_ids del: map_map)
next
  show "concat (replicate n (map real [0 ..< nat (raw_input_dim fc)])) =
           map (\<lambda>r. real (r ! 1))
             (concat (map (\<lambda>i. map (\<lambda>j. [i, j]) [0 ..< nat (raw_input_dim fc)]) [0 ..< n]))"
    by (simp add: map_concat comp_def map_replicate_const)
next
  from raw_dense_float [OF assms(6)] obtain xs where x: "elems parsed = NumData FLOAT xs"
    by blast
  have "sparse_to_dense
              (concat (map (\<lambda>i. map (\<lambda>j. [i, j]) [0 ..< nat (raw_input_dim fc)]) [0 ..< n]))
              [n, nat (raw_input_dim fc)] xs =
              (if length xs = n * nat (raw_input_dim fc) then Inr xs
               else Inl (InvalidArgument ''sparse_values has incorrect shape''))"
  proof (cases "length xs = n * nat (raw_input_dim fc)")
    case True
    then show ?thesis using scatter_grid [OF True] by simp
  next
    case False
    then show ?thesis by (simp add: sparse_to_dense_def length_grid)
  qed
  with x show "\<exists>xs. elems parsed = NumData FLOAT xs \<and>
            sparse_to_dense
              (concat (map (\<lambda>i. map (\<lambda>j. [i, j]) [0 ..< nat (raw_input_dim fc)]) [0 ..< n]))
              [n, nat (raw_input_dim fc)] xs =
              (if length xs = n * nat (raw_input_dim fc) then Inr xs
               else Inl (InvalidArgument ''sparse_values has incorrect shape''))"
    by blast
next
  fix ty xs
  assume "elems field = NumData ty xs"
  from raw_dense_numeric [OF this, of env fc] assms(6)
  show "parsed = DenseT (shape field)
                       (NumData FLOAT (if max_val fc > min_val fc
                                       then normalize_vals env fc (to_float env ty xs)
                                       else to_float env ty xs))"
    by simp
next
  fix ss
  assume "elems field = StrData ss \<and> raw_input_dim fc \<le> 1"
  then show "\<exists>xs. string_to_number env FLOAT ss = Inr xs \<and>
               parsed = DenseT (shape field)
                          (NumData FLOAT (if max_val fc > min_val fc
                                          then normalize_vals env fc xs else xs))"
    using raw_dense_string [of field ss fc env parsed] assms(6) by blast
next
  fix ss
  assume "elems field = StrData ss \<and> shape field = [length ss] \<and> raw_input_dim fc > 1 \<and>
            (\<forall>s\<in>set ss. length (split_tokens (separator fc) True s) = nat (raw_input_dim fc))"
  then show "\<exists>xs. string_to_number env FLOAT
                    (concat (map (split_tokens (separator fc) True) ss)) = Inr xs \<and>
               parsed = DenseT [length ss, nat (raw_input_dim fc)]
                          (NumData FLOAT (if max_val fc > min_val fc
                                          then normalize_vals env fc xs else xs))"
    using raw_dense_string_split [of field ss fc env parsed] assms(6) by blast
qed


theorem raw_projection_witness:
  "preprocess_raw example_env example_input
     (example_config\<lparr>feature_type := RawFeature, raw_input_dim := 2\<rparr>)
     [(''f'', DenseT [2] (StrData [''1,2'', ''3,4'']))] empty_state =
     Inr \<lparr>parsed_dict =
            [(''f'', Dense (DenseT [2, 2] (NumData FLOAT [1, 2, 3, 4]))),
             (''f_raw_proj_id'',
              Sparse [[0, 0], [0, 1], [1, 0], [1, 1]] (NumData INT64 [0, 1, 0, 1]) [2, 2]),
             (''f_raw_proj_val'',
              Sparse [[0, 0], [0, 1], [1, 0], [1, 1]] (NumData FLOAT [1, 2, 3, 4]) [2, 2])],
          appended_fields = [''f_raw_proj_id'', ''f_raw_proj_val'']\<rparr> \<and>
   sparse_to_dense [[0, 0], [0, 1], [1, 0], [1, 1]] [2, 2] [1, 2, 3, 4] = Inr [1, 2, 3, 4]"
proof -
  let ?fc = "example_config\<lparr>feature_type := RawFeature, raw_input_dim := 2\<rparr>"
  let ?field = "DenseT [2] (StrData [''1,2'', ''3,4''])"
  let ?parsed = "DenseT [2, 2] (NumData FLOAT [1, 2, 3, 4])"
  have a: "input_names ?fc = ''f'' # []" by (simp add: example_config_def)
  have b: "map_of [(''f'', ?field)] ''f'' = Some ?field" by simp
  have c: "boundaries ?fc = []" by (simp add: example_config_def)
  have d: "num_buckets ?fc \<le> 1" by (simp add: example_config_def)
  have e: "sample_weight_val example_input \<noteq> ''f''"
    by (simp add: example_input_def sample_weight_val_def)
  have f: "raw_dense example_env ?fc ?field = Inr ?parsed"
    by code_simp
  have g: "shape ?parsed = 2 # [2]" by simp
  have h: "0 \<le> raw_input_dim ?fc" by (simp add: example_config_def)
  have u: "[0 ..< 2] = [0, Suc 0]" by (simp add: upt_rec)
  have r: "raw_input_dim ?fc = 2" by (simp add: example_config_def)
  have q: "concat (replicate 2 [0, 1 :: real]) = [0, 1, 0, 1]" by (simp add: numeral_2_eq_2)
  show ?thesis
    using raw_projection [OF a b c d e f g h, of empty_state]
    by (simp add: r u q empty_state_def set_parsed_def append_field_def)
qed

text \<open>
  The claim as stated fails three times. With max\_val 4 and min\_val 0 the value stored for
  the input 2 is 1/2. The int64 input 16777217 is stored as the float32 16777216. A Raw
  feature read from the sample-weight field gets no projection at all.
\<close>

theorem raw_projection_counterexample:
  "preprocess_raw example_env example_input
     (example_config\<lparr>feature_type := RawFeature, max_val := 4\<rparr>)
     [(''f'', DenseT [1] (NumData FLOAT [2]))] empty_state =
     Inr \<lparr>parsed_dict =
            [(''f'', Dense (DenseT [1] (NumData FLOAT [1 / 2]))),
             (''f_raw_proj_id'', Sparse [[0, 0]] (NumData INT64 [0]) [1, 1]),
             (''f_raw_proj_val'', Sparse [[0, 0]] (NumData FLOAT [1 / 2]) [1, 1])],
          appended_fields = [''f_raw_proj_id'', ''f_raw_proj_val'']\<rparr> \<and>
   preprocess_raw example_env example_input (example_config\<lparr>feature_type := RawFeature\<rparr>)
     [(''f'', DenseT [1] (NumData INT64 [16777217]))] empty_state =
     Inr \<lparr>parsed_dict =
            [(''f'', Dense (DenseT [1] (NumData FLOAT [16777216]))),
             (''f_raw_proj_id'', Sparse [[0, 0]] (NumData INT64 [0]) [1, 1]),
             (''f_raw_proj_val'', Sparse [[0, 0]] (NumData FLOAT [16777216]) [1, 1])],
          appended_fields = [''f_raw_proj_id'', ''f_raw_proj_val'']\<rparr> \<and>
   preprocess_raw example_env example_input
     (example_config\<lparr>feature_type := RawFeature, input_names := [''w'']\<rparr>)
     [(''w'', DenseT [1] (NumData FLOAT [2]))] empty_state =
     Inr \<lparr>parsed_dict = [(''w'', Dense (DenseT [1] (NumData FLOAT [2])))],
          appended_fields = []\<rparr>"
  by (simp add: example_config_def example_input_def example_env_def empty_state_def
        sample_weight_val_def preprocess_raw_def raw_dense_def raw_parse_def raw_proj_def
        input_names_0_def field_lookup_def set_parsed_def append_field_def normalize_vals_def
        to_float_def tiled_rows_def tiled_cols_def concat_axis1_def Let_def)

end
